(* ===== verification/Prelude.thy ===== *)
theory Prelude
  imports Main "HOL-Library.Word"
begin

text \<open>
  Shared vocabulary of the development. The machine integers of the Rust sources
  (\<open>u8\<close>, \<open>u16\<close>, \<open>u32\<close>, \<open>u64\<close>) are words of that width; \<open>usize\<close> and instants of
  the monotonic clock are \<open>nat\<close>; a \<open>Result<T, E>\<close> is the sum \<open>'e + 'a\<close> with \<open>Err\<close> on
  the left. The theory also holds the big-endian and little-endian field codecs behind
  \<open>to_be_bytes\<close>, \<open>from_be_bytes\<close> and \<open>to_le_bytes\<close>, slices, Rust's \<open>chunks\<close>, and the
  collections of rewrite rules that the component theories extend.
\<close>

section \<open>Types and results\<close>

type_synonym u8 = "8 word"
type_synonym u16 = "16 word"
type_synonym u32 = "32 word"
type_synonym u64 = "64 word"
type_synonym byte = "8 word"
type_synonym bytes = "8 word list"
type_synonym usize = nat
type_synonym instant = nat

abbreviation Ok :: "'a \<Rightarrow> 'e + 'a" where
  "Ok \<equiv> Inr"

abbreviation Err :: "'e \<Rightarrow> 'e + 'a" where
  "Err \<equiv> Inl"

named_theorems result_simps \<open>equations of the result combinators\<close>
named_theorems codec_simps \<open>equations of the byte-level codecs\<close>
named_theorems wire_defs \<open>definitions of the wire-format operations\<close>

text \<open>\<open>Result::and_then\<close> (and the \<open>?\<close> operator), \<open>Result::map_err\<close> and \<open>Result::map\<close>.\<close>

fun and_then :: "'e + 'a \<Rightarrow> ('a \<Rightarrow> 'e + 'b) \<Rightarrow> 'e + 'b" where
  "and_then (Err e) k = Err e"
| "and_then (Ok x) k = k x"

fun map_err :: "('e \<Rightarrow> 'f) \<Rightarrow> 'e + 'a \<Rightarrow> 'f + 'a" where
  "map_err f (Err e) = Err (f e)"
| "map_err f (Ok x) = Ok x"

fun map_ok :: "('a \<Rightarrow> 'b) \<Rightarrow> 'e + 'a \<Rightarrow> 'e + 'b" where
  "map_ok f (Err e) = Err e"
| "map_ok f (Ok x) = Ok (f x)"

fun result_ok :: "'e + 'a \<Rightarrow> 'a option" where
  "result_ok (Err e) = None"
| "result_ok (Ok x) = Some x"

lemma and_then_Ok_iff [result_simps]:
  "and_then r k = Ok y \<longleftrightarrow> (\<exists>x. r = Ok x \<and> k x = Ok y)"
  by (cases r) auto

lemma and_then_Err_iff [result_simps]:
  "and_then r k = Err e \<longleftrightarrow> r = Err e \<or> (\<exists>x. r = Ok x \<and> k x = Err e)"
  by (cases r) auto

lemma map_err_Ok_iff [result_simps, simp]: "map_err f r = Ok y \<longleftrightarrow> r = Ok y"
  by (cases r) auto

lemma map_err_Err_iff [result_simps]: "map_err f r = Err e \<longleftrightarrow> (\<exists>d. r = Err d \<and> e = f d)"
  by (cases r) auto

lemma map_ok_Ok_iff [result_simps]: "map_ok f r = Ok y \<longleftrightarrow> (\<exists>x. r = Ok x \<and> y = f x)"
  by (cases r) auto

lemma map_ok_Err_iff [result_simps, simp]: "map_ok f r = Err e \<longleftrightarrow> r = Err e"
  by (cases r) auto

section \<open>Slices and chunks\<close>

text \<open>\<open>&xs[i..j]\<close>, used where the source has checked that \<open>j\<close> is in range.\<close>

definition slice :: "nat \<Rightarrow> nat \<Rightarrow> 'a list \<Rightarrow> 'a list" where
  "slice i j xs = take (j - i) (drop i xs)"

lemma length_slice [simp]: "length (slice i j xs) = min (j - i) (length xs - i)"
  by (simp add: slice_def min.commute)

lemma slice_append_left: "j \<le> length xs \<Longrightarrow> slice i j (xs @ ys) = slice i j xs"
  by (cases "i \<le> length xs") (simp_all add: slice_def)

lemma slice_append_right:
  "length xs \<le> i \<Longrightarrow> slice i j (xs @ ys) = slice (i - length xs) (j - length xs) ys"
  by (simp add: slice_def)

lemma slice_full: "j = length xs \<Longrightarrow> slice 0 j xs = xs"
  by (simp add: slice_def)

lemma slice_split: "i \<le> j \<Longrightarrow> j \<le> k \<Longrightarrow> slice i k xs = slice i j xs @ slice j k xs"
proof -
  assume "i \<le> j" "j \<le> k"
  then have "k - i = (j - i) + (k - j)" "drop j xs = drop (j - i) (drop i xs)"
    by simp_all
  then show ?thesis by (simp only: slice_def take_add)
qed

lemma slice_single: "i < length xs \<Longrightarrow> j = Suc i \<Longrightarrow> slice i j xs = [xs ! i]"
  by (simp add: slice_def take_Suc_conv_app_nth hd_drop_conv_nth)

lemma take_slice: "take n xs = slice 0 n xs"
  by (simp add: slice_def)

text \<open>\<open>slice::chunks\<close>: consecutive blocks of \<open>n\<close> elements, the last one possibly shorter.\<close>

function chunks_of :: "nat \<Rightarrow> 'a list \<Rightarrow> 'a list list" where
  "chunks_of n xs = (if n = 0 \<or> xs = [] then [] else take n xs # chunks_of n (drop n xs))"
  by pat_completeness auto
termination
  by (relation "measure (\<lambda>(n, xs). length xs)") auto

declare chunks_of.simps [simp del]

lemma chunks_of_Nil [simp]: "chunks_of n [] = []"
  by (simp add: chunks_of.simps)

lemma chunks_of_step:
  "0 < n \<Longrightarrow> xs \<noteq> [] \<Longrightarrow> chunks_of n xs = take n xs # chunks_of n (drop n xs)"
  by (simp add: chunks_of.simps [of n xs])

lemma concat_chunks_of [simp]: "0 < n \<Longrightarrow> concat (chunks_of n xs) = xs"
proof (induction n xs rule: chunks_of.induct)
  case (1 n xs)
  then show ?case by (cases "xs = []") (simp_all add: chunks_of_step)
qed

lemma chunks_of_eq_Nil [simp]: "0 < n \<Longrightarrow> chunks_of n xs = [] \<longleftrightarrow> xs = []"
  by (cases "xs = []") (simp_all add: chunks_of_step)

lemma chunks_of_length_le: "c \<in> set (chunks_of n xs) \<Longrightarrow> length c \<le> n"
proof (induction n xs rule: chunks_of.induct)
  case (1 n xs)
  then show ?case
    by (cases "n = 0 \<or> xs = []") (auto simp: chunks_of.simps [of n xs])
qed

lemma chunks_of_nonempty: "c \<in> set (chunks_of n xs) \<Longrightarrow> c \<noteq> []"
proof (induction n xs rule: chunks_of.induct)
  case (1 n xs)
  then show ?case
    by (cases "n = 0 \<or> xs = []") (auto simp: chunks_of.simps [of n xs])
qed

lemma length_chunks_of_ge: "0 < n \<Longrightarrow> length xs \<le> n * length (chunks_of n xs)"
proof (induction n xs rule: chunks_of.induct)
  case (1 n xs)
  then show ?case by (cases "xs = []") (auto simp: chunks_of_step)
qed

text \<open>\<open>usize::div_ceil\<close>.\<close>

definition div_ceil :: "nat \<Rightarrow> nat \<Rightarrow> nat" where
  "div_ceil a b = (if a mod b = 0 then a div b else a div b + 1)"

lemma div_ceil_step: "0 < b \<Longrightarrow> b \<le> a \<Longrightarrow> div_ceil a b = Suc (div_ceil (a - b) b)"
  by (simp add: div_ceil_def le_div_geq le_mod_geq)

lemma div_ceil_small: "0 < a \<Longrightarrow> a \<le> b \<Longrightarrow> div_ceil a b = 1"
  by (cases "a = b") (auto simp: div_ceil_def)

lemma length_chunks_of: "0 < n \<Longrightarrow> length (chunks_of n xs) = div_ceil (length xs) n"
proof (induction n xs rule: chunks_of.induct)
  case (1 n xs)
  show ?case
  proof (cases "xs = []")
    case True
    then show ?thesis by (simp add: div_ceil_def)
  next
    case False
    with 1 have step: "length (chunks_of n xs) = Suc (div_ceil (length xs - n) n)"
      by (simp add: chunks_of_step)
    show ?thesis
    proof (cases "n \<le> length xs")
      case True
      with step 1 show ?thesis by (simp add: div_ceil_step)
    next
      case False
      with step \<open>xs \<noteq> []\<close> show ?thesis by (simp add: div_ceil_small) (simp add: div_ceil_def)
    qed
  qed
qed

section \<open>Integer fields as bytes\<close>

text \<open>
  The \<open>n\<close> low bytes of an integer, most significant first, and the integer a byte list
  spells in that order. The words of the source pass through \<open>uint\<close>.
\<close>

fun be_bytes :: "nat \<Rightarrow> int \<Rightarrow> bytes" where
  "be_bytes 0 v = []"
| "be_bytes (Suc n) v = be_bytes n (v div 256) @ [word_of_int (v mod 256)]"

definition be_value :: "bytes \<Rightarrow> int" where
  "be_value bs = foldl (\<lambda>acc b. acc * 256 + uint b) 0 bs"

lemma be_bytes_numeral [simp]:
  "be_bytes (numeral k) v = be_bytes (pred_numeral k) (v div 256) @ [word_of_int (v mod 256)]"
  by (simp add: numeral_eq_Suc)

lemma length_be_bytes [simp]: "length (be_bytes n v) = n"
  by (induction n arbitrary: v) auto

lemma be_value_Nil [simp]: "be_value [] = 0"
  by (simp add: be_value_def)

lemma be_value_snoc [simp]: "be_value (bs @ [b]) = be_value bs * 256 + uint b"
  by (simp add: be_value_def)

lemma uint_byte_mod: "uint (word_of_int (v mod 256) :: byte) = v mod 256"
  by (simp add: uint_word_of_int)

lemma be_value_be_bytes: "0 \<le> v \<Longrightarrow> v < 256 ^ n \<Longrightarrow> be_value (be_bytes n v) = v"
proof (induction n arbitrary: v)
  case 0
  then show ?case by simp
next
  case (Suc n)
  then have "0 \<le> v div 256" "v div 256 < 256 ^ n"
    by simp_all
  then have "be_value (be_bytes n (v div 256)) = v div 256"
    by (rule Suc.IH)
  then show ?case by (simp add: uint_byte_mod)
qed

lemma be_value_bounds: "0 \<le> be_value bs \<and> be_value bs < 256 ^ length bs"
proof (induction bs rule: rev_induct)
  case Nil
  then show ?case by simp
next
  case (snoc b bs)
  have "uint b < 256" using uint_lt2p [of b] by simp
  with snoc show ?case by (simp add: mult.commute)
qed

lemma be_bytes_be_value: "length bs = n \<Longrightarrow> be_bytes n (be_value bs) = bs"
proof (induction n arbitrary: bs)
  case 0
  then show ?case by simp
next
  case (Suc n)
  then obtain cs c where bs: "bs = cs @ [c]" and len: "length cs = n"
    by (metis length_Suc_conv_rev)
  have c: "uint c < 256" using uint_lt2p [of c] by simp
  have "be_value bs div 256 = be_value cs" "be_value bs mod 256 = uint c"
    using c by (simp_all add: bs)
  with Suc.IH [OF len] show ?case by (simp add: bs)
qed

definition u16_to_be_bytes :: "u16 \<Rightarrow> bytes" where
  "u16_to_be_bytes v = be_bytes 2 (uint v)"

definition u16_from_be_bytes :: "bytes \<Rightarrow> u16" where
  "u16_from_be_bytes bs = word_of_int (be_value bs)"

definition u32_to_be_bytes :: "u32 \<Rightarrow> bytes" where
  "u32_to_be_bytes v = be_bytes 4 (uint v)"

definition u32_from_be_bytes :: "bytes \<Rightarrow> u32" where
  "u32_from_be_bytes bs = word_of_int (be_value bs)"

definition u64_to_be_bytes :: "u64 \<Rightarrow> bytes" where
  "u64_to_be_bytes v = be_bytes 8 (uint v)"

definition u64_from_be_bytes :: "bytes \<Rightarrow> u64" where
  "u64_from_be_bytes bs = word_of_int (be_value bs)"

definition u64_to_le_bytes :: "u64 \<Rightarrow> bytes" where
  "u64_to_le_bytes v = rev (be_bytes 8 (uint v))"

definition u64_from_le_bytes :: "bytes \<Rightarrow> u64" where
  "u64_from_le_bytes bs = word_of_int (be_value (rev bs))"

text \<open>
  The contract of a fixed-width integer field: a value occupies \<open>width\<close> bytes, reading
  them back gives the value, and every byte string of that width is the spelling of a
  value. What the header codecs need of a field is proved once from it.
\<close>

locale int_field =
  fixes width :: nat
    and to_bytes :: "'a \<Rightarrow> bytes"
    and from_bytes :: "bytes \<Rightarrow> 'a"
  assumes length_to_bytes: "length (to_bytes v) = width"
    and from_to_bytes: "from_bytes (to_bytes v) = v"
    and to_from_bytes: "length bs = width \<Longrightarrow> to_bytes (from_bytes bs) = bs"
begin

lemma read_field:
  "length pre = i \<Longrightarrow> from_bytes (slice i (i + width) (pre @ to_bytes v @ post)) = v"
  by (simp add: slice_def length_to_bytes from_to_bytes)

lemma to_bytes_inject: "to_bytes v = to_bytes w \<longleftrightarrow> v = w"
  by (metis from_to_bytes)

lemma rewrite_field:
  "i + width \<le> length bs \<Longrightarrow>
    take i bs @ to_bytes (from_bytes (slice i (i + width) bs)) @ drop (i + width) bs = bs"
  by (simp add: to_from_bytes slice_def) (metis add.commute append_take_drop_id drop_drop)

end

lemma be_field_roundtrip:
  fixes v :: "'a::len word"
  assumes "LENGTH('a) = 8 * n"
  shows "(word_of_int (be_value (be_bytes n (uint v))) :: 'a word) = v"
proof -
  have "uint v < 256 ^ n"
    using uint_lt2p [of v] assms by (simp add: power_mult)
  then show ?thesis by (simp add: be_value_be_bytes)
qed

lemma be_field_onto:
  assumes "LENGTH('a::len) = 8 * n" and "length bs = n"
  shows "be_bytes n (uint (word_of_int (be_value bs) :: 'a word)) = bs"
proof -
  have "be_value bs < 2 ^ LENGTH('a)" "0 \<le> be_value bs"
    using be_value_bounds [of bs] assms by (simp_all add: power_mult)
  then have "uint (word_of_int (be_value bs) :: 'a word) = be_value bs"
    by (simp add: uint_word_of_int)
  with assms(2) show ?thesis by (simp add: be_bytes_be_value)
qed

interpretation f16: int_field 2 u16_to_be_bytes u16_from_be_bytes
  by unfold_locales
    (simp_all add: u16_to_be_bytes_def u16_from_be_bytes_def be_field_roundtrip be_field_onto
      del: be_bytes_numeral)

interpretation f32: int_field 4 u32_to_be_bytes u32_from_be_bytes
  by unfold_locales
    (simp_all add: u32_to_be_bytes_def u32_from_be_bytes_def be_field_roundtrip be_field_onto
      del: be_bytes_numeral)

interpretation f64: int_field 8 u64_to_be_bytes u64_from_be_bytes
  by unfold_locales
    (simp_all add: u64_to_be_bytes_def u64_from_be_bytes_def be_field_roundtrip be_field_onto
      del: be_bytes_numeral)

interpretation f64le: int_field 8 u64_to_le_bytes u64_from_le_bytes
  by unfold_locales
    (simp_all add: u64_to_le_bytes_def u64_from_le_bytes_def be_field_roundtrip be_field_onto
      del: be_bytes_numeral)

lemmas field_lengths [codec_simps, simp] =
  f16.length_to_bytes f32.length_to_bytes f64.length_to_bytes f64le.length_to_bytes

lemmas field_reads [codec_simps, simp] =
  f16.from_to_bytes f32.from_to_bytes f64.from_to_bytes f64le.from_to_bytes

section \<open>Saturating arithmetic\<close>

definition saturating_add :: "u64 \<Rightarrow> u64 \<Rightarrow> u64" where
  "saturating_add a b = (if unat a + unat b \<ge> 2 ^ 64 then - 1 else a + b)"

definition saturating_sub :: "u64 \<Rightarrow> u64 \<Rightarrow> u64" where
  "saturating_sub a b = (if a < b then 0 else a - b)"

definition saturating_mul :: "u64 \<Rightarrow> u64 \<Rightarrow> u64" where
  "saturating_mul a b = (if unat a * unat b \<ge> 2 ^ 64 then - 1 else a * b)"

text \<open>\<open>x.min(u64::MAX as u128) as u64\<close>.\<close>

definition clamp_u64 :: "nat \<Rightarrow> u64" where
  "clamp_u64 n = word_of_nat (min n (2 ^ 64 - 1))"

end
