(* ===== verification/Error_Codes.thy ===== *)
theory Error_Codes
  imports Prelude
begin

text \<open>
  The stable error codes of \<^verbatim>\<open>crates/common/src/error.rs\<close>: the enumeration, its numeric
  codes, the partial inverse and the message that \<open>Display\<close> prints for each code.
\<close>

datatype ErrorCode =
    NvmlUnavailable
  | ConfigInvalid
  | PortExhausted
  | MulticastFailed
  | TransportInitFailed
  | HeartbeatTimeout
  | ConnectionClosed
  | QueryTimeout
  | InvalidFilter
  | ProtocolVersionMismatch
  | Internal

primrec code :: "ErrorCode \<Rightarrow> u16" where
  "code NvmlUnavailable = 1001"
| "code ConfigInvalid = 1002"
| "code PortExhausted = 1003"
| "code MulticastFailed = 1004"
| "code TransportInitFailed = 1005"
| "code HeartbeatTimeout = 1006"
| "code ConnectionClosed = 1007"
| "code QueryTimeout = 1008"
| "code InvalidFilter = 1009"
| "code ProtocolVersionMismatch = 1010"
| "code Internal = 1999"

definition from_code :: "u16 \<Rightarrow> ErrorCode option" where
  "from_code n =
     (if n = 1001 then Some NvmlUnavailable
      else if n = 1002 then Some ConfigInvalid
      else if n = 1003 then Some PortExhausted
      else if n = 1004 then Some MulticastFailed
      else if n = 1005 then Some TransportInitFailed
      else if n = 1006 then Some HeartbeatTimeout
      else if n = 1007 then Some ConnectionClosed
      else if n = 1008 then Some QueryTimeout
      else if n = 1009 then Some InvalidFilter
      else if n = 1010 then Some ProtocolVersionMismatch
      else if n = 1999 then Some Internal
      else None)"

primrec error_to_string :: "ErrorCode \<Rightarrow> string" where
  "error_to_string NvmlUnavailable = ''nvml unavailable''"
| "error_to_string ConfigInvalid = ''configuration invalid''"
| "error_to_string PortExhausted = ''port range exhausted''"
| "error_to_string MulticastFailed = ''multicast setup failed''"
| "error_to_string TransportInitFailed = ''transport initialization failed''"
| "error_to_string HeartbeatTimeout = ''heartbeat timeout''"
| "error_to_string ConnectionClosed = ''connection closed''"
| "error_to_string QueryTimeout = ''query timeout''"
| "error_to_string InvalidFilter = ''invalid filter''"
| "error_to_string ProtocolVersionMismatch = ''protocol version mismatch''"
| "error_to_string Internal = ''internal error''"

lemma from_code_code [simp]: "from_code (code e) = Some e"
  by (cases e) (simp_all add: from_code_def)

lemma from_code_SomeD: "from_code n = Some e \<Longrightarrow> code e = n"
  by (auto simp: from_code_def split: if_splits)

text \<open>The numeric codes on the wire and the error values correspond one to one: a
  number reads as an error exactly when it is the code of that error.\<close>

theorem error_code_roundtrip: "from_code n = Some e \<longleftrightarrow> code e = n"
  using from_code_SomeD by auto

end
