(* ===== verification/Frames.thy ===== *)
theory Frames
  imports Error_Codes
begin

text \<open>
  The binary frame of \<^verbatim>\<open>crates/common/src/protocol.rs\<close>, shared by TCP and UDP: frame
  types, the 18-byte header, whole frames, protocol-version checks, the payload length
  limits and the payload envelopes around the external rkyv archiver (which is a
  parameter: a pair of functions, with the law \<open>rkyv_codec\<close> as a hypothesis where a
  theorem needs it). The locale \<open>header_codec\<close> is the contract of a fixed-length header;
  the frame header here and the UDP chunk header of \<open>Udp_Chunks\<close> are its two providers.
\<close>

section \<open>Constants and data\<close>

definition PROTOCOL_VERSION :: u8 where
  "PROTOCOL_VERSION = 1"

definition FRAME_MAGIC :: bytes where
  "FRAME_MAGIC = [0x47, 0x34, 0x43, 0x31]"

definition FRAME_HEADER_LEN :: nat where
  "FRAME_HEADER_LEN = 18"

definition PAYLOAD_TIMESTAMP_LEN :: nat where
  "PAYLOAD_TIMESTAMP_LEN = 8"

definition MAX_PAYLOAD_LEN :: nat where
  "MAX_PAYLOAD_LEN = 65535"

datatype PayloadLenError = TooLarge nat nat

datatype PayloadEncodeError = PayloadTooLarge nat nat | SerializeFailed string

datatype PayloadDecodeError = Empty | DeserializeFailed string

datatype FrameType =
    DiscoveryQuery
  | DiscoveryAnnounce
  | HandshakeRequest
  | HandshakeInfo
  | QueryRequest
  | QueryResponse
  | DataPayload
  | Heartbeat
  | Disconnect
  | MetadataPayload
  | RuntimePayload

datatype FrameHeaderError =
    TooShort nat nat
  | BadMagic
  | VersionMismatch u8 u8
  | UnknownFrameType u8

datatype FrameDecodeError =
    ShortHeader nat nat
  | BadMagic
  | VersionMismatch u8 u8
  | UnknownFrameType u8
  | PayloadLengthMismatch nat nat

record FrameHeader =
  fh_version :: u8
  fh_frame_type :: FrameType
  fh_request_id :: u64
  fh_payload_len :: u32

section \<open>Frame types\<close>

primrec frame_type_code :: "FrameType \<Rightarrow> u8" where
  "frame_type_code DiscoveryQuery = 1"
| "frame_type_code DiscoveryAnnounce = 2"
| "frame_type_code HandshakeRequest = 3"
| "frame_type_code HandshakeInfo = 4"
| "frame_type_code QueryRequest = 5"
| "frame_type_code QueryResponse = 6"
| "frame_type_code DataPayload = 7"
| "frame_type_code Heartbeat = 8"
| "frame_type_code Disconnect = 9"
| "frame_type_code MetadataPayload = 10"
| "frame_type_code RuntimePayload = 11"

definition frame_type_try_from :: "u8 \<Rightarrow> FrameHeaderError + FrameType" where
  "frame_type_try_from v =
     (if v = 1 then Ok DiscoveryQuery
      else if v = 2 then Ok DiscoveryAnnounce
      else if v = 3 then Ok HandshakeRequest
      else if v = 4 then Ok HandshakeInfo
      else if v = 5 then Ok QueryRequest
      else if v = 6 then Ok QueryResponse
      else if v = 7 then Ok DataPayload
      else if v = 8 then Ok Heartbeat
      else if v = 9 then Ok Disconnect
      else if v = 10 then Ok MetadataPayload
      else if v = 11 then Ok RuntimePayload
      else Err (FrameHeaderError.UnknownFrameType v))"

section \<open>Headers and frames\<close>

definition frame_header_new :: "FrameType \<Rightarrow> u64 \<Rightarrow> u32 \<Rightarrow> FrameHeader" where
  "frame_header_new ft rid len =
     \<lparr>fh_version = PROTOCOL_VERSION, fh_frame_type = ft, fh_request_id = rid,
      fh_payload_len = len\<rparr>"

definition frame_header_encode :: "FrameHeader \<Rightarrow> bytes" where
  "frame_header_encode h =
     FRAME_MAGIC @ [fh_version h] @ [frame_type_code (fh_frame_type h)]
     @ u64_to_be_bytes (fh_request_id h) @ u32_to_be_bytes (fh_payload_len h)"

definition frame_header_decode :: "bytes \<Rightarrow> FrameHeaderError + FrameHeader" where
  "frame_header_decode input =
     (if length input < FRAME_HEADER_LEN
      then Err (TooShort (length input) FRAME_HEADER_LEN)
      else if slice 0 4 input \<noteq> FRAME_MAGIC then Err FrameHeaderError.BadMagic
      else if input ! 4 \<noteq> PROTOCOL_VERSION
      then Err (FrameHeaderError.VersionMismatch PROTOCOL_VERSION (input ! 4))
      else (case frame_type_try_from (input ! 5) of
          Err e \<Rightarrow> Err e
        | Ok ft \<Rightarrow> Ok \<lparr>fh_version = input ! 4, fh_frame_type = ft,
            fh_request_id = u64_from_be_bytes (slice 6 14 input),
            fh_payload_len = u32_from_be_bytes (slice 14 18 input)\<rparr>))"

fun frame_decode_error_from :: "FrameHeaderError \<Rightarrow> FrameDecodeError" where
  "frame_decode_error_from (TooShort got mn) = ShortHeader got mn"
| "frame_decode_error_from FrameHeaderError.BadMagic = FrameDecodeError.BadMagic"
| "frame_decode_error_from (FrameHeaderError.VersionMismatch expected got) =
     FrameDecodeError.VersionMismatch expected got"
| "frame_decode_error_from (FrameHeaderError.UnknownFrameType ft) =
     FrameDecodeError.UnknownFrameType ft"

definition encode_frame :: "FrameHeader \<Rightarrow> bytes \<Rightarrow> bytes" where
  "encode_frame header payload =
     frame_header_encode (header\<lparr>fh_payload_len := word_of_nat (length payload)\<rparr>) @ payload"

definition decode_frame :: "bytes \<Rightarrow> FrameDecodeError + (FrameHeader \<times> bytes)" where
  "decode_frame bs =
     and_then (map_err frame_decode_error_from (frame_header_decode bs)) (\<lambda>header.
       let payload = drop FRAME_HEADER_LEN bs; expected = unat (fh_payload_len header)
       in if length payload \<noteq> expected
          then Err (PayloadLengthMismatch expected (length payload))
          else Ok (header, payload))"

section \<open>Versions, lengths and payload envelopes\<close>

datatype VersionCheck = Matched | Mismatch u8 u8

definition check_version :: "u8 \<Rightarrow> VersionCheck" where
  "check_version v = (if v = PROTOCOL_VERSION then Matched else Mismatch PROTOCOL_VERSION v)"

definition validate_protocol_version :: "u8 \<Rightarrow> ErrorCode + unit" where
  "validate_protocol_version v =
     (case check_version v of Matched \<Rightarrow> Ok () | Mismatch _ _ \<Rightarrow> Err ProtocolVersionMismatch)"

definition payload_len_from_archived_len :: "nat \<Rightarrow> PayloadLenError + u16" where
  "payload_len_from_archived_len n =
     (if n > MAX_PAYLOAD_LEN then Err (TooLarge n MAX_PAYLOAD_LEN) else Ok (word_of_nat n))"

definition archived_len_from_payload_len :: "u16 \<Rightarrow> nat option" where
  "archived_len_from_payload_len n = Some (unat n)"

text \<open>
  The deprecated timestamp-prefixed payload; \<open>i64\<close> is carried as its 64-bit pattern.
  \<open>checked_add\<close> fails when the sum leaves the 64-bit \<open>usize\<close>.
\<close>

definition encode_payload :: "u64 \<Rightarrow> bytes \<Rightarrow> PayloadLenError + bytes" where
  "encode_payload timestamp_ms archived =
     (let payload_len = PAYLOAD_TIMESTAMP_LEN + length archived in
      if payload_len \<ge> 2 ^ 64 then Err (TooLarge (2 ^ 64 - 1) MAX_PAYLOAD_LEN)
      else if payload_len > MAX_PAYLOAD_LEN then Err (TooLarge payload_len MAX_PAYLOAD_LEN)
      else Ok (u64_to_be_bytes timestamp_ms @ archived))"

definition decode_payload :: "bytes \<Rightarrow> (u64 \<times> bytes) option" where
  "decode_payload payload =
     (if length payload < PAYLOAD_TIMESTAMP_LEN then None
      else Some (u64_from_be_bytes (take PAYLOAD_TIMESTAMP_LEN payload),
                 drop PAYLOAD_TIMESTAMP_LEN payload))"

fun payload_encode_error_from :: "PayloadLenError \<Rightarrow> PayloadEncodeError" where
  "payload_encode_error_from (TooLarge len mx) = PayloadTooLarge len mx"

definition encode_rkyv_payload ::
    "('a \<Rightarrow> string + bytes) \<Rightarrow> 'a \<Rightarrow> PayloadEncodeError + bytes" where
  "encode_rkyv_payload to_bytes v =
     and_then (map_err SerializeFailed (to_bytes v)) (\<lambda>bs.
       and_then (map_err payload_encode_error_from (payload_len_from_archived_len (length bs)))
         (\<lambda>_. Ok bs))"

definition decode_rkyv_payload ::
    "(bytes \<Rightarrow> string + 'a) \<Rightarrow> bytes \<Rightarrow> PayloadDecodeError + 'a" where
  "decode_rkyv_payload from_bytes bs =
     (if bs = [] then Err Empty else map_err DeserializeFailed (from_bytes bs))"

text \<open>What rkyv documents of \<open>to_bytes\<close> and \<open>from_bytes\<close>: an archive is not empty and
  deserialises to the value it was made from.\<close>

definition rkyv_codec :: "('a \<Rightarrow> string + bytes) \<Rightarrow> (bytes \<Rightarrow> string + 'a) \<Rightarrow> bool" where
  "rkyv_codec to_bytes from_bytes \<longleftrightarrow>
     (\<forall>v bs. to_bytes v = Ok bs \<longrightarrow> bs \<noteq> [] \<and> from_bytes bs = Ok v)"

lemmas frame_defs [wire_defs] =
  PROTOCOL_VERSION_def FRAME_MAGIC_def FRAME_HEADER_LEN_def

section \<open>The contract of a fixed-length header\<close>

text \<open>
  \<open>encode\<close> writes exactly \<open>hlen\<close> bytes; \<open>decode\<close> accepts a byte string exactly when it
  is an encoded header followed by bytes that fit it. Everything the frame and datagram
  proofs use of a header follows from this.
\<close>

locale header_codec =
  fixes hlen :: nat
    and encode :: "'h \<Rightarrow> bytes"
    and decode :: "bytes \<Rightarrow> 'e + 'h"
    and fits :: "'h \<Rightarrow> bytes \<Rightarrow> bool"
  assumes length_encode: "length (encode h) = hlen"
    and decode_encode: "fits h rest \<Longrightarrow> decode (encode h @ rest) = Ok h"
    and decode_OkD: "decode bs = Ok h \<Longrightarrow> take hlen bs = encode h \<and> fits h (drop hlen bs)"
begin

lemma decode_Ok_iff: "decode bs = Ok h \<longleftrightarrow> (\<exists>rest. bs = encode h @ rest \<and> fits h rest)"
  by (metis append_take_drop_id decode_OkD decode_encode)

lemma body_of: "drop hlen (encode h @ rest) = rest"
  by (simp add: length_encode)

lemma decode_unique: "decode bs = Ok h \<Longrightarrow> decode bs' = Ok h \<Longrightarrow> take hlen bs = take hlen bs'"
  using decode_OkD by metis

lemma decode_length: "decode bs = Ok h \<Longrightarrow> hlen \<le> length bs"
  by (metis decode_OkD length_encode length_take min.cobounded1)

end

section \<open>The frame header meets the contract\<close>

lemma frame_type_try_from_code [simp]: "frame_type_try_from (frame_type_code t) = Ok t"
  by (cases t) (simp_all add: frame_type_try_from_def)

lemma frame_type_try_from_OkD: "frame_type_try_from v = Ok t \<Longrightarrow> frame_type_code t = v"
  by (auto simp: frame_type_try_from_def split: if_splits)

lemma length_frame_header_encode [simp]: "length (frame_header_encode h) = FRAME_HEADER_LEN"
  by (simp add: frame_header_encode_def frame_defs)

lemma frame_header_decode_encode:
  assumes "fh_version h = PROTOCOL_VERSION"
  shows "frame_header_decode (frame_header_encode h @ rest) = Ok h"
proof -
  let ?bs = "frame_header_encode h @ rest"
  let ?pre = "FRAME_MAGIC @ [fh_version h] @ [frame_type_code (fh_frame_type h)]"
  have magic: "slice 0 4 ?bs = FRAME_MAGIC" and four: "?bs ! 4 = PROTOCOL_VERSION"
    and five: "?bs ! 5 = frame_type_code (fh_frame_type h)"
    using assms by (simp_all add: frame_header_encode_def FRAME_MAGIC_def slice_def)
  have rid: "u64_from_be_bytes (slice 6 14 ?bs) = fh_request_id h"
    using f64.read_field [of ?pre 6 "fh_request_id h" "u32_to_be_bytes (fh_payload_len h) @ rest"]
    by (simp add: frame_header_encode_def FRAME_MAGIC_def)
  have len: "u32_from_be_bytes (slice 14 18 ?bs) = fh_payload_len h"
    using f32.read_field [of "?pre @ u64_to_be_bytes (fh_request_id h)" 14 "fh_payload_len h" rest]
    by (simp add: frame_header_encode_def FRAME_MAGIC_def)
  have "FRAME_HEADER_LEN \<le> length ?bs"
    by simp
  with magic four five rid len assms show ?thesis
    by (simp add: frame_header_decode_def)
qed

lemma frame_header_decode_OkD:
  assumes "frame_header_decode bs = Ok h"
  shows "take FRAME_HEADER_LEN bs = frame_header_encode h \<and> fh_version h = PROTOCOL_VERSION"
proof -
  from assms obtain t where len: "18 \<le> length bs"
    and magic: "slice 0 4 bs = FRAME_MAGIC" and ver: "bs ! 4 = PROTOCOL_VERSION"
    and t: "frame_type_try_from (bs ! 5) = Ok t"
    and h: "h = \<lparr>fh_version = bs ! 4, fh_frame_type = t,
        fh_request_id = u64_from_be_bytes (slice 6 14 bs),
        fh_payload_len = u32_from_be_bytes (slice 14 18 bs)\<rparr>"
    by (auto simp: frame_header_decode_def FRAME_HEADER_LEN_def split: if_splits sum.splits)
  have "take 18 bs = slice 0 4 bs @ slice 4 5 bs @ slice 5 6 bs @ slice 6 14 bs @ slice 14 18 bs"
    by (simp add: take_slice slice_split [of 0 4 18] slice_split [of 4 5 18]
        slice_split [of 5 6 18] slice_split [of 6 14 18])
  also have "\<dots> = frame_header_encode h"
    using len by (simp add: h frame_header_encode_def magic slice_single f64.to_from_bytes
        f32.to_from_bytes frame_type_try_from_OkD [OF t])
  finally show ?thesis by (simp add: h ver FRAME_HEADER_LEN_def)
qed

interpretation frame_hdr: header_codec FRAME_HEADER_LEN frame_header_encode frame_header_decode
    "\<lambda>h rest. fh_version h = PROTOCOL_VERSION"
  by unfold_locales (simp_all add: frame_header_decode_encode frame_header_decode_OkD)

section \<open>Whole frames\<close>

lemma frame_header_fields [simp]:
  "fh_version (frame_header_new t i n) = PROTOCOL_VERSION"
  "fh_frame_type (frame_header_new t i n) = t"
  "fh_request_id (frame_header_new t i n) = i"
  "fh_payload_len (frame_header_new t i n) = n"
  by (simp_all add: frame_header_new_def)

lemma frame_header_new_update [simp]:
  "(frame_header_new t i n)\<lparr>fh_payload_len := m\<rparr> = frame_header_new t i m"
  by (simp add: frame_header_new_def)

lemma length_encode_frame [simp]: "length (encode_frame h p) = FRAME_HEADER_LEN + length p"
  by (simp add: encode_frame_def)

lemma unat_word_of_length: "n < 2 ^ LENGTH('a::len) \<Longrightarrow> unat (word_of_nat n :: 'a word) = n"
  by (simp add: unat_of_nat take_bit_nat_eq_self)

lemma decode_frame_Ok_iff:
  "decode_frame bs = Ok (h, p) \<longleftrightarrow>
     bs = frame_header_encode h @ p \<and> fh_version h = PROTOCOL_VERSION
     \<and> unat (fh_payload_len h) = length p" (is "?l = ?r")
proof
  assume ?l
  then show ?r
    by (auto simp: decode_frame_def result_simps Let_def frame_hdr.decode_Ok_iff
        frame_hdr.body_of split: if_splits)
next
  assume ?r
  then show ?l
    by (simp add: decode_frame_def frame_header_decode_encode)
qed

lemma decode_encode_frame:
  assumes "fh_version h = PROTOCOL_VERSION" and "length p < 2 ^ 32"
  shows "decode_frame (encode_frame h p) = Ok (h\<lparr>fh_payload_len := word_of_nat (length p)\<rparr>, p)"
  using assms by (simp add: decode_frame_Ok_iff encode_frame_def unat_word_of_length)

lemma decode_frame_length:
  "decode_frame bs = Ok (h, p) \<Longrightarrow> length bs = FRAME_HEADER_LEN + length p"
  by (simp add: decode_frame_Ok_iff)

lemma length_field_id:
  "unat (fh_payload_len h) = length p \<Longrightarrow> h\<lparr>fh_payload_len := word_of_nat (length p)\<rparr> = h"
  by (drule sym) simp

lemma encode_decode_frame: "decode_frame bs = Ok (h, p) \<Longrightarrow> encode_frame h p = bs"
proof -
  assume "decode_frame bs = Ok (h, p)"
  then have bs: "bs = frame_header_encode h @ p" and len: "length p = unat (fh_payload_len h)"
    by (simp_all add: decode_frame_Ok_iff)
  then show ?thesis by (simp add: encode_frame_def bs length_field_id)
qed

section \<open>Payload envelopes\<close>

lemma encode_rkyv_payload_Ok_iff:
  "encode_rkyv_payload tb v = Ok bs \<longleftrightarrow> tb v = Ok bs \<and> length bs \<le> MAX_PAYLOAD_LEN"
  by (auto simp: encode_rkyv_payload_def result_simps payload_len_from_archived_len_def)

lemma decode_encode_rkyv_payload:
  assumes "rkyv_codec tb fb" and "encode_rkyv_payload tb v = Ok bs"
  shows "decode_rkyv_payload fb bs = Ok v"
  using assms by (auto simp: rkyv_codec_def encode_rkyv_payload_Ok_iff decode_rkyv_payload_def)

lemma decode_encode_payload: "encode_payload ts a = Ok p \<Longrightarrow> decode_payload p = Some (ts, a)"
  by (auto simp: encode_payload_def decode_payload_def PAYLOAD_TIMESTAMP_LEN_def Let_def
      split: if_splits)

section \<open>Properties\<close>

text \<open>C28: a byte string decodes to a header and a payload exactly when it is the encoding of
  the two under the current protocol version with the length field naming the payload.
  So encoding and decoding are inverse, a frame has one reading only, and truncated,
  extended or concatenated frames are refused.\<close>

theorem frame_roundtrip:
  "decode_frame bs = Ok (h, p) \<longleftrightarrow>
     fh_version h = PROTOCOL_VERSION \<and> unat (fh_payload_len h) = length p
     \<and> bs = encode_frame h p"
  using encode_decode_frame [of bs h p] by (auto simp: decode_frame_Ok_iff encode_frame_def length_field_id)

text \<open>A payload that \<open>encode_rkyv_payload\<close> accepts fits the 16-bit limit and decodes to
  the value it was made from, given the documented round trip of the archiver.\<close>

theorem rkyv_payload_roundtrip:
  assumes "rkyv_codec to_bytes from_bytes" and "encode_rkyv_payload to_bytes v = Ok bs"
  shows "decode_rkyv_payload from_bytes bs = Ok v \<and> length bs \<le> MAX_PAYLOAD_LEN"
  using assms decode_encode_rkyv_payload by (simp add: encode_rkyv_payload_Ok_iff)

theorem rkyv_payload_roundtrip_witness:
  "rkyv_codec (\<lambda>v. Ok (1 # v)) (\<lambda>bs. Ok (tl bs))
   \<and> encode_rkyv_payload (\<lambda>v. Ok (1 # v)) [7, 9] = Ok [1, 7, 9]
   \<and> decode_rkyv_payload (\<lambda>bs. Ok (tl bs)) [1, 7, 9] = Ok [7, 9]"
proof -
  have r: "rkyv_codec (\<lambda>v. Ok (1 # v)) (\<lambda>bs. Ok (tl bs))"
    by (simp add: rkyv_codec_def)
  have e: "encode_rkyv_payload (\<lambda>v. Ok (1 # v)) [7, 9] = Ok [1, 7, 9]"
    by (simp add: encode_rkyv_payload_Ok_iff MAX_PAYLOAD_LEN_def)
  from rkyv_payload_roundtrip [OF r e] r e show ?thesis by simp
qed

end
