(* ===== verification/Udp_Chunks.thy ===== *)
theory Udp_Chunks
  imports Frames
begin

text \<open>
  The UDP chunk layer of \<^verbatim>\<open>crates/common/src/udp.rs\<close>: the 32-byte chunk header, splitting
  a frame into datagrams, the single-datagram fast paths and the reassembler. The CRC-32
  of the crate \<open>crc32fast\<close> is external: its hasher is the parameter \<open>crc\<close>, and the one
  law of it that is used, that feeding two pieces is feeding their concatenation, is the
  hypothesis \<open>crc_streaming\<close>. Instants are numbers of the monotonic clock.
\<close>

section \<open>The external checksum\<close>

record 'h crc32 =
  crc_new :: 'h
  crc_update :: "'h \<Rightarrow> bytes \<Rightarrow> 'h"
  crc_finalize :: "'h \<Rightarrow> u32"

definition checksum :: "'h crc32 \<Rightarrow> bytes \<Rightarrow> u32" where
  "checksum c payload = crc_finalize c (crc_update c (crc_new c) payload)"

definition crc_streaming :: "'h crc32 \<Rightarrow> bool" where
  "crc_streaming c \<longleftrightarrow> (\<forall>h a b. crc_update c (crc_update c h a) b = crc_update c h (a @ b))"

section \<open>The chunk header\<close>

definition UDP_CHUNK_MAGIC :: bytes where
  "UDP_CHUNK_MAGIC = [0x47, 0x34, 0x55, 0x31]"

definition UDP_CHUNK_HEADER_LEN :: nat where
  "UDP_CHUNK_HEADER_LEN = 32"

definition UDP_FALLBACK_MTU :: nat where
  "UDP_FALLBACK_MTU = 1200"

definition UDP_MIN_PAYLOAD :: nat where
  "UDP_MIN_PAYLOAD = 256"

record UdpChunkHeader =
  uh_version :: u8
  uh_frame_type :: FrameType
  uh_request_id :: u64
  uh_frame_len :: u32
  uh_chunk_id :: u16
  uh_total_chunks :: u16
  uh_payload_len :: u16
  uh_prev_checksum :: u32
  uh_next_checksum :: u32

datatype UdpChunkError =
    EmptyFrame
  | PayloadTooSmall nat nat
  | PayloadTooLarge nat nat
  | TooManyChunks nat
  | FrameTooLarge nat
  | ShortDatagram nat nat
  | BadMagic
  | VersionMismatch u8 u8
  | UnknownFrameType u8
  | InvalidChunkLayout
  | PayloadLengthMismatch nat nat
  | MetadataMismatch
  | ChecksumMismatch
  | Frame FrameDecodeError

definition udp_header_encode :: "UdpChunkHeader \<Rightarrow> bytes" where
  "udp_header_encode h =
     UDP_CHUNK_MAGIC @ [uh_version h] @ [frame_type_code (uh_frame_type h)]
     @ u64_to_be_bytes (uh_request_id h) @ u32_to_be_bytes (uh_frame_len h)
     @ u16_to_be_bytes (uh_chunk_id h) @ u16_to_be_bytes (uh_total_chunks h)
     @ u16_to_be_bytes (uh_payload_len h) @ u32_to_be_bytes (uh_prev_checksum h)
     @ u32_to_be_bytes (uh_next_checksum h)"

definition udp_header_decode :: "bytes \<Rightarrow> UdpChunkError + UdpChunkHeader" where
  "udp_header_decode input =
     (if length input < UDP_CHUNK_HEADER_LEN
      then Err (ShortDatagram (length input) UDP_CHUNK_HEADER_LEN)
      else if slice 0 4 input \<noteq> UDP_CHUNK_MAGIC then Err UdpChunkError.BadMagic
      else let version = input ! 4 in
      if version \<noteq> PROTOCOL_VERSION
      then Err (UdpChunkError.VersionMismatch PROTOCOL_VERSION version)
      else and_then (map_err (\<lambda>_. UdpChunkError.UnknownFrameType (input ! 5))
             (frame_type_try_from (input ! 5))) (\<lambda>frame_type.
        let request_id = u64_from_be_bytes (slice 6 14 input);
            frame_len = u32_from_be_bytes (slice 14 18 input);
            chunk_id = u16_from_be_bytes (slice 18 20 input);
            total_chunks = u16_from_be_bytes (slice 20 22 input);
            payload_len = u16_from_be_bytes (slice 22 24 input);
            prev_checksum = u32_from_be_bytes (slice 24 28 input);
            next_checksum = u32_from_be_bytes (slice 28 32 input)
        in if total_chunks = 0 then Err InvalidChunkLayout
           else if chunk_id \<ge> total_chunks then Err InvalidChunkLayout
           else if length input \<noteq> UDP_CHUNK_HEADER_LEN + unat payload_len
           then Err (UdpChunkError.PayloadLengthMismatch (unat payload_len)
                  (length input - UDP_CHUNK_HEADER_LEN))
           else Ok \<lparr>uh_version = version, uh_frame_type = frame_type,
             uh_request_id = request_id, uh_frame_len = frame_len, uh_chunk_id = chunk_id,
             uh_total_chunks = total_chunks, uh_payload_len = payload_len,
             uh_prev_checksum = prev_checksum, uh_next_checksum = next_checksum\<rparr>))"

section \<open>Encoding\<close>

text \<open>\<open>u32::try_from\<close> of a length.\<close>

definition u32_try_from :: "nat \<Rightarrow> u32 option" where
  "u32_try_from n = (if n < 2 ^ 32 then Some (word_of_nat n) else None)"

definition prev_index :: "nat \<Rightarrow> nat \<Rightarrow> nat" where
  "prev_index tot idx = (if idx = 0 then tot - 1 else idx - 1)"

definition next_index :: "nat \<Rightarrow> nat \<Rightarrow> nat" where
  "next_index tot idx = (if idx + 1 = tot then 0 else idx + 1)"

definition chunk_header ::
    "FrameHeader \<Rightarrow> u32 \<Rightarrow> u32 list \<Rightarrow> bytes list \<Rightarrow> nat \<Rightarrow> UdpChunkHeader" where
  "chunk_header fh frame_len checksums chunks idx =
     (let tot = length chunks in
      \<lparr>uh_version = PROTOCOL_VERSION, uh_frame_type = fh_frame_type fh,
       uh_request_id = fh_request_id fh, uh_frame_len = frame_len,
       uh_chunk_id = word_of_nat idx, uh_total_chunks = word_of_nat tot,
       uh_payload_len = word_of_nat (length (chunks ! idx)),
       uh_prev_checksum = checksums ! prev_index tot idx,
       uh_next_checksum = checksums ! next_index tot idx\<rparr>)"

definition encode_udp_chunks ::
    "'h crc32 \<Rightarrow> bytes \<Rightarrow> nat \<Rightarrow> UdpChunkError + bytes list" where
  "encode_udp_chunks c frame max_payload =
     (if frame = [] then Err EmptyFrame
      else if max_payload < UDP_MIN_PAYLOAD
      then Err (PayloadTooSmall max_payload UDP_MIN_PAYLOAD)
      else and_then (map_err Frame (decode_frame frame)) (\<lambda>(frame_header, _).
        case u32_try_from (length frame) of
          None \<Rightarrow> Err (FrameTooLarge (length frame))
        | Some frame_len \<Rightarrow>
            if div_ceil (length frame) max_payload > 65535
            then Err (TooManyChunks (div_ceil (length frame) max_payload))
            else let chunks = chunks_of max_payload frame;
                     checksums = map (checksum c) chunks
                 in Ok (map (\<lambda>idx. udp_header_encode
                           (chunk_header frame_header frame_len checksums chunks idx)
                         @ chunks ! idx) [0 ..< length chunks])))"

definition single_header :: "FrameType \<Rightarrow> u64 \<Rightarrow> nat \<Rightarrow> u32 \<Rightarrow> UdpChunkHeader" where
  "single_header ft rid frame_len sum32 =
     \<lparr>uh_version = PROTOCOL_VERSION, uh_frame_type = ft, uh_request_id = rid,
      uh_frame_len = word_of_nat frame_len, uh_chunk_id = 0, uh_total_chunks = 1,
      uh_payload_len = word_of_nat frame_len, uh_prev_checksum = sum32, uh_next_checksum = sum32\<rparr>"

definition encode_udp_single_chunk :: "'h crc32 \<Rightarrow> bytes \<Rightarrow> UdpChunkError + bytes" where
  "encode_udp_single_chunk c frame =
     (if frame = [] then Err EmptyFrame
      else if length frame > 65535 then Err (UdpChunkError.PayloadTooLarge (length frame) 65535)
      else and_then (map_err Frame (decode_frame frame)) (\<lambda>(frame_header, _).
        case u32_try_from (length frame) of
          None \<Rightarrow> Err (FrameTooLarge (length frame))
        | Some frame_len \<Rightarrow>
            Ok (udp_header_encode (single_header (fh_frame_type frame_header)
                  (fh_request_id frame_header) (length frame) (checksum c frame)) @ frame)))"

definition encode_udp_single_chunk_from_parts ::
    "'h crc32 \<Rightarrow> FrameType \<Rightarrow> u64 \<Rightarrow> bytes \<Rightarrow> UdpChunkError + bytes" where
  "encode_udp_single_chunk_from_parts c frame_type request_id payload =
     (case u32_try_from (length payload) of
        None \<Rightarrow> Err (FrameTooLarge (length payload + FRAME_HEADER_LEN))
      | Some payload_len \<Rightarrow>
          let frame_len = FRAME_HEADER_LEN + length payload in
          if frame_len > 65535 then Err (UdpChunkError.PayloadTooLarge frame_len 65535)
          else let frame_header =
                 frame_header_encode (frame_header_new frame_type request_id payload_len);
               sum32 = crc_finalize c
                 (crc_update c (crc_update c (crc_new c) frame_header) payload)
          in Ok (udp_header_encode (single_header frame_type request_id frame_len sum32)
                 @ frame_header @ payload))"

section \<open>Decoding\<close>

definition decode_udp_single_chunk_ref ::
    "'h crc32 \<Rightarrow> bytes \<Rightarrow> UdpChunkError + bytes option" where
  "decode_udp_single_chunk_ref c datagram =
     and_then (udp_header_decode datagram) (\<lambda>header.
       if uh_total_chunks header \<noteq> 1 then Ok None
       else let frame = drop UDP_CHUNK_HEADER_LEN datagram; sum32 = checksum c frame in
         if uh_prev_checksum header \<noteq> sum32 \<or> uh_next_checksum header \<noteq> sum32
         then Err ChecksumMismatch
         else and_then (map_err Frame (decode_frame frame)) (\<lambda>(decoded, _).
           if fh_frame_type decoded \<noteq> uh_frame_type header
              \<or> fh_request_id decoded \<noteq> uh_request_id header
           then Err MetadataMismatch
           else Ok (Some frame)))"

definition decode_udp_single_chunk :: "'h crc32 \<Rightarrow> bytes \<Rightarrow> UdpChunkError + bytes option" where
  "decode_udp_single_chunk c datagram = decode_udp_single_chunk_ref c datagram"

record ChunkSlot =
  cs_payload :: bytes
  cs_prev_checksum :: u32
  cs_next_checksum :: u32

record ChunkGroup =
  cg_frame_type :: FrameType
  cg_request_id :: u64
  cg_frame_len :: u32
  cg_total_chunks :: u16
  cg_chunks :: "ChunkSlot option list"

record UdpFrameReassembler =
  ra_deadline :: instant
  ra_groups :: "u64 \<rightharpoonup> ChunkGroup"

definition chunk_group_new :: "FrameType \<Rightarrow> u64 \<Rightarrow> u32 \<Rightarrow> u16 \<Rightarrow> ChunkGroup" where
  "chunk_group_new ft rid frame_len tot =
     \<lparr>cg_frame_type = ft, cg_request_id = rid, cg_frame_len = frame_len,
      cg_total_chunks = tot, cg_chunks = replicate (unat tot) None\<rparr>"

definition group_is_complete :: "ChunkGroup \<Rightarrow> bool" where
  "group_is_complete g = list_all (\<lambda>s. s \<noteq> None) (cg_chunks g)"

text \<open>\<open>verify_all\<close> runs on complete groups only, so \<open>expect(''complete'')\<close> is \<open>the\<close>.\<close>

definition group_verify_all :: "'h crc32 \<Rightarrow> ChunkGroup \<Rightarrow> UdpChunkError + unit" where
  "group_verify_all c g =
     (let tot = length (cg_chunks g) in
      if list_all (\<lambda>idx.
           checksum c (cs_payload (the (cg_chunks g ! prev_index tot idx))) =
             cs_prev_checksum (the (cg_chunks g ! idx))
           \<and> checksum c (cs_payload (the (cg_chunks g ! next_index tot idx))) =
             cs_next_checksum (the (cg_chunks g ! idx))) [0 ..< tot]
      then Ok () else Err ChecksumMismatch)"

definition group_frame :: "ChunkGroup \<Rightarrow> bytes" where
  "group_frame g =
     take (unat (cg_frame_len g))
       (concat (map (\<lambda>s. case s of None \<Rightarrow> [] | Some slot \<Rightarrow> cs_payload slot) (cg_chunks g)))"

definition group_insert ::
    "'h crc32 \<Rightarrow> ChunkGroup \<Rightarrow> UdpChunkHeader \<Rightarrow> bytes
      \<Rightarrow> ChunkGroup \<times> (UdpChunkError + bytes option)" where
  "group_insert c g header payload =
     (if uh_frame_type header \<noteq> cg_frame_type g \<or> uh_request_id header \<noteq> cg_request_id g
         \<or> uh_frame_len header \<noteq> cg_frame_len g \<or> uh_total_chunks header \<noteq> cg_total_chunks g
      then (g, Err MetadataMismatch)
      else let g = g\<lparr>cg_chunks := (cg_chunks g)[unat (uh_chunk_id header) := Some
             \<lparr>cs_payload = payload, cs_prev_checksum = uh_prev_checksum header,
              cs_next_checksum = uh_next_checksum header\<rparr>]\<rparr>
      in if \<not> group_is_complete g then (g, Ok None)
         else (g, and_then (group_verify_all c g) (\<lambda>_.
           let frame = group_frame g in
           and_then (map_err Frame (decode_frame frame)) (\<lambda>(decoded, _).
             if fh_frame_type decoded \<noteq> cg_frame_type g \<or> fh_request_id decoded \<noteq> cg_request_id g
             then Err MetadataMismatch
             else Ok (Some frame)))))"

definition reassembler_new :: "instant \<Rightarrow> nat \<Rightarrow> UdpFrameReassembler" where
  "reassembler_new now timeout = \<lparr>ra_deadline = now + timeout, ra_groups = Map.empty\<rparr>"

definition reassembler_is_expired :: "instant \<Rightarrow> UdpFrameReassembler \<Rightarrow> bool" where
  "reassembler_is_expired now r \<longleftrightarrow> now \<ge> ra_deadline r"

definition reassembler_insert ::
    "'h crc32 \<Rightarrow> UdpFrameReassembler \<Rightarrow> bytes
      \<Rightarrow> UdpFrameReassembler \<times> (UdpChunkError + bytes option)" where
  "reassembler_insert c r datagram =
     (case udp_header_decode datagram of
        Err e \<Rightarrow> (r, Err e)
      | Ok header \<Rightarrow>
          let payload = drop UDP_CHUNK_HEADER_LEN datagram;
              group = (case ra_groups r (uh_request_id header) of
                  Some g \<Rightarrow> g
                | None \<Rightarrow> chunk_group_new (uh_frame_type header) (uh_request_id header)
                    (uh_frame_len header) (uh_total_chunks header));
              (group', result) = group_insert c group header payload
          in (r\<lparr>ra_groups := (ra_groups r)(uh_request_id header \<mapsto> group')\<rparr>, result))"

lemmas udp_defs [wire_defs] =
  UDP_CHUNK_MAGIC_def UDP_CHUNK_HEADER_LEN_def UDP_MIN_PAYLOAD_def UDP_FALLBACK_MTU_def

section \<open>The chunk header meets the header contract\<close>

definition chunk_fits :: "UdpChunkHeader \<Rightarrow> bytes \<Rightarrow> bool" where
  "chunk_fits h rest \<longleftrightarrow>
     uh_version h = PROTOCOL_VERSION \<and> uh_total_chunks h \<noteq> 0
     \<and> uh_chunk_id h < uh_total_chunks h \<and> length rest = unat (uh_payload_len h)"

lemma length_udp_header_encode [simp]:
  "length (udp_header_encode h) = UDP_CHUNK_HEADER_LEN"
  by (simp add: udp_header_encode_def udp_defs)

lemma udp_header_decode_encode:
  assumes "chunk_fits h rest"
  shows "udp_header_decode (udp_header_encode h @ rest) = Ok h"
proof -
  let ?bs = "udp_header_encode h @ rest"
  let ?p6 = "UDP_CHUNK_MAGIC @ [uh_version h] @ [frame_type_code (uh_frame_type h)]"
  let ?p14 = "?p6 @ u64_to_be_bytes (uh_request_id h)"
  let ?p18 = "?p14 @ u32_to_be_bytes (uh_frame_len h)"
  let ?p20 = "?p18 @ u16_to_be_bytes (uh_chunk_id h)"
  let ?p22 = "?p20 @ u16_to_be_bytes (uh_total_chunks h)"
  let ?p24 = "?p22 @ u16_to_be_bytes (uh_payload_len h)"
  let ?p28 = "?p24 @ u32_to_be_bytes (uh_prev_checksum h)"
  have magic: "slice 0 4 ?bs = UDP_CHUNK_MAGIC" and four: "?bs ! 4 = uh_version h"
    and five: "?bs ! 5 = frame_type_code (uh_frame_type h)"
    by (simp_all add: udp_header_encode_def UDP_CHUNK_MAGIC_def slice_def)
  have "u64_from_be_bytes (slice 6 14 ?bs) = uh_request_id h"
    using f64.read_field [of ?p6 6 "uh_request_id h"]
    by (simp add: udp_header_encode_def UDP_CHUNK_MAGIC_def)
  moreover have "u32_from_be_bytes (slice 14 18 ?bs) = uh_frame_len h"
    using f32.read_field [of ?p14 14 "uh_frame_len h"]
    by (simp add: udp_header_encode_def UDP_CHUNK_MAGIC_def)
  moreover have "u16_from_be_bytes (slice 18 20 ?bs) = uh_chunk_id h"
    using f16.read_field [of ?p18 18 "uh_chunk_id h"]
    by (simp add: udp_header_encode_def UDP_CHUNK_MAGIC_def)
  moreover have "u16_from_be_bytes (slice 20 22 ?bs) = uh_total_chunks h"
    using f16.read_field [of ?p20 20 "uh_total_chunks h"]
    by (simp add: udp_header_encode_def UDP_CHUNK_MAGIC_def)
  moreover have "u16_from_be_bytes (slice 22 24 ?bs) = uh_payload_len h"
    using f16.read_field [of ?p22 22 "uh_payload_len h"]
    by (simp add: udp_header_encode_def UDP_CHUNK_MAGIC_def)
  moreover have "u32_from_be_bytes (slice 24 28 ?bs) = uh_prev_checksum h"
    using f32.read_field [of ?p24 24 "uh_prev_checksum h"]
    by (simp add: udp_header_encode_def UDP_CHUNK_MAGIC_def)
  moreover have "u32_from_be_bytes (slice 28 32 ?bs) = uh_next_checksum h"
    using f32.read_field [of ?p28 28 "uh_next_checksum h"]
    by (simp add: udp_header_encode_def UDP_CHUNK_MAGIC_def)
  ultimately show ?thesis
    using assms magic four five
    by (simp add: udp_header_decode_def chunk_fits_def UDP_CHUNK_HEADER_LEN_def Let_def not_le)
qed

lemma udp_header_decode_OkD:
  assumes "udp_header_decode bs = Ok h"
  shows "take UDP_CHUNK_HEADER_LEN bs = udp_header_encode h
    \<and> chunk_fits h (drop UDP_CHUNK_HEADER_LEN bs)"
proof -
  from assms obtain t where len: "32 \<le> length bs"
    and magic: "slice 0 4 bs = UDP_CHUNK_MAGIC" and ver: "bs ! 4 = PROTOCOL_VERSION"
    and t: "frame_type_try_from (bs ! 5) = Ok t"
    and fits: "chunk_fits h (drop 32 bs)"
    and h: "h = \<lparr>uh_version = bs ! 4, uh_frame_type = t,
        uh_request_id = u64_from_be_bytes (slice 6 14 bs),
        uh_frame_len = u32_from_be_bytes (slice 14 18 bs),
        uh_chunk_id = u16_from_be_bytes (slice 18 20 bs),
        uh_total_chunks = u16_from_be_bytes (slice 20 22 bs),
        uh_payload_len = u16_from_be_bytes (slice 22 24 bs),
        uh_prev_checksum = u32_from_be_bytes (slice 24 28 bs),
        uh_next_checksum = u32_from_be_bytes (slice 28 32 bs)\<rparr>"
    by (auto simp: udp_header_decode_def UDP_CHUNK_HEADER_LEN_def chunk_fits_def result_simps
        Let_def not_le split: if_splits)
  have "take 32 bs = slice 0 4 bs @ slice 4 5 bs @ slice 5 6 bs @ slice 6 14 bs @ slice 14 18 bs
      @ slice 18 20 bs @ slice 20 22 bs @ slice 22 24 bs @ slice 24 28 bs @ slice 28 32 bs"
    by (simp add: take_slice slice_split [of 0 4 32] slice_split [of 4 5 32]
        slice_split [of 5 6 32] slice_split [of 6 14 32] slice_split [of 14 18 32]
        slice_split [of 18 20 32] slice_split [of 20 22 32] slice_split [of 22 24 32]
        slice_split [of 24 28 32])
  also have "\<dots> = udp_header_encode h"
    using len by (simp add: h udp_header_encode_def magic slice_single f64.to_from_bytes
        f32.to_from_bytes f16.to_from_bytes frame_type_try_from_OkD [OF t])
  finally show ?thesis using fits by (simp add: UDP_CHUNK_HEADER_LEN_def)
qed

interpretation chunk_hdr: header_codec UDP_CHUNK_HEADER_LEN udp_header_encode udp_header_decode
    chunk_fits
  by unfold_locales (simp_all add: udp_header_decode_encode udp_header_decode_OkD)

section \<open>The single-datagram paths\<close>

lemma single_header_fits:
  "length frame \<le> 65535 \<Longrightarrow> chunk_fits (single_header ft rid (length frame) s) frame"
  by (simp add: chunk_fits_def single_header_def unat_word_of_length)

lemma single_header_fields [simp]:
  "uh_frame_type (single_header ft rid n s) = ft"
  "uh_request_id (single_header ft rid n s) = rid"
  "uh_total_chunks (single_header ft rid n s) = 1"
  "uh_prev_checksum (single_header ft rid n s) = s"
  "uh_next_checksum (single_header ft rid n s) = s"
  by (simp_all add: single_header_def)

lemma encode_single_Ok:
  assumes "decode_frame frame = Ok (fh, p)" and "length frame \<le> 65535"
  shows "encode_udp_single_chunk c frame = Ok (udp_header_encode
    (single_header (fh_frame_type fh) (fh_request_id fh) (length frame) (checksum c frame)) @ frame)"
proof -
  have "frame \<noteq> []"
    using decode_frame_length [OF assms(1)] by (auto simp: FRAME_HEADER_LEN_def)
  with assms show ?thesis by (simp add: encode_udp_single_chunk_def u32_try_from_def)
qed

lemma encode_single_OkD:
  assumes "encode_udp_single_chunk c frame = Ok d"
  obtains fh p where "decode_frame frame = Ok (fh, p)" "length frame \<le> 65535"
    "d = udp_header_encode
      (single_header (fh_frame_type fh) (fh_request_id fh) (length frame) (checksum c frame)) @ frame"
  using assms that
  by (auto simp: encode_udp_single_chunk_def result_simps split: if_splits option.splits)

lemma decode_encode_single:
  assumes "encode_udp_single_chunk c frame = Ok d"
  shows "decode_udp_single_chunk_ref c d = Ok (Some frame)"
  using assms
  by (rule encode_single_OkD)
    (simp add: decode_udp_single_chunk_ref_def udp_header_decode_encode single_header_fits
      chunk_hdr.body_of Let_def)

lemma decode_single_SomeD:
  assumes "decode_udp_single_chunk_ref c d = Ok (Some frame)"
  shows "\<exists>h fh p. udp_header_decode d = Ok h \<and> d = udp_header_encode h @ frame
    \<and> decode_frame frame = Ok (fh, p) \<and> fh_request_id fh = uh_request_id h
    \<and> fh_frame_type fh = uh_frame_type h \<and> checksum c frame = uh_prev_checksum h
    \<and> checksum c frame = uh_next_checksum h"
  using assms
  by (auto simp: decode_udp_single_chunk_ref_def result_simps Let_def split: if_splits)
    (metis append_take_drop_id udp_header_decode_OkD)+

lemma encode_frame_new:
  "length p < 2 ^ 32 \<Longrightarrow> encode_frame (frame_header_new ft rid n) p =
     frame_header_encode (frame_header_new ft rid (word_of_nat (length p))) @ p"
  by (simp add: encode_frame_def)

lemma encode_from_parts_eq:
  assumes "crc_streaming c" and "FRAME_HEADER_LEN + length p \<le> 65535"
  shows "encode_udp_single_chunk_from_parts c ft rid p =
    encode_udp_single_chunk c (encode_frame (frame_header_new ft rid n) p)"
proof -
  let ?fh = "frame_header_new ft rid (word_of_nat (length p))"
  let ?frame = "frame_header_encode ?fh @ p"
  have small: "length p < 2 ^ 32" "length ?frame \<le> 65535"
    using assms(2) by (simp_all add: FRAME_HEADER_LEN_def)
  then have "decode_frame ?frame = Ok (?fh, p)"
    by (simp add: decode_frame_Ok_iff unat_word_of_length)
  from encode_single_Ok [OF this small(2), of c] small show ?thesis
    using assms
    by (simp add: encode_udp_single_chunk_from_parts_def encode_frame_new u32_try_from_def
        checksum_def crc_streaming_def Let_def)
qed

section \<open>Properties\<close>

text \<open>A frame sent as one datagram is read back unchanged.\<close>

theorem single_chunk_roundtrip:
  assumes "encode_udp_single_chunk c frame = Ok d"
  shows "decode_udp_single_chunk c d = Ok (Some frame)"
  using assms by (simp add: decode_udp_single_chunk_def decode_encode_single)

definition sum_crc :: "u32 crc32" where
  "sum_crc = \<lparr>crc_new = 0, crc_update = (\<lambda>h bs. foldl (\<lambda>a b. 31 * a + ucast b) h bs),
     crc_finalize = (\<lambda>h. h)\<rparr>"

lemma sum_crc_streaming: "crc_streaming sum_crc"
  by (simp add: crc_streaming_def sum_crc_def)

theorem single_chunk_roundtrip_witness:
  "\<exists>d. encode_udp_single_chunk sum_crc (encode_frame (frame_header_new QueryRequest 7 0) [1, 2]) = Ok d
   \<and> decode_udp_single_chunk sum_crc d =
     Ok (Some (encode_frame (frame_header_new QueryRequest 7 0) [1, 2]))"
proof -
  have "decode_frame (encode_frame (frame_header_new QueryRequest 7 0) [1, 2]) =
      Ok ((frame_header_new QueryRequest 7 0)\<lparr>fh_payload_len := 2\<rparr>, [1, 2])"
    by (subst decode_encode_frame) simp_all
  then have "\<exists>d. encode_udp_single_chunk sum_crc
      (encode_frame (frame_header_new QueryRequest 7 0) [1, 2]) = Ok d"
    by (subst encode_single_Ok) (simp_all add: FRAME_HEADER_LEN_def)
  then show ?thesis using single_chunk_roundtrip by blast
qed

text \<open>The allocation-saving encoder, which feeds header and payload to the checksum in
  two pieces and never builds the frame, emits the datagram that encoding the frame and
  wrapping it gives, whenever the frame fits one datagram.\<close>

theorem single_chunk_fast_path:
  assumes "crc_streaming c" and "FRAME_HEADER_LEN + length payload \<le> 65535"
  shows "encode_udp_single_chunk_from_parts c ft rid payload =
    encode_udp_single_chunk c (encode_frame (frame_header_new ft rid n) payload)"
  using assms by (rule encode_from_parts_eq)

theorem single_chunk_fast_path_witness:
  "crc_streaming sum_crc \<and> encode_udp_single_chunk_from_parts sum_crc RuntimePayload 9 [1, 2, 3] =
    encode_udp_single_chunk sum_crc (encode_frame (frame_header_new RuntimePayload 9 0) [1, 2, 3])"
  using single_chunk_fast_path [OF sum_crc_streaming, of "[1, 2, 3]" RuntimePayload 9 0]
  by (simp add: FRAME_HEADER_LEN_def sum_crc_streaming)

end
