(* ===== verification/Udp_Reassembly.thy ===== *)
theory Udp_Reassembly
  imports Udp_Chunks
begin

text \<open>
  Correctness of splitting and reassembly over \<open>Udp_Chunks\<close>: the state of a chunk group
  is characterised by the set of chunks seen so far (\<open>partial_group\<close>), one insertion adds
  one chunk to that set, and traffic of other requests leaves the group alone. From this
  follows what the reassembler answers after any interleaving of datagrams, with
  reordering, duplication and unrelated or malformed datagrams in between.
\<close>

section \<open>What the encoder emits\<close>

definition datagram_of :: "'h crc32 \<Rightarrow> FrameHeader \<Rightarrow> bytes \<Rightarrow> bytes list \<Rightarrow> nat \<Rightarrow> bytes" where
  "datagram_of c fh frame chunks i =
     udp_header_encode (chunk_header fh (word_of_nat (length frame)) (map (checksum c) chunks)
       chunks i) @ chunks ! i"

lemma encode_udp_chunks_OkD:
  assumes "encode_udp_chunks c frame mp = Ok ds"
  obtains fh p where "decode_frame frame = Ok (fh, p)" "256 \<le> mp" "length frame < 2 ^ 32"
    "length (chunks_of mp frame) \<le> 65535" "chunks_of mp frame \<noteq> []"
    "ds = map (datagram_of c fh frame (chunks_of mp frame)) [0 ..< length (chunks_of mp frame)]"
proof -
  from assms obtain fh p where "decode_frame frame = Ok (fh, p)" "256 \<le> mp" "frame \<noteq> []"
    "length frame < 2 ^ 32" "length (chunks_of mp frame) \<le> 65535"
    "ds = map (datagram_of c fh frame (chunks_of mp frame)) [0 ..< length (chunks_of mp frame)]"
    by (auto simp: encode_udp_chunks_def UDP_MIN_PAYLOAD_def u32_try_from_def result_simps Let_def
        length_chunks_of datagram_of_def [abs_def] split: if_splits option.splits)
  with that show thesis by simp
qed

lemma encode_udp_chunks_Ok:
  assumes "decode_frame frame = Ok (fh, p)" "256 \<le> mp" "length frame < 2 ^ 32"
    and "length (chunks_of mp frame) \<le> 65535"
  shows "encode_udp_chunks c frame mp =
    Ok (map (datagram_of c fh frame (chunks_of mp frame)) [0 ..< length (chunks_of mp frame)])"
proof -
  have "frame \<noteq> []"
    using decode_frame_length [OF assms(1)] by (auto simp: FRAME_HEADER_LEN_def)
  with assms show ?thesis
    by (simp add: encode_udp_chunks_def UDP_MIN_PAYLOAD_def u32_try_from_def Let_def
        length_chunks_of datagram_of_def [abs_def])
qed

lemma neighbour_indices [simp]:
  "i < n \<Longrightarrow> prev_index n i < n" "i < n \<Longrightarrow> next_index n i < n"
  by (auto simp: prev_index_def next_index_def)

lemma chunk_header_fields:
  "uh_frame_type (chunk_header fh l cs chunks i) = fh_frame_type fh"
  "uh_request_id (chunk_header fh l cs chunks i) = fh_request_id fh"
  "uh_frame_len (chunk_header fh l cs chunks i) = l"
  "uh_chunk_id (chunk_header fh l cs chunks i) = word_of_nat i"
  "uh_total_chunks (chunk_header fh l cs chunks i) = word_of_nat (length chunks)"
  "uh_prev_checksum (chunk_header fh l cs chunks i) = cs ! prev_index (length chunks) i"
  "uh_next_checksum (chunk_header fh l cs chunks i) = cs ! next_index (length chunks) i"
  by (simp_all add: chunk_header_def Let_def)

lemma chunk_header_fits:
  assumes "i < length chunks" "length chunks \<le> 65535" "length (chunks ! i) \<le> 65535"
  shows "chunk_fits (chunk_header fh l cs chunks i) (chunks ! i)"
  using assms
  by (auto simp: chunk_fits_def chunk_header_def Let_def unat_word_of_length word_less_nat_alt
      unat_eq_0 [symmetric])

lemma datagram_decode:
  assumes "i < length chunks" "length chunks \<le> 65535" "length (chunks ! i) \<le> 65535"
  shows "udp_header_decode (datagram_of c fh frame chunks i) =
    Ok (chunk_header fh (word_of_nat (length frame)) (map (checksum c) chunks) chunks i)"
  using chunk_header_fits [OF assms] by (simp add: datagram_of_def udp_header_decode_encode)

lemma datagram_inject:
  assumes "i < length chunks" "j < length chunks" "length chunks \<le> 65535"
    and "\<forall>x \<in> set chunks. length x \<le> 65535"
    and "datagram_of c fh frame chunks i = datagram_of c fh frame chunks j"
  shows "i = j"
proof -
  from assms datagram_decode [of i chunks c fh frame] datagram_decode [of j chunks c fh frame]
  have "(word_of_nat i :: u16) = word_of_nat j"
    by (simp add: chunk_header_def Let_def)
  then have "unat (word_of_nat i :: u16) = unat (word_of_nat j :: u16)"
    by simp
  with assms(1-3) show ?thesis by (simp add: unat_word_of_length)
qed

section \<open>One group and the chunks it has seen\<close>

definition frame_slot :: "'h crc32 \<Rightarrow> bytes list \<Rightarrow> nat \<Rightarrow> ChunkSlot" where
  "frame_slot c chunks i =
     \<lparr>cs_payload = chunks ! i,
      cs_prev_checksum = checksum c (chunks ! prev_index (length chunks) i),
      cs_next_checksum = checksum c (chunks ! next_index (length chunks) i)\<rparr>"

definition partial_group ::
    "'h crc32 \<Rightarrow> FrameHeader \<Rightarrow> bytes \<Rightarrow> bytes list \<Rightarrow> nat set \<Rightarrow> ChunkGroup" where
  "partial_group c fh frame chunks S =
     \<lparr>cg_frame_type = fh_frame_type fh, cg_request_id = fh_request_id fh,
      cg_frame_len = word_of_nat (length frame), cg_total_chunks = word_of_nat (length chunks),
      cg_chunks = map (\<lambda>i. if i \<in> S then Some (frame_slot c chunks i) else None)
        [0 ..< length chunks]\<rparr>"

lemma partial_group_new:
  "length chunks \<le> 65535 \<Longrightarrow>
   chunk_group_new (fh_frame_type fh) (fh_request_id fh) (word_of_nat (length frame))
     (word_of_nat (length chunks)) = partial_group c fh frame chunks {}"
  by (simp add: chunk_group_new_def partial_group_def unat_word_of_length map_replicate_trivial
      map_replicate_const)

lemma partial_group_update:
  "i < length chunks \<Longrightarrow>
   (partial_group c fh frame chunks S)\<lparr>cg_chunks :=
     (cg_chunks (partial_group c fh frame chunks S))[i := Some (frame_slot c chunks i)]\<rparr> =
   partial_group c fh frame chunks (insert i S)"
  by (auto simp: partial_group_def intro!: nth_equalityI simp: nth_list_update)

lemma partial_group_complete:
  "group_is_complete (partial_group c fh frame chunks S) \<longleftrightarrow> {0 ..< length chunks} \<subseteq> S"
  by (auto simp: group_is_complete_def partial_group_def list_all_iff split: if_splits)

lemma partial_group_verified:
  "{0 ..< length chunks} \<subseteq> S \<Longrightarrow> group_verify_all c (partial_group c fh frame chunks S) = Ok ()"
  by (auto simp: group_verify_all_def partial_group_def list_all_iff Let_def frame_slot_def
      subset_iff)

lemma partial_group_frame:
  assumes "{0 ..< length chunks} \<subseteq> S" "length frame < 2 ^ 32" "concat chunks = frame"
  shows "group_frame (partial_group c fh frame chunks S) = frame"
proof -
  have "map (\<lambda>s. case s of None \<Rightarrow> [] | Some slot \<Rightarrow> cs_payload slot)
      (cg_chunks (partial_group c fh frame chunks S)) = chunks"
    using assms(1) by (auto simp: partial_group_def frame_slot_def intro!: nth_equalityI)
  with assms show ?thesis
    by (simp add: group_frame_def partial_group_def unat_word_of_length)
qed

lemma group_insert_chunk:
  assumes "decode_frame frame = Ok (fh, p)" "length frame < 2 ^ 32" "concat chunks = frame"
    and "i < length chunks" "length chunks \<le> 65535"
  shows "group_insert c (partial_group c fh frame chunks S)
      (chunk_header fh (word_of_nat (length frame)) (map (checksum c) chunks) chunks i) (chunks ! i) =
    (partial_group c fh frame chunks (insert i S),
     Ok (if {0 ..< length chunks} \<subseteq> insert i S then Some frame else None))"
proof -
  let ?h = "chunk_header fh (word_of_nat (length frame)) (map (checksum c) chunks) chunks i"
  let ?g = "partial_group c fh frame chunks (insert i S)"
  have slot: "\<lparr>cs_payload = chunks ! i, cs_prev_checksum = uh_prev_checksum ?h,
      cs_next_checksum = uh_next_checksum ?h\<rparr> = frame_slot c chunks i"
    using assms(4) by (simp add: chunk_header_fields frame_slot_def)
  have idx: "unat (uh_chunk_id ?h) = i"
    using assms(4,5) by (simp add: chunk_header_fields unat_word_of_length)
  have meta: "uh_frame_type ?h = cg_frame_type ?g" "uh_request_id ?h = cg_request_id ?g"
    "uh_frame_len ?h = cg_frame_len ?g" "uh_total_chunks ?h = cg_total_chunks ?g"
    "cg_frame_type (partial_group c fh frame chunks S) = cg_frame_type ?g"
    "cg_request_id (partial_group c fh frame chunks S) = cg_request_id ?g"
    "cg_frame_len (partial_group c fh frame chunks S) = cg_frame_len ?g"
    "cg_total_chunks (partial_group c fh frame chunks S) = cg_total_chunks ?g"
    "fh_frame_type fh = cg_frame_type ?g" "fh_request_id fh = cg_request_id ?g"
    by (simp_all add: chunk_header_fields partial_group_def)
  show ?thesis
    using partial_group_complete [of c fh frame chunks "insert i S"]
      partial_group_verified [of chunks "insert i S" c fh frame]
      partial_group_frame [of chunks "insert i S" frame c fh] assms
    by (simp add: group_insert_def Let_def slot idx meta partial_group_update)
qed

section \<open>The reassembler under arbitrary traffic\<close>

text \<open>\<open>feed\<close> inserts a sequence of datagrams and keeps the final state.\<close>

definition feed :: "'h crc32 \<Rightarrow> UdpFrameReassembler \<Rightarrow> bytes list \<Rightarrow> UdpFrameReassembler" where
  "feed c r xs = foldl (\<lambda>r x. fst (reassembler_insert c r x)) r xs"

lemma feed_Nil [simp]: "feed c r [] = r"
  by (simp add: feed_def)

lemma feed_snoc [simp]: "feed c r (xs @ [x]) = fst (reassembler_insert c (feed c r xs) x)"
  by (simp add: feed_def)

lemma reassembler_insert_Err:
  "udp_header_decode x = Err e \<Longrightarrow> reassembler_insert c r x = (r, Err e)"
  by (simp add: reassembler_insert_def)

lemma reassembler_insert_other:
  assumes "\<And>h. udp_header_decode x = Ok h \<Longrightarrow> uh_request_id h \<noteq> rid"
  shows "ra_groups (fst (reassembler_insert c r x)) rid = ra_groups r rid"
  using assms
  by (cases "udp_header_decode x") (auto simp: reassembler_insert_def Let_def split_def)

lemma reassembler_insert_deadline [simp]:
  "ra_deadline (fst (reassembler_insert c r x)) = ra_deadline r"
  by (cases "udp_header_decode x") (auto simp: reassembler_insert_def Let_def split_def)

definition seen_chunks ::
    "'h crc32 \<Rightarrow> FrameHeader \<Rightarrow> bytes \<Rightarrow> bytes list \<Rightarrow> bytes list \<Rightarrow> nat set" where
  "seen_chunks c fh frame chunks xs =
     {i. i < length chunks \<and> datagram_of c fh frame chunks i \<in> set xs}"

definition group_state ::
    "'h crc32 \<Rightarrow> FrameHeader \<Rightarrow> bytes \<Rightarrow> bytes list \<Rightarrow> nat set \<Rightarrow> ChunkGroup option" where
  "group_state c fh frame chunks S =
     (if S = {} then None else Some (partial_group c fh frame chunks S))"

lemma reassembler_insert_chunk:
  assumes "decode_frame frame = Ok (fh, p)" "length frame < 2 ^ 32" "concat chunks = frame"
    and "i < length chunks" "length chunks \<le> 65535" "length (chunks ! i) \<le> 65535"
    and "ra_groups r (fh_request_id fh) = group_state c fh frame chunks S"
  shows "ra_groups (fst (reassembler_insert c r (datagram_of c fh frame chunks i)))
        (fh_request_id fh) = group_state c fh frame chunks (insert i S)"
    and "snd (reassembler_insert c r (datagram_of c fh frame chunks i)) =
      Ok (if {0 ..< length chunks} \<subseteq> insert i S then Some frame else None)"
proof -
  let ?d = "datagram_of c fh frame chunks i"
  have group: "(case ra_groups r (fh_request_id fh) of Some g \<Rightarrow> g
      | None \<Rightarrow> chunk_group_new (fh_frame_type fh) (fh_request_id fh) (word_of_nat (length frame))
          (word_of_nat (length chunks))) = partial_group c fh frame chunks S"
    using assms(5,7) by (auto simp: group_state_def partial_group_new)
  have body: "drop UDP_CHUNK_HEADER_LEN ?d = chunks ! i"
    by (simp add: datagram_of_def chunk_hdr.body_of)
  note step = reassembler_insert_def [of c r ?d, unfolded datagram_decode [OF assms(4-6)]
      sum.case Let_def body chunk_header_fields group
      group_insert_chunk [OF assms(1-5)] prod.case]
  show "ra_groups (fst (reassembler_insert c r ?d)) (fh_request_id fh) =
      group_state c fh frame chunks (insert i S)"
    by (simp add: step group_state_def)
  show "snd (reassembler_insert c r ?d) =
      Ok (if {0 ..< length chunks} \<subseteq> insert i S then Some frame else None)"
    by (simp add: step)
qed

lemma seen_chunks_snoc_chunk:
  assumes "i < length chunks" "length chunks \<le> 65535" "\<forall>x \<in> set chunks. length x \<le> 65535"
  shows "seen_chunks c fh frame chunks (xs @ [datagram_of c fh frame chunks i]) =
    insert i (seen_chunks c fh frame chunks xs)"
  using assms datagram_inject [of _ chunks i c fh frame] by (auto simp: seen_chunks_def)

lemma feed_group_state:
  assumes frame: "decode_frame frame = Ok (fh, p)" "length frame < 2 ^ 32" "concat chunks = frame"
    and chunks: "length chunks \<le> 65535" "\<forall>x \<in> set chunks. length x \<le> 65535"
    and fresh: "ra_groups r (fh_request_id fh) = None"
    and only: "\<forall>x \<in> set xs. \<forall>h. udp_header_decode x = Ok h \<longrightarrow>
      uh_request_id h = fh_request_id fh \<longrightarrow>
      x \<in> datagram_of c fh frame chunks ` {0 ..< length chunks}"
  shows "ra_groups (feed c r xs) (fh_request_id fh) =
    group_state c fh frame chunks (seen_chunks c fh frame chunks xs)"
  using only
proof (induction xs rule: rev_induct)
  case Nil
  then show ?case by (simp add: fresh seen_chunks_def group_state_def)
next
  case (snoc x xs)
  then have IH: "ra_groups (feed c r xs) (fh_request_id fh) =
      group_state c fh frame chunks (seen_chunks c fh frame chunks xs)"
    by simp
  show ?case
  proof (cases "\<exists>i < length chunks. x = datagram_of c fh frame chunks i")
    case True
    then obtain i where i: "i < length chunks" and x: "x = datagram_of c fh frame chunks i"
      by blast
    then have "length (chunks ! i) \<le> 65535" using chunks(2) by simp
    from reassembler_insert_chunk(1) [OF frame i chunks(1) this IH] show ?thesis
      by (simp add: x seen_chunks_snoc_chunk [OF i chunks])
  next
    case False
    then have "seen_chunks c fh frame chunks (xs @ [x]) = seen_chunks c fh frame chunks xs"
      by (auto simp: seen_chunks_def)
    moreover have "uh_request_id h \<noteq> fh_request_id fh" if "udp_header_decode x = Ok h" for h
      using snoc.prems that False by force
    ultimately show ?thesis by (simp add: IH reassembler_insert_other)
  qed
qed

lemma feed_then_insert:
  assumes enc: "encode_udp_chunks c frame mp = Ok ds" and mp: "mp \<le> 65535"
    and dec: "decode_frame frame = Ok (fh, p)"
    and fresh: "ra_groups r (fh_request_id fh) = None"
    and only: "\<forall>x \<in> set xs. \<forall>h. udp_header_decode x = Ok h \<longrightarrow>
      uh_request_id h = fh_request_id fh \<longrightarrow> x \<in> set ds"
    and d: "d \<in> set ds"
  shows "snd (reassembler_insert c (feed c r xs) d) =
    Ok (if set ds \<subseteq> insert d (set xs) then Some frame else None)"
proof -
  let ?cs = "chunks_of mp frame"
  from enc obtain fh' p' where "decode_frame frame = Ok (fh', p')" and "256 \<le> mp"
    and len: "length frame < 2 ^ 32" and n: "length ?cs \<le> 65535"
    and "ds = map (datagram_of c fh' frame ?cs) [0 ..< length ?cs]"
    by (rule encode_udp_chunks_OkD)
  with dec have ds: "set ds = datagram_of c fh frame ?cs ` {0 ..< length ?cs}"
    and cat: "concat ?cs = frame"
    by simp_all
  have small: "\<forall>x \<in> set ?cs. length x \<le> 65535"
    using mp by (auto dest: chunks_of_length_le)
  from d ds obtain i where i: "i < length ?cs" and di: "d = datagram_of c fh frame ?cs i"
    by auto
  then have "length (?cs ! i) \<le> 65535" using small by simp
  note state = feed_group_state [OF dec len cat n small fresh only [unfolded ds]]
  have same: "datagram_of c fh frame ?cs j = d \<longleftrightarrow> j = i" if "j < length ?cs" for j
    using datagram_inject [OF that i n small] by (auto simp: di)
  have "{0 ..< length ?cs} \<subseteq> insert i (seen_chunks c fh frame ?cs xs) \<longleftrightarrow>
      set ds \<subseteq> insert d (set xs)"
    unfolding ds image_subset_iff using same by (auto simp: seen_chunks_def)
  with reassembler_insert_chunk(2) [OF dec len cat i n \<open>length (?cs ! i) \<le> 65535\<close> state]
  show ?thesis by (simp add: di)
qed

section \<open>Safety of every delivery\<close>

text \<open>
  The slot index is in range for every accepted datagram (the vector access of
  \<open>ChunkGroup::insert\<close> cannot panic), and a delivered frame is well-formed, carries the
  request it was filed under and consists of payloads whose checksums both neighbours
  announced.
\<close>

definition group_wf :: "u64 \<Rightarrow> ChunkGroup \<Rightarrow> bool" where
  "group_wf rid g \<longleftrightarrow> cg_request_id g = rid \<and> length (cg_chunks g) = unat (cg_total_chunks g)"

definition reassembler_wf :: "UdpFrameReassembler \<Rightarrow> bool" where
  "reassembler_wf r \<longleftrightarrow> (\<forall>rid g. ra_groups r rid = Some g \<longrightarrow> group_wf rid g)"

definition target_group :: "UdpFrameReassembler \<Rightarrow> UdpChunkHeader \<Rightarrow> ChunkGroup" where
  "target_group r h = (case ra_groups r (uh_request_id h) of Some g \<Rightarrow> g
     | None \<Rightarrow> chunk_group_new (uh_frame_type h) (uh_request_id h) (uh_frame_len h)
         (uh_total_chunks h))"

lemma reassembler_insert_Ok:
  "udp_header_decode d = Ok h \<Longrightarrow> reassembler_insert c r d =
     (let (g, res) = group_insert c (target_group r h) h (drop UDP_CHUNK_HEADER_LEN d)
      in (r\<lparr>ra_groups := (ra_groups r)(uh_request_id h \<mapsto> g)\<rparr>, res))"
  by (simp add: reassembler_insert_def target_group_def Let_def)

lemma target_group_wf: "reassembler_wf r \<Longrightarrow> group_wf (uh_request_id h) (target_group r h)"
  by (auto simp: target_group_def reassembler_wf_def group_wf_def chunk_group_new_def
      split: option.splits)

lemma group_insert_wf: "group_wf rid g \<Longrightarrow> group_wf rid (fst (group_insert c g h p))"
  by (simp add: group_insert_def group_wf_def Let_def)

lemma reassembler_new_wf: "reassembler_wf (reassembler_new now timeout)"
  by (simp add: reassembler_wf_def reassembler_new_def)

lemma reassembler_insert_wf:
  "reassembler_wf r \<Longrightarrow> reassembler_wf (fst (reassembler_insert c r d))"
proof (cases "udp_header_decode d")
  case (Inl e)
  assume "reassembler_wf r"
  with Inl show ?thesis by (simp add: reassembler_insert_Err)
next
  case (Inr h)
  assume wf: "reassembler_wf r"
  then have "group_wf (uh_request_id h)
      (fst (group_insert c (target_group r h) h (drop UDP_CHUNK_HEADER_LEN d)))"
    by (intro group_insert_wf target_group_wf)
  with wf Inr show ?thesis
    by (auto simp: reassembler_insert_Ok reassembler_wf_def split_def Let_def)
qed

lemma group_slot_in_range:
  assumes "group_wf rid g" and "udp_header_decode d = Ok h"
    and "uh_total_chunks h = cg_total_chunks g"
  shows "unat (uh_chunk_id h) < length (cg_chunks g)"
  using assms udp_header_decode_OkD [OF assms(2)]
  by (simp add: group_wf_def chunk_fits_def word_less_nat_alt)

lemma group_insert_SomeD:
  assumes "group_insert c g h payload = (g', Ok (Some frame))"
  shows "frame = group_frame g'" "group_verify_all c g' = Ok ()" "group_is_complete g'"
    "\<exists>fh p. decode_frame frame = Ok (fh, p) \<and> fh_request_id fh = uh_request_id h
      \<and> fh_frame_type fh = uh_frame_type h"
  using assms by (auto simp: group_insert_def Let_def result_simps split: if_splits)

lemma reassembler_insert_SomeD:
  assumes "snd (reassembler_insert c r d) = Ok (Some frame)"
  shows "\<exists>h fh p g. udp_header_decode d = Ok h \<and> decode_frame frame = Ok (fh, p)
    \<and> fh_request_id fh = uh_request_id h \<and> fh_frame_type fh = uh_frame_type h
    \<and> ra_groups (fst (reassembler_insert c r d)) (uh_request_id h) = Some g
    \<and> group_is_complete g \<and> group_verify_all c g = Ok () \<and> frame = group_frame g"
proof (cases "udp_header_decode d")
  case (Inl e)
  with assms show ?thesis by (simp add: reassembler_insert_Err)
next
  case (Inr h)
  obtain g res where gi: "group_insert c (target_group r h) h (drop UDP_CHUNK_HEADER_LEN d) = (g, res)"
    by fastforce
  with assms Inr have "res = Ok (Some frame)"
    by (simp add: reassembler_insert_Ok)
  with gi group_insert_SomeD [of c "target_group r h" h _ g frame] Inr show ?thesis
    by (auto simp: reassembler_insert_Ok)
qed

section \<open>Properties\<close>

text \<open>C2: reassembly is exact under any delivery order. After any traffic in which the
  datagrams of this request are among the emitted ones (lost, duplicated, reordered and
  interleaved at will with malformed datagrams and with other requests), inserting a
  chunk returns the original frame exactly when every chunk has now been seen, and asks
  for more otherwise.\<close>

theorem reassembly_any_order:
  assumes "encode_udp_chunks c frame mp = Ok ds" and "mp \<le> 65535"
    and "decode_frame frame = Ok (fh, p)"
    and "ra_groups r (fh_request_id fh) = None"
    and "\<forall>x \<in> set xs. \<forall>h. udp_header_decode x = Ok h \<longrightarrow>
      uh_request_id h = fh_request_id fh \<longrightarrow> x \<in> set ds"
    and "d \<in> set ds"
  shows "snd (reassembler_insert c (feed c r xs) d) =
    Ok (if set ds \<subseteq> insert d (set xs) then Some frame else None)"
  using assms by (rule feed_then_insert)

definition big_frame :: bytes where
  "big_frame = encode_frame (frame_header_new RuntimePayload 7 0) (replicate 300 5)"

lemma big_frame_decode:
  "decode_frame big_frame = Ok ((frame_header_new RuntimePayload 7 0)\<lparr>fh_payload_len := 300\<rparr>,
     replicate 300 5)"
  unfolding big_frame_def by (subst decode_encode_frame) simp_all

lemma big_frame_length: "length big_frame = 318"
  by (simp add: big_frame_def FRAME_HEADER_LEN_def)

theorem reassembly_any_order_witness:
  "\<exists>d0 d1. encode_udp_chunks sum_crc big_frame 256 = Ok [d0, d1]
   \<and> snd (reassembler_insert sum_crc (feed sum_crc (reassembler_new 0 5) [d1, [0], d1]) d0) =
     Ok (Some big_frame)"
proof -
  have n: "length (chunks_of 256 big_frame) = 2"
    by (simp add: length_chunks_of big_frame_length div_ceil_def)
  then have "encode_udp_chunks sum_crc big_frame 256 = Ok (map (datagram_of sum_crc
      ((frame_header_new RuntimePayload 7 0)\<lparr>fh_payload_len := 300\<rparr>) big_frame
      (chunks_of 256 big_frame)) [0 ..< 2])"
    by (simp add: encode_udp_chunks_Ok [OF big_frame_decode] big_frame_length)
  then obtain d0 d1 where e: "encode_udp_chunks sum_crc big_frame 256 = Ok [d0, d1]"
    by (simp add: upt_rec)
  have "udp_header_decode [0] = Err (ShortDatagram 1 32)"
    by (simp add: udp_header_decode_def UDP_CHUNK_HEADER_LEN_def)
  with reassembly_any_order [OF e _ big_frame_decode, of "reassembler_new 0 5" "[d1, [0], d1]" d0]
  show ?thesis using e by (auto simp: reassembler_new_def)
qed



text \<open>C37: the reassembler keeps its groups well-formed, and in a well-formed reassembler the
  slot index of every accepted datagram of a group lies inside the slot vector, so the
  indexed write of \<open>ChunkGroup::insert\<close> never panics.\<close>

theorem reassembler_index_safe:
  assumes "reassembler_wf r"
  shows "reassembler_wf (fst (reassembler_insert c r d))
    \<and> (\<forall>h. udp_header_decode d = Ok h \<longrightarrow> uh_total_chunks h = cg_total_chunks (target_group r h)
       \<longrightarrow> unat (uh_chunk_id h) < length (cg_chunks (target_group r h)))"
  using assms by (blast intro: reassembler_insert_wf group_slot_in_range target_group_wf)

theorem reassembler_index_safe_witness:
  "reassembler_wf (fst (reassembler_insert sum_crc (reassembler_new 3 10) [1, 2, 3]))"
  using reassembler_index_safe [OF reassembler_new_wf] by blast

end
