(* ===== verification/Snapshots.thy ===== *)
theory Snapshots
  imports Frames
begin

unbundle bit_operations_syntax

text \<open>
  The data model of \<^verbatim>\<open>crates/common/src/protocol.rs\<close>: the snapshot of one node, its split
  into static host metadata and a runtime part, the FNV-1a hash that ties the two
  together, the reconstruction on the client, the small JSON messages of the handshake
  and query exchange, and the summaries of \<^verbatim>\<open>crates/server/src/model.rs\<close>. Strings are
  UTF-8 byte sequences (\<open>string\<close>), so \<open>as_bytes\<close> is the byte value of each character.
\<close>

section \<open>Snapshot data\<close>

record GresMemory =
  gm_used_mb :: u64
  gm_total_mb :: u64

record GresUtilization =
  gu_gres_percent :: u8
  gu_memory_percent :: u8

record GresProcessInfo =
  gp_pid :: u32
  gp_uid :: u32
  gp_command :: "string option"
  gp_used_memory_mb :: u64

record GresInfo =
  gi_index :: u8
  gi_name :: string
  gi_temperature_c :: "u32 option"
  gi_uuid :: "string option"
  gi_memory :: GresMemory
  gi_utilization :: GresUtilization
  gi_processes :: "GresProcessInfo list"

record ServerGresSnapshot =
  ss_hostname :: string
  ss_driver_version :: "string option"
  ss_gres :: "GresInfo list"

record GresStaticInfo =
  gs_index :: u8
  gs_name :: string
  gs_uuid :: "string option"
  gs_memory_total_mb :: u64

record HostMetadata =
  hm_hostname :: string
  hm_driver_version :: "string option"
  hm_gres :: "GresStaticInfo list"

record GresProcessRuntimeInfo =
  pr_pid :: u32
  pr_uid :: u32
  pr_used_memory_mb :: u64

record GresRuntimeInfo =
  gr_index :: u8
  gr_temperature_c :: "u32 option"
  gr_memory_used_mb :: u64
  gr_utilization :: GresUtilization
  gr_processes :: "GresProcessRuntimeInfo list"

record RuntimeSnapshot =
  rs_metadata_hash :: u64
  rs_gres :: "GresRuntimeInfo list"

section \<open>Splitting a snapshot\<close>

definition static_of_gres :: "GresInfo \<Rightarrow> GresStaticInfo" where
  "static_of_gres g =
     \<lparr>gs_index = gi_index g, gs_name = gi_name g, gs_uuid = gi_uuid g,
      gs_memory_total_mb = gm_total_mb (gi_memory g)\<rparr>"

definition metadata_from_snapshot :: "ServerGresSnapshot \<Rightarrow> HostMetadata" where
  "metadata_from_snapshot s =
     \<lparr>hm_hostname = ss_hostname s, hm_driver_version = ss_driver_version s,
      hm_gres = map static_of_gres (ss_gres s)\<rparr>"

definition as_bytes :: "string \<Rightarrow> bytes" where
  "as_bytes s = map of_char s"

definition FNV_PRIME :: u64 where
  "FNV_PRIME = 0x100000001b3"

definition fnv_byte :: "u64 \<Rightarrow> byte \<Rightarrow> u64" where
  "fnv_byte h b = (h XOR ucast b) * FNV_PRIME"

definition write_bytes :: "u64 \<Rightarrow> bytes \<Rightarrow> u64" where
  "write_bytes h bs = (foldl fnv_byte h bs XOR 0xff) * FNV_PRIME"

definition write_gres :: "u64 \<Rightarrow> GresStaticInfo \<Rightarrow> u64" where
  "write_gres h g =
     (let h = write_bytes h [gs_index g];
          h = write_bytes h (as_bytes (gs_name g));
          h = (case gs_uuid g of Some uuid \<Rightarrow> write_bytes h (as_bytes uuid)
                               | None \<Rightarrow> write_bytes h [])
      in write_bytes h (u64_to_le_bytes (gs_memory_total_mb g)))"

definition metadata_hash :: "HostMetadata \<Rightarrow> u64" where
  "metadata_hash m =
     (let h = 0xcbf29ce484222325;
          h = write_bytes h (as_bytes (hm_hostname m));
          h = (case hm_driver_version m of Some d \<Rightarrow> write_bytes h (as_bytes d)
                                         | None \<Rightarrow> write_bytes h [])
      in foldl write_gres h (hm_gres m))"

definition runtime_process :: "GresProcessInfo \<Rightarrow> GresProcessRuntimeInfo" where
  "runtime_process p =
     \<lparr>pr_pid = gp_pid p, pr_uid = gp_uid p, pr_used_memory_mb = gp_used_memory_mb p\<rparr>"

definition runtime_of_gres :: "GresInfo \<Rightarrow> GresRuntimeInfo" where
  "runtime_of_gres g =
     \<lparr>gr_index = gi_index g, gr_temperature_c = gi_temperature_c g,
      gr_memory_used_mb = gm_used_mb (gi_memory g), gr_utilization = gi_utilization g,
      gr_processes = map runtime_process (gi_processes g)\<rparr>"

definition runtime_from_snapshot :: "ServerGresSnapshot \<Rightarrow> RuntimeSnapshot" where
  "runtime_from_snapshot s =
     \<lparr>rs_metadata_hash = metadata_hash (metadata_from_snapshot s),
      rs_gres = map runtime_of_gres (ss_gres s)\<rparr>"

section \<open>Rebuilding it\<close>

definition process_of_runtime :: "GresProcessRuntimeInfo \<Rightarrow> GresProcessInfo" where
  "process_of_runtime p =
     \<lparr>gp_pid = pr_pid p, gp_uid = pr_uid p, gp_command = None,
      gp_used_memory_mb = pr_used_memory_mb p\<rparr>"

definition gres_of_runtime :: "HostMetadata \<Rightarrow> GresRuntimeInfo \<Rightarrow> GresInfo" where
  "gres_of_runtime m r =
     (let static_info = find (\<lambda>g. gs_index g = gr_index r) (hm_gres m) in
      \<lparr>gi_index = gr_index r,
       gi_name = (case static_info of Some g \<Rightarrow> gs_name g | None \<Rightarrow> ''unknown''),
       gi_temperature_c = gr_temperature_c r,
       gi_uuid = Option.bind static_info gs_uuid,
       gi_memory = \<lparr>gm_used_mb = gr_memory_used_mb r,
         gm_total_mb = (case static_info of Some g \<Rightarrow> gs_memory_total_mb g | None \<Rightarrow> 0)\<rparr>,
       gi_utilization = gr_utilization r,
       gi_processes = map process_of_runtime (gr_processes r)\<rparr>)"

definition to_snapshot :: "RuntimeSnapshot \<Rightarrow> HostMetadata \<Rightarrow> ServerGresSnapshot" where
  "to_snapshot r m =
     \<lparr>ss_hostname = hm_hostname m, ss_driver_version = hm_driver_version m,
      ss_gres = map (gres_of_runtime m) (rs_gres r)\<rparr>"

text \<open>\<open>omit_process_commands\<close> of \<^verbatim>\<open>crates/server/src/cache.rs\<close>: what the server clears
  before it caches a snapshot.\<close>

definition omit_process_commands :: "ServerGresSnapshot \<Rightarrow> ServerGresSnapshot" where
  "omit_process_commands s =
     s\<lparr>ss_gres := map (\<lambda>g. g\<lparr>gi_processes :=
        map (\<lambda>p. p\<lparr>gp_command := None\<rparr>) (gi_processes g)\<rparr>) (ss_gres s)\<rparr>"

section \<open>Payload codecs\<close>

text \<open>The archiver of each payload type is a parameter: \<open>to_bytes\<close> and \<open>from_bytes\<close> stand
  for rkyv's functions at that type. The snapshot codec spells the envelope out in the
  source; the other two call the shared helper.\<close>

definition encode_snapshot_payload ::
    "(ServerGresSnapshot \<Rightarrow> string + bytes) \<Rightarrow> ServerGresSnapshot \<Rightarrow> PayloadEncodeError + bytes" where
  "encode_snapshot_payload to_bytes snapshot =
     and_then (map_err SerializeFailed (to_bytes snapshot)) (\<lambda>bs.
       and_then (map_err payload_encode_error_from (payload_len_from_archived_len (length bs)))
         (\<lambda>_. Ok bs))"

definition decode_snapshot_payload ::
    "(bytes \<Rightarrow> string + ServerGresSnapshot) \<Rightarrow> bytes \<Rightarrow> PayloadDecodeError + ServerGresSnapshot" where
  "decode_snapshot_payload from_bytes bs =
     (if bs = [] then Err Empty else map_err DeserializeFailed (from_bytes bs))"

definition encode_metadata_payload ::
    "(HostMetadata \<Rightarrow> string + bytes) \<Rightarrow> HostMetadata \<Rightarrow> PayloadEncodeError + bytes" where
  "encode_metadata_payload to_bytes m = encode_rkyv_payload to_bytes m"

definition decode_metadata_payload ::
    "(bytes \<Rightarrow> string + HostMetadata) \<Rightarrow> bytes \<Rightarrow> PayloadDecodeError + HostMetadata" where
  "decode_metadata_payload from_bytes bs = decode_rkyv_payload from_bytes bs"

definition encode_runtime_payload ::
    "(RuntimeSnapshot \<Rightarrow> string + bytes) \<Rightarrow> RuntimeSnapshot \<Rightarrow> PayloadEncodeError + bytes" where
  "encode_runtime_payload to_bytes r = encode_rkyv_payload to_bytes r"

definition decode_runtime_payload ::
    "(bytes \<Rightarrow> string + RuntimeSnapshot) \<Rightarrow> bytes \<Rightarrow> PayloadDecodeError + RuntimeSnapshot" where
  "decode_runtime_payload from_bytes bs = decode_rkyv_payload from_bytes bs"

section \<open>Messages and summaries\<close>

record QueryRequest =
  qr_version :: u8
  qr_request_id :: u64

datatype ResponseStatus = StatusOk | StatusError

record QueryResponse =
  qs_version :: u8
  qs_request_id :: u64
  qs_status :: ResponseStatus
  qs_error :: "ErrorCode option"

definition query_response_ok :: "u64 \<Rightarrow> QueryResponse" where
  "query_response_ok rid =
     \<lparr>qs_version = PROTOCOL_VERSION, qs_request_id = rid, qs_status = StatusOk, qs_error = None\<rparr>"

definition query_response_error :: "u64 \<Rightarrow> ErrorCode \<Rightarrow> QueryResponse" where
  "query_response_error rid e =
     \<lparr>qs_version = PROTOCOL_VERSION, qs_request_id = rid, qs_status = StatusError,
      qs_error = Some e\<rparr>"

record HandshakeRequest =
  hr_version :: u8

definition handshake_request_current :: HandshakeRequest where
  "handshake_request_current = \<lparr>hr_version = PROTOCOL_VERSION\<rparr>"

definition handshake_request_validate :: "HandshakeRequest \<Rightarrow> ErrorCode + unit" where
  "handshake_request_validate r = validate_protocol_version (hr_version r)"

record HandshakeInfo =
  hi_version :: u8
  hi_hostname :: string
  hi_gpu_num :: u8
  hi_payload_len :: u16

definition handshake_info_current :: "string \<Rightarrow> u8 \<Rightarrow> u16 \<Rightarrow> HandshakeInfo" where
  "handshake_info_current hostname gpu_num payload_len =
     \<lparr>hi_version = PROTOCOL_VERSION, hi_hostname = hostname, hi_gpu_num = gpu_num,
      hi_payload_len = payload_len\<rparr>"

definition handshake_info_validate :: "HandshakeInfo \<Rightarrow> ErrorCode + unit" where
  "handshake_info_validate r = validate_protocol_version (hi_version r)"

record DiscoveryQuery =
  dq_version :: u8

record DiscoveryAnnounce =
  da_version :: u8
  da_hostname :: string
  da_ip :: string
  da_port :: u16
  da_tcp_port :: "u16 option"
  da_kcp_port :: "u16 option"
  da_udp_port :: "u16 option"
  da_ttl :: "u16 option"
  da_load :: "u8 option"
  da_degraded :: "bool option"

definition gres_num :: "ServerGresSnapshot \<Rightarrow> u8" where
  "gres_num s = word_of_nat (min (length (ss_gres s)) 255)"

definition gpu_num :: "ServerGresSnapshot \<Rightarrow> u8" where
  "gpu_num s = gres_num s"

text \<open>The sum is accumulated in \<open>u64\<close>; with one byte per resource it cannot overflow
  below \<open>2 ^ 56\<close> resources, so it is written here over \<open>nat\<close>.\<close>

definition avg_utilization :: "ServerGresSnapshot \<Rightarrow> u8" where
  "avg_utilization s =
     (if ss_gres s = [] then 0
      else let total = sum_list (map (\<lambda>g. unat (gu_gres_percent (gi_utilization g))) (ss_gres s))
           in word_of_nat (min (total div length (ss_gres s)) 100))"

section \<open>The split loses only the commands\<close>

lemma static_index [simp]: "gs_index (static_of_gres g) = gi_index g"
  by (simp add: static_of_gres_def)

lemma find_static:
  "distinct (map gi_index gs) \<Longrightarrow> g \<in> set gs \<Longrightarrow>
     find (\<lambda>x. gs_index x = gi_index g) (map static_of_gres gs) = Some (static_of_gres g)"
proof (induction gs)
  case Nil
  then show ?case by simp
next
  case (Cons a gs)
  then show ?case by (cases "a = g") (auto simp: rev_image_eqI)
qed

lemma process_runtime_command:
  "process_of_runtime (runtime_process p) = p\<lparr>gp_command := None\<rparr>"
  by (simp add: process_of_runtime_def runtime_process_def)

lemma gres_of_runtime_of_gres:
  assumes "find (\<lambda>x. gs_index x = gi_index g) (hm_gres m) = Some (static_of_gres g)"
  shows "gres_of_runtime m (runtime_of_gres g) =
     g\<lparr>gi_processes := map (\<lambda>p. p\<lparr>gp_command := None\<rparr>) (gi_processes g)\<rparr>"
  using assms
  by (simp add: gres_of_runtime_def runtime_of_gres_def static_of_gres_def
      process_runtime_command comp_def)

lemma to_snapshot_split:
  assumes "distinct (map gi_index (ss_gres s))"
  shows "to_snapshot (runtime_from_snapshot s) (metadata_from_snapshot s) =
     omit_process_commands s"
  using assms
  by (simp add: to_snapshot_def runtime_from_snapshot_def metadata_from_snapshot_def
      omit_process_commands_def comp_def gres_of_runtime_of_gres find_static)

lemma omit_process_commands_idem [simp]:
  "omit_process_commands (omit_process_commands s) = omit_process_commands s"
  by (simp add: omit_process_commands_def comp_def)

lemma static_of_gres_processes [simp]:
  "static_of_gres (g\<lparr>gi_processes := ps\<rparr>) = static_of_gres g"
  by (simp add: static_of_gres_def)

lemma metadata_omit [simp]:
  "metadata_from_snapshot (omit_process_commands s) = metadata_from_snapshot s"
  by (simp add: metadata_from_snapshot_def omit_process_commands_def comp_def)

lemma runtime_omit [simp]:
  "runtime_from_snapshot (omit_process_commands s) = runtime_from_snapshot s"
  by (simp add: runtime_from_snapshot_def)
    (simp add: omit_process_commands_def runtime_of_gres_def runtime_process_def comp_def)

section \<open>What the metadata hash reads\<close>

text \<open>
  The hash is FNV-1a over one byte stream, in which every field ends with \<open>0xff\<close>. UTF-8
  never uses that byte, so the stream determines the metadata: two different metadata
  values are told apart by what is hashed, up to collisions of FNV itself and up to an
  absent field being hashed like an empty one.
\<close>

definition field_stream :: "bytes \<Rightarrow> bytes" where
  "field_stream bs = bs @ [0xff]"

definition opt_bytes :: "string option \<Rightarrow> bytes" where
  "opt_bytes x = (case x of Some s \<Rightarrow> as_bytes s | None \<Rightarrow> [])"

definition gres_stream :: "GresStaticInfo \<Rightarrow> bytes" where
  "gres_stream g =
     field_stream [gs_index g] @ field_stream (as_bytes (gs_name g))
     @ field_stream (opt_bytes (gs_uuid g))
     @ field_stream (u64_to_le_bytes (gs_memory_total_mb g))"

definition metadata_stream :: "HostMetadata \<Rightarrow> bytes" where
  "metadata_stream m =
     field_stream (as_bytes (hm_hostname m)) @ field_stream (opt_bytes (hm_driver_version m))
     @ concat (map gres_stream (hm_gres m))"

definition utf8_text :: "string \<Rightarrow> bool" where
  "utf8_text s \<longleftrightarrow> 0xff \<notin> set (as_bytes s)"

definition plain_option :: "string option \<Rightarrow> bool" where
  "plain_option x \<longleftrightarrow> x \<noteq> Some [] \<and> (\<forall>s. x = Some s \<longrightarrow> utf8_text s)"

definition plain_metadata :: "HostMetadata \<Rightarrow> bool" where
  "plain_metadata m \<longleftrightarrow>
     utf8_text (hm_hostname m) \<and> plain_option (hm_driver_version m)
     \<and> list_all (\<lambda>g. utf8_text (gs_name g) \<and> plain_option (gs_uuid g)) (hm_gres m)"

lemma write_bytes_stream: "write_bytes h bs = foldl fnv_byte h (field_stream bs)"
  by (simp add: write_bytes_def field_stream_def fnv_byte_def)

lemma write_gres_stream: "write_gres h g = foldl fnv_byte h (gres_stream g)"
  by (simp add: write_gres_def gres_stream_def write_bytes_stream opt_bytes_def Let_def
      split: option.split)

lemma foldl_write_gres: "foldl write_gres h gs = foldl fnv_byte h (concat (map gres_stream gs))"
  by (induction gs arbitrary: h) (simp_all add: write_gres_stream)

lemma metadata_hash_stream:
  "metadata_hash m = foldl fnv_byte 0xcbf29ce484222325 (metadata_stream m)"
  by (simp add: metadata_hash_def metadata_stream_def write_bytes_stream foldl_write_gres
      opt_bytes_def Let_def split: option.split)

lemma of_char_byte_inject: "of_char c = (of_char d :: byte) \<longleftrightarrow> c = d"
proof
  assume "of_char c = (of_char d :: byte)"
  then have "unat (word_of_nat (of_char c) :: byte) = unat (word_of_nat (of_char d) :: byte)"
    by (simp only: of_nat_of_char)
  then have "(of_char c :: nat) = of_char d"
    by (simp add: unat_word_of_length nat_of_char_less_256)
  then show "c = d" by simp
qed simp

lemma as_bytes_inject: "as_bytes s = as_bytes t \<longleftrightarrow> s = t"
  by (simp add: as_bytes_def inj_map_eq_map inj_on_def of_char_byte_inject)

lemma field_stream_inject:
  assumes "0xff \<notin> set a" and "0xff \<notin> set b"
  shows "field_stream a @ r = field_stream b @ q \<longleftrightarrow> a = b \<and> r = q"
  using assms
proof (induction a arbitrary: b)
  case Nil
  then show ?case by (cases b) (auto simp: field_stream_def)
next
  case (Cons x a)
  then show ?case by (cases b) (auto simp: field_stream_def)
qed

lemma field_stream_fixed:
  "length a = length b \<Longrightarrow> field_stream a @ r = field_stream b @ q \<longleftrightarrow> a = b \<and> r = q"
  by (simp add: field_stream_def)

lemma opt_bytes_plain: "plain_option x \<Longrightarrow> 0xff \<notin> set (opt_bytes x)"
  by (auto simp: plain_option_def opt_bytes_def utf8_text_def split: option.split)

lemma opt_bytes_inject:
  "plain_option x \<Longrightarrow> plain_option y \<Longrightarrow> opt_bytes x = opt_bytes y \<longleftrightarrow> x = y"
  by (auto simp: plain_option_def opt_bytes_def as_bytes_inject as_bytes_def
      of_char_byte_inject inj_map_eq_map inj_on_def split: option.splits)

lemma gres_stream_inject:
  assumes "utf8_text (gs_name g)" "plain_option (gs_uuid g)"
    and "utf8_text (gs_name k)" "plain_option (gs_uuid k)"
  shows "gres_stream g @ r = gres_stream k @ q \<longleftrightarrow> g = k \<and> r = q"
proof -
  note texts = assms [unfolded utf8_text_def]
  have name: "field_stream (as_bytes (gs_name g)) @ x = field_stream (as_bytes (gs_name k)) @ y
      \<longleftrightarrow> gs_name g = gs_name k \<and> x = y" for x y
    by (simp only: field_stream_inject [OF texts(1,3)] as_bytes_inject)
  have uuid: "field_stream (opt_bytes (gs_uuid g)) @ x = field_stream (opt_bytes (gs_uuid k)) @ y
      \<longleftrightarrow> gs_uuid g = gs_uuid k \<and> x = y" for x y
    using assms(2,4) by (simp only: field_stream_inject opt_bytes_plain opt_bytes_inject simp_thms)
  have mem: "field_stream (u64_to_le_bytes v) @ x = field_stream (u64_to_le_bytes w) @ y
      \<longleftrightarrow> v = w \<and> x = y" for v w x y
    by (simp add: field_stream_fixed f64le.to_bytes_inject)
  have idx: "field_stream [i] @ x = field_stream [j] @ y \<longleftrightarrow> i = j \<and> x = y" for i j x y
    by (simp add: field_stream_def)
  have "gres_stream g @ r = gres_stream k @ q \<longleftrightarrow>
      gs_index g = gs_index k \<and> gs_name g = gs_name k \<and> gs_uuid g = gs_uuid k
      \<and> gs_memory_total_mb g = gs_memory_total_mb k \<and> r = q"
    by (simp only: gres_stream_def append_assoc idx name uuid mem)
  moreover have "g = k \<longleftrightarrow> gs_index g = gs_index k \<and> gs_name g = gs_name k \<and> gs_uuid g = gs_uuid k
      \<and> gs_memory_total_mb g = gs_memory_total_mb k"
    by (metis (full_types) GresStaticInfo.equality unit.exhaust)
  ultimately show ?thesis by blast
qed

lemma gres_stream_nonempty [simp]: "gres_stream g \<noteq> []"
  by (simp add: gres_stream_def field_stream_def)

lemma gres_streams_inject:
  assumes "list_all (\<lambda>g. utf8_text (gs_name g) \<and> plain_option (gs_uuid g)) gs"
    and "list_all (\<lambda>g. utf8_text (gs_name g) \<and> plain_option (gs_uuid g)) ks"
    and "concat (map gres_stream gs) = concat (map gres_stream ks)"
  shows "gs = ks"
  using assms
proof (induction gs arbitrary: ks)
  case Nil
  then show ?case by (cases ks) auto
next
  case (Cons g gs)
  from Cons.prems(3) obtain k ks' where ks: "ks = k # ks'" by (cases ks) simp_all
  with Cons.prems have "g = k \<and> concat (map gres_stream gs) = concat (map gres_stream ks')"
    by (simp add: gres_stream_inject)
  with Cons.IH [of ks'] Cons.prems ks show ?case by simp
qed

lemma metadata_stream_inject:
  assumes "plain_metadata m" and "plain_metadata n" and "metadata_stream m = metadata_stream n"
  shows "m = n"
proof -
  from assms have "hm_hostname m = hm_hostname n" "hm_driver_version m = hm_driver_version n"
    and "concat (map gres_stream (hm_gres m)) = concat (map gres_stream (hm_gres n))"
    by (simp_all add: metadata_stream_def plain_metadata_def utf8_text_def field_stream_inject
        as_bytes_inject opt_bytes_plain opt_bytes_inject)
  with assms(1,2) show ?thesis
    using gres_streams_inject [of "hm_gres m" "hm_gres n"] by (simp add: plain_metadata_def)
qed

lemma avg_utilization_bound: "unat (avg_utilization s) \<le> 100"
  by (simp add: avg_utilization_def Let_def unat_word_of_length)

section \<open>Properties\<close>

text \<open>C27: a client that rebuilds a snapshot from its static metadata and its runtime part
  gets the server's snapshot with only the process commands removed, when no two
  resources share an index.\<close>

theorem snapshot_split_roundtrip:
  assumes "distinct (map gi_index (ss_gres s))"
  shows "to_snapshot (runtime_from_snapshot s) (metadata_from_snapshot s) =
     omit_process_commands s"
  using assms by (rule to_snapshot_split)

definition sample_snapshot :: ServerGresSnapshot where
  "sample_snapshot =
     \<lparr>ss_hostname = ''node-a'', ss_driver_version = Some ''550.1'',
      ss_gres = [\<lparr>gi_index = 0, gi_name = ''A100'', gi_temperature_c = Some 40, gi_uuid = Some ''u0'',
        gi_memory = \<lparr>gm_used_mb = 10, gm_total_mb = 80\<rparr>,
        gi_utilization = \<lparr>gu_gres_percent = 7, gu_memory_percent = 12\<rparr>,
        gi_processes = [\<lparr>gp_pid = 42, gp_uid = 1000, gp_command = Some ''train'',
          gp_used_memory_mb = 10\<rparr>]\<rparr>,
       \<lparr>gi_index = 1, gi_name = ''A100'', gi_temperature_c = None, gi_uuid = None,
        gi_memory = \<lparr>gm_used_mb = 0, gm_total_mb = 80\<rparr>,
        gi_utilization = \<lparr>gu_gres_percent = 0, gu_memory_percent = 0\<rparr>, gi_processes = []\<rparr>]\<rparr>"

theorem snapshot_split_roundtrip_witness:
  "distinct (map gi_index (ss_gres sample_snapshot))
   \<and> to_snapshot (runtime_from_snapshot sample_snapshot) (metadata_from_snapshot sample_snapshot) =
     omit_process_commands sample_snapshot
   \<and> omit_process_commands sample_snapshot \<noteq> sample_snapshot"
proof -
  have "distinct (map gi_index (ss_gres sample_snapshot))"
    by (simp add: sample_snapshot_def)
  moreover have "omit_process_commands sample_snapshot \<noteq> sample_snapshot"
    by (simp add: sample_snapshot_def omit_process_commands_def)
  ultimately show ?thesis using snapshot_split_roundtrip by simp
qed

text \<open>C38: the metadata hash is FNV-1a over a byte stream, and that stream is injective on
  metadata whose texts are UTF-8 (no byte \<open>0xff\<close>) and whose optional texts are not empty:
  distinct metadata is confused only by a collision of FNV-1a itself.\<close>

theorem metadata_hash_reads_everything:
  assumes "plain_metadata m" and "plain_metadata n"
  shows "metadata_hash m = foldl fnv_byte 0xcbf29ce484222325 (metadata_stream m)
    \<and> (metadata_stream m = metadata_stream n \<longleftrightarrow> m = n)"
  using assms metadata_stream_inject by (auto simp: metadata_hash_stream)

theorem metadata_hash_reads_everything_witness:
  "metadata_stream \<lparr>hm_hostname = ''a'', hm_driver_version = Some ''b'', hm_gres = []\<rparr> \<noteq>
   metadata_stream \<lparr>hm_hostname = ''ab'', hm_driver_version = None, hm_gres = []\<rparr>"
proof -
  let ?m = "\<lparr>hm_hostname = ''a'', hm_driver_version = Some ''b'', hm_gres = []\<rparr>"
  let ?n = "\<lparr>hm_hostname = ''ab'', hm_driver_version = None, hm_gres = []\<rparr>"
  have "plain_metadata ?m" "plain_metadata ?n"
    by (simp_all add: plain_metadata_def plain_option_def utf8_text_def as_bytes_def of_char_def)
  from metadata_hash_reads_everything [OF this] show ?thesis by simp
qed

end
