(* ===== verification/Server_Cache.thy ===== *)
theory Server_Cache
  imports Snapshots
begin

text \<open>
  The snapshot cache of the server, \<^verbatim>\<open>crates/server/src/cache.rs\<close>: expiry, the request
  metrics with their bounded latency window, nearest-rank percentiles and basis-point
  ratios, and the refresh protocol as one caller runs it when no other thread interferes.
  Interleavings of several callers are the subject of \<open>Cache_Concurrency\<close>, which uses the
  same operations. Instants and durations are nanosecond counts; every reading of the
  clock is an argument. Counters are 64-bit words that wrap, as the atomics do.
\<close>

section \<open>Entries and metrics\<close>

definition LATENCY_SAMPLE_LIMIT :: nat where
  "LATENCY_SAMPLE_LIMIT = 128"

record CacheEntry =
  ce_snapshot :: ServerGresSnapshot
  ce_collected_at :: instant

definition is_expired :: "CacheEntry \<Rightarrow> u64 \<Rightarrow> instant \<Rightarrow> bool" where
  "is_expired e ttl_ms now \<longleftrightarrow> word_of_nat ((now - ce_collected_at e) div 1000000) \<ge> ttl_ms"

record CacheMetricsSnapshot =
  ms_cache_hits :: u64
  ms_cache_misses :: u64
  ms_merge_count :: u64
  ms_collect_count :: u64
  ms_avg_collect_latency_us :: u64
  ms_collect_latency_p50_us :: u64
  ms_collect_latency_p95_us :: u64
  ms_cache_hit_rate_bps :: u64
  ms_cache_miss_rate_bps :: u64
  ms_merge_ratio_bps :: u64

record CacheMetrics =
  cm_cache_hits :: u64
  cm_cache_misses :: u64
  cm_merge_count :: u64
  cm_collect_count :: u64
  cm_collect_latency_total_ns :: u64
  cm_collect_latency_samples_us :: "u64 list"

definition metrics_default :: CacheMetrics where
  "metrics_default = \<lparr>cm_cache_hits = 0, cm_cache_misses = 0, cm_merge_count = 0,
     cm_collect_count = 0, cm_collect_latency_total_ns = 0, cm_collect_latency_samples_us = []\<rparr>"

definition record_hit :: "CacheMetrics \<Rightarrow> CacheMetrics" where
  "record_hit m = m\<lparr>cm_cache_hits := cm_cache_hits m + 1\<rparr>"

definition record_miss :: "CacheMetrics \<Rightarrow> CacheMetrics" where
  "record_miss m = m\<lparr>cm_cache_misses := cm_cache_misses m + 1\<rparr>"

definition record_merge :: "CacheMetrics \<Rightarrow> CacheMetrics" where
  "record_merge m = m\<lparr>cm_merge_count := cm_merge_count m + 1\<rparr>"

definition push_sample :: "u64 list \<Rightarrow> u64 \<Rightarrow> u64 list" where
  "push_sample samples us =
     (if length samples = LATENCY_SAMPLE_LIMIT then tl samples else samples) @ [us]"

definition record_collect_latency :: "CacheMetrics \<Rightarrow> nat \<Rightarrow> CacheMetrics" where
  "record_collect_latency m elapsed =
     (let elapsed_us = clamp_u64 (elapsed div 1000) in
      m\<lparr>cm_collect_count := cm_collect_count m + 1,
        cm_collect_latency_total_ns := cm_collect_latency_total_ns m + clamp_u64 elapsed,
        cm_collect_latency_samples_us := push_sample (cm_collect_latency_samples_us m) elapsed_us\<rparr>)"

definition ratio_bps :: "u64 \<Rightarrow> u64 \<Rightarrow> u64" where
  "ratio_bps numerator denominator =
     (if denominator = 0 then 0 else saturating_mul numerator 10000 div denominator)"

definition percentile_rank :: "nat \<Rightarrow> u64 \<Rightarrow> u64" where
  "percentile_rank n percentile =
     min (saturating_sub (saturating_add (word_of_nat n * percentile) 99 div 100) 1)
       (word_of_nat n - 1)"

definition percentile_us :: "u64 list \<Rightarrow> u64 \<Rightarrow> u64" where
  "percentile_us samples percentile =
     (if samples = [] then 0
      else sort samples ! unat (percentile_rank (length samples) percentile))"

definition metrics_snapshot :: "CacheMetrics \<Rightarrow> CacheMetricsSnapshot" where
  "metrics_snapshot m =
     (let hits = cm_cache_hits m; misses = cm_cache_misses m;
          total_requests = hits + misses; samples = cm_collect_latency_samples_us m in
      \<lparr>ms_cache_hits = hits, ms_cache_misses = misses, ms_merge_count = cm_merge_count m,
       ms_collect_count = cm_collect_count m,
       ms_avg_collect_latency_us =
         (if cm_collect_count m = 0 then 0
          else cm_collect_latency_total_ns m div cm_collect_count m div 1000),
       ms_collect_latency_p50_us = percentile_us samples 50,
       ms_collect_latency_p95_us = percentile_us samples 95,
       ms_cache_hit_rate_bps = ratio_bps hits total_requests,
       ms_cache_miss_rate_bps = ratio_bps misses total_requests,
       ms_merge_ratio_bps = ratio_bps (cm_merge_count m) misses\<rparr>)"

section \<open>The cache\<close>

record RefreshState =
  rf_in_flight :: bool
  rf_generation :: u64
  rf_last_error :: "ErrorCode option"

record GresCache =
  gc_entry :: "CacheEntry option"
  gc_refresh_state :: RefreshState
  gc_metrics :: CacheMetrics

definition gres_cache_new :: GresCache where
  "gres_cache_new = \<lparr>gc_entry = None,
     gc_refresh_state = \<lparr>rf_in_flight = False, rf_generation = 0, rf_last_error = None\<rparr>,
     gc_metrics = metrics_default\<rparr>"

definition cache_metrics :: "GresCache \<Rightarrow> CacheMetricsSnapshot" where
  "cache_metrics c = metrics_snapshot (gc_metrics c)"

definition latest :: "GresCache \<Rightarrow> CacheEntry option" where
  "latest c = gc_entry c"

definition get_fresh :: "GresCache \<Rightarrow> u64 \<Rightarrow> instant \<Rightarrow> CacheEntry option" where
  "get_fresh c ttl_ms now =
     (case gc_entry c of None \<Rightarrow> None
      | Some entry \<Rightarrow> if \<not> is_expired entry ttl_ms now then Some entry else None)"

definition store :: "GresCache \<Rightarrow> CacheEntry \<Rightarrow> GresCache" where
  "store c entry = c\<lparr>gc_entry := Some entry\<rparr>"

text \<open>The shared state that \<open>finish_refresh\<close> leaves; waking the waiters is a step of
  \<open>Cache_Concurrency\<close>.\<close>

definition finish_refresh :: "GresCache \<Rightarrow> ErrorCode option \<Rightarrow> GresCache" where
  "finish_refresh c err =
     c\<lparr>gc_refresh_state := \<lparr>rf_in_flight = False,
        rf_generation = rf_generation (gc_refresh_state c) + 1, rf_last_error = err\<rparr>\<rparr>"

definition begin_refresh :: "GresCache \<Rightarrow> GresCache" where
  "begin_refresh c =
     c\<lparr>gc_refresh_state := (gc_refresh_state c)\<lparr>rf_in_flight := True, rf_last_error := None\<rparr>\<rparr>"

definition update_metrics :: "(CacheMetrics \<Rightarrow> CacheMetrics) \<Rightarrow> GresCache \<Rightarrow> GresCache" where
  "update_metrics f c = c\<lparr>gc_metrics := f (gc_metrics c)\<rparr>"

definition entry_of_collect ::
    "ErrorCode + ServerGresSnapshot \<Rightarrow> instant \<Rightarrow> ErrorCode + CacheEntry" where
  "entry_of_collect collected now =
     and_then collected (\<lambda>snapshot.
       Ok \<lparr>ce_snapshot = omit_process_commands snapshot, ce_collected_at = now\<rparr>)"

definition complete_refresh :: "GresCache \<Rightarrow> ErrorCode + CacheEntry \<Rightarrow> GresCache" where
  "complete_refresh c result =
     (case result of Ok entry \<Rightarrow> finish_refresh (store c entry) None
      | Err e \<Rightarrow> finish_refresh c (Some e))"

text \<open>The clock readings of one call, in the order in which it takes them: the first check, the
  check under the lock, the start of the collection, its time stamp and its end.\<close>

record call_times =
  at_first :: instant
  at_locked :: instant
  at_started :: instant
  at_collected :: instant
  at_finished :: instant

text \<open>One call that no other thread interleaves with. The result is \<open>None\<close> when the call
  blocks on the condition variable, which happens exactly when a refresh is in flight;
  the cache is then the one it blocks with. The branch on a changed generation needs a
  concurrent refresh between the two checks and appears in \<open>Cache_Concurrency\<close>.\<close>

definition get_or_refresh ::
    "GresCache \<Rightarrow> (ErrorCode + ServerGresSnapshot) \<Rightarrow> u64 \<Rightarrow> call_times
      \<Rightarrow> GresCache \<times> (ErrorCode + CacheEntry) option" where
  "get_or_refresh c collected ttl_ms ts =
     (case get_fresh c ttl_ms (at_first ts) of
        Some hit \<Rightarrow> (update_metrics record_hit c, Some (Ok hit))
      | None \<Rightarrow>
          let c = update_metrics record_miss c in
          case get_fresh c ttl_ms (at_locked ts) of
            Some hit \<Rightarrow> (c, Some (Ok hit))
          | None \<Rightarrow>
              if rf_in_flight (gc_refresh_state c) then (update_metrics record_merge c, None)
              else let c = begin_refresh c;
                       result = entry_of_collect collected (at_collected ts);
                       c = update_metrics (\<lambda>m. record_collect_latency m
                             (at_finished ts - at_started ts)) c
                   in (complete_refresh c result, Some result))"

definition get_latest_or_refresh ::
    "GresCache \<Rightarrow> (ErrorCode + ServerGresSnapshot) \<Rightarrow> u64 \<Rightarrow> call_times
      \<Rightarrow> GresCache \<times> (ErrorCode + CacheEntry) option" where
  "get_latest_or_refresh c collected ttl_ms ts =
     (case latest c of
        Some entry \<Rightarrow> (update_metrics record_hit c, Some (Ok entry))
      | None \<Rightarrow> get_or_refresh c collected ttl_ms ts)"

lemmas cache_op_defs =
  store_def finish_refresh_def begin_refresh_def update_metrics_def complete_refresh_def
  entry_of_collect_def

section \<open>The latency window\<close>

lemma length_push_sample: "length xs \<le> LATENCY_SAMPLE_LIMIT \<Longrightarrow>
    length (push_sample xs x) \<le> LATENCY_SAMPLE_LIMIT"
  by (simp add: push_sample_def LATENCY_SAMPLE_LIMIT_def)

lemma push_sample_window:
  "push_sample (drop (length xs - LATENCY_SAMPLE_LIMIT) xs) x =
     drop (length (xs @ [x]) - LATENCY_SAMPLE_LIMIT) (xs @ [x])"
proof (cases "LATENCY_SAMPLE_LIMIT \<le> length xs")
  case True
  then have "tl (drop (length xs - LATENCY_SAMPLE_LIMIT) xs) =
      drop (Suc (length xs) - LATENCY_SAMPLE_LIMIT) xs"
    by (simp add: Suc_diff_le drop_Suc tl_drop)
  with True show ?thesis by (simp add: push_sample_def LATENCY_SAMPLE_LIMIT_def)
next
  case False
  then show ?thesis by (simp add: push_sample_def LATENCY_SAMPLE_LIMIT_def)
qed

lemma samples_window:
  "foldl push_sample [] xs = drop (length xs - LATENCY_SAMPLE_LIMIT) xs"
  by (induction xs rule: rev_induct) (simp_all add: push_sample_window)

section \<open>Percentiles\<close>

lemma percentile_rank_value:
  assumes n: "0 < n" "n \<le> 128" and p: "0 < p" "p \<le> 100"
  shows "unat (percentile_rank n (word_of_nat p)) = (n * p + 99) div 100 - 1"
proof -
  have le: "n * p \<le> 12800"
    using mult_le_mono [OF n(2) p(2)] by simp
  have pos: "0 < n * p" using n p by simp
  have np: "unat (word_of_nat n * word_of_nat p :: u64) = n * p"
    using le by (simp add: of_nat_mult [symmetric] unat_word_of_length del: of_nat_mult)
  then have a: "unat (saturating_add (word_of_nat n * word_of_nat p) 99) = n * p + 99"
    using le by (simp add: saturating_add_def unat_word_ariths)
  then have d: "unat (saturating_add (word_of_nat n * word_of_nat p) 99 div 100 :: u64) =
      (n * p + 99) div 100"
    by (simp add: unat_div)
  have "(n * p + 99) div 100 \<ge> 100 div 100" using pos by (intro div_le_mono) linarith
  then have "(n * p + 99) div 100 \<ge> 1" by simp
  with d have s: "unat (saturating_sub (saturating_add (word_of_nat n * word_of_nat p) 99 div 100) 1) =
      (n * p + 99) div 100 - 1"
    by (simp add: saturating_sub_def word_less_nat_alt unat_sub_if')
  have m: "unat (word_of_nat n - 1 :: u64) = n - 1"
    using n by (simp add: unat_sub_if' unat_word_of_length)
  have "n * p \<le> n * 100" using p by simp
  then have "(n * p + 99) div 100 \<le> (n * 100 + 99) div 100" by (intro div_le_mono) simp
  then have "(n * p + 99) div 100 - 1 \<le> n - 1" by simp
  with s m show ?thesis
    by (simp add: percentile_rank_def min_def word_le_nat_alt)
qed

lemma nearest_rank_bounds:
  fixes m :: nat
  assumes "0 < m"
  shows "100 * ((m + 99) div 100 - 1) < m" "m \<le> 100 * Suc ((m + 99) div 100 - 1)"
proof -
  define q where "q = (m + 99) div 100"
  have "100 * q \<le> m + 99" "m + 99 < 100 * Suc q" "100 div 100 \<le> q"
    using assms dividend_less_times_div [of 100 "m + 99"] unfolding q_def
    by (simp_all only: times_div_less_eq_dividend, simp_all add: div_le_mono)
  then show "100 * ((m + 99) div 100 - 1) < m" "m \<le> 100 * Suc ((m + 99) div 100 - 1)"
    unfolding q_def [symmetric] by simp_all
qed

lemma sorted_nth_counts:
  fixes xs :: "'a::linorder list"
  assumes "sorted xs" "r < length xs"
  shows "Suc r \<le> length (filter (\<lambda>x. x \<le> xs ! r) xs)"
    and "length (filter (\<lambda>x. x < xs ! r) xs) \<le> r"
proof -
  let ?a = "take (Suc r) xs" and ?b = "drop r xs"
  have "\<forall>x \<in> set ?a. x \<le> xs ! r"
    using assms by (auto simp: in_set_conv_nth sorted_nth_mono)
  then have "length (filter (\<lambda>x. x \<le> xs ! r) ?a) = Suc r"
    using assms by (simp add: filter_True)
  moreover have "filter (\<lambda>x. x \<le> xs ! r) xs =
      filter (\<lambda>x. x \<le> xs ! r) ?a @ filter (\<lambda>x. x \<le> xs ! r) (drop (Suc r) xs)"
    by (metis append_take_drop_id filter_append)
  ultimately show "Suc r \<le> length (filter (\<lambda>x. x \<le> xs ! r) xs)" by simp
  have "\<forall>x \<in> set ?b. \<not> x < xs ! r"
    using assms by (auto simp: in_set_conv_nth not_less sorted_nth_mono)
  then have "filter (\<lambda>x. x < xs ! r) ?b = []" by (simp add: filter_empty_conv)
  moreover have "filter (\<lambda>x. x < xs ! r) xs =
      filter (\<lambda>x. x < xs ! r) (take r xs) @ filter (\<lambda>x. x < xs ! r) ?b"
    by (metis append_take_drop_id filter_append)
  ultimately show "length (filter (\<lambda>x. x < xs ! r) xs) \<le> r"
    using length_filter_le [of "\<lambda>x. x < xs ! r" "take r xs"] by simp
qed

lemma length_filter_sort: "length (filter P (sort xs)) = length (filter P xs)"
  by (metis filter_sort length_sort)

section \<open>Ratios\<close>

lemma two_shares: "a * k div (a + b) + b * k div (a + b) \<le> (k :: nat)"
proof -
  have "a * k div (a + b) + b * k div (a + b) \<le> (a * k + b * k) div (a + b)"
    by (simp only: div_add1_eq [of "a * k" "b * k"] le_add1)
  also have "\<dots> \<le> k" by (cases "a + b = 0") (simp_all add: distrib_right [symmetric])
  finally show ?thesis .
qed

lemma ratio_bps_value:
  assumes "unat n * 10000 < 2 ^ 64"
  shows "unat (ratio_bps n d) = unat n * 10000 div unat d"
  using assms by (auto simp: ratio_bps_def saturating_mul_def unat_div unat_word_ariths)

section \<open>Lookups and refreshes\<close>

lemma get_fresh_SomeD:
  "get_fresh c ttl now = Some e \<Longrightarrow> gc_entry c = Some e \<and> \<not> is_expired e ttl now"
  by (auto simp: get_fresh_def split: option.splits if_splits)

lemma get_fresh_None_iff:
  "get_fresh c ttl now = None \<longleftrightarrow> (\<forall>e. gc_entry c = Some e \<longrightarrow> is_expired e ttl now)"
  by (auto simp: get_fresh_def split: option.splits)

lemma get_fresh_metrics [simp]: "get_fresh (update_metrics f c) ttl now = get_fresh c ttl now"
  by (simp add: get_fresh_def update_metrics_def)

lemma cache_op_fields [simp]:
  "gc_entry (update_metrics f c) = gc_entry c"
  "gc_refresh_state (update_metrics f c) = gc_refresh_state c"
  "gc_entry (begin_refresh c) = gc_entry c"
  "gc_entry (finish_refresh c err) = gc_entry c"
  "gc_entry (store c e) = Some e"
  "gc_refresh_state (store c e) = gc_refresh_state c"
  "rf_in_flight (gc_refresh_state (finish_refresh c err)) = False"
  "rf_generation (gc_refresh_state (finish_refresh c err)) = rf_generation (gc_refresh_state c) + 1"
  "rf_last_error (gc_refresh_state (finish_refresh c err)) = err"
  "rf_in_flight (gc_refresh_state (begin_refresh c)) = True"
  "rf_generation (gc_refresh_state (begin_refresh c)) = rf_generation (gc_refresh_state c)"
  "gc_metrics (store c e) = gc_metrics c" "gc_metrics (finish_refresh c err) = gc_metrics c"
  "gc_metrics (begin_refresh c) = gc_metrics c"
  "gc_metrics (update_metrics f c) = f (gc_metrics c)"
  by (simp_all add: cache_op_defs)

text \<open>What is cached never names a command line, and a refresh that ended has cleared its flag.\<close>

definition clean_entry :: "CacheEntry \<Rightarrow> bool" where
  "clean_entry e \<longleftrightarrow> omit_process_commands (ce_snapshot e) = ce_snapshot e"

definition cache_wf :: "GresCache \<Rightarrow> bool" where
  "cache_wf c \<longleftrightarrow> \<not> rf_in_flight (gc_refresh_state c)
     \<and> (\<forall>e. gc_entry c = Some e \<longrightarrow> clean_entry e)
     \<and> length (cm_collect_latency_samples_us (gc_metrics c)) \<le> LATENCY_SAMPLE_LIMIT"

lemma entry_of_collect_clean: "entry_of_collect r now = Ok e \<Longrightarrow> clean_entry e"
  by (auto simp: entry_of_collect_def clean_entry_def result_simps)

lemma metrics_samples [simp]:
  "cm_collect_latency_samples_us (record_hit m) = cm_collect_latency_samples_us m"
  "cm_collect_latency_samples_us (record_miss m) = cm_collect_latency_samples_us m"
  "cm_collect_latency_samples_us (record_merge m) = cm_collect_latency_samples_us m"
  "cm_collect_latency_samples_us (record_collect_latency m el) =
     push_sample (cm_collect_latency_samples_us m) (clamp_u64 (el div 1000))"
  "cm_collect_count (record_collect_latency m el) = cm_collect_count m + 1"
  by (simp_all add: record_hit_def record_miss_def record_merge_def record_collect_latency_def Let_def)

lemma gres_cache_new_wf: "cache_wf gres_cache_new"
  by (simp add: cache_wf_def gres_cache_new_def metrics_default_def)

text \<open>The call as one equation per branch, for a cache that no refresh holds.\<close>

lemma get_or_refresh_hit:
  "get_fresh c ttl (at_first ts) = Some e \<Longrightarrow>
     get_or_refresh c r ttl ts = (update_metrics record_hit c, Some (Ok e))"
  by (simp add: get_or_refresh_def)

lemma get_or_refresh_late_hit:
  "get_fresh c ttl (at_first ts) = None \<Longrightarrow> get_fresh c ttl (at_locked ts) = Some e \<Longrightarrow>
     get_or_refresh c r ttl ts = (update_metrics record_miss c, Some (Ok e))"
  by (simp add: get_or_refresh_def)

definition refreshed :: "GresCache \<Rightarrow> (ErrorCode + ServerGresSnapshot) \<Rightarrow> call_times \<Rightarrow> GresCache" where
  "refreshed c r ts =
     complete_refresh (update_metrics (\<lambda>m. record_collect_latency m (at_finished ts - at_started ts))
       (begin_refresh (update_metrics record_miss c))) (entry_of_collect r (at_collected ts))"

lemma get_or_refresh_miss:
  "get_fresh c ttl (at_first ts) = None \<Longrightarrow> get_fresh c ttl (at_locked ts) = None \<Longrightarrow>
   \<not> rf_in_flight (gc_refresh_state c) \<Longrightarrow>
     get_or_refresh c r ttl ts = (refreshed c r ts, Some (entry_of_collect r (at_collected ts)))"
  by (simp add: get_or_refresh_def refreshed_def Let_def)

lemma get_or_refresh_cases:
  assumes "\<not> rf_in_flight (gc_refresh_state c)"
  obtains (hit) e m where "get_or_refresh c r ttl ts = (update_metrics m c, Some (Ok e))"
      "gc_entry c = Some e" "m = record_hit \<or> m = record_miss"
      "\<not> is_expired e ttl (at_first ts) \<or> \<not> is_expired e ttl (at_locked ts)"
  | (miss) "get_or_refresh c r ttl ts = (refreshed c r ts, Some (entry_of_collect r (at_collected ts)))"
      "get_fresh c ttl (at_first ts) = None" "get_fresh c ttl (at_locked ts) = None"
proof (cases "get_fresh c ttl (at_first ts)")
  case (Some e)
  with hit [of record_hit e] get_fresh_SomeD [OF Some] show ?thesis
    by (simp add: get_or_refresh_hit)
next
  case None
  note first = this
  show ?thesis
  proof (cases "get_fresh c ttl (at_locked ts)")
    case None
    with first assms miss show ?thesis by (simp add: get_or_refresh_miss)
  next
    case (Some e)
    with first hit [of record_miss e] get_fresh_SomeD [OF Some] show ?thesis
      by (simp add: get_or_refresh_late_hit)
  qed
qed

lemma refreshed_entry:
  "gc_entry (refreshed c r ts) = (case entry_of_collect r (at_collected ts) of
     Ok e \<Rightarrow> Some e | Err _ \<Rightarrow> gc_entry c)"
  "\<not> rf_in_flight (gc_refresh_state (refreshed c r ts))"
  "rf_generation (gc_refresh_state (refreshed c r ts)) = rf_generation (gc_refresh_state c) + 1"
  "cm_collect_latency_samples_us (gc_metrics (refreshed c r ts)) =
     push_sample (cm_collect_latency_samples_us (gc_metrics c))
       (clamp_u64 ((at_finished ts - at_started ts) div 1000))"
  by (simp_all add: refreshed_def complete_refresh_def split: sum.splits)

lemma refreshed_wf: "cache_wf c \<Longrightarrow> cache_wf (refreshed c r ts)"
  by (auto simp: cache_wf_def refreshed_entry length_push_sample
      split: sum.splits intro: entry_of_collect_clean)

lemma update_metrics_wf:
  "cache_wf c \<Longrightarrow> m = record_hit \<or> m = record_miss \<Longrightarrow> cache_wf (update_metrics m c)"
  by (auto simp: cache_wf_def)

lemma cache_wf_idle: "cache_wf c \<Longrightarrow> \<not> rf_in_flight (gc_refresh_state c)"
  by (simp add: cache_wf_def)

lemma get_or_refresh_wf: "cache_wf c \<Longrightarrow> cache_wf (fst (get_or_refresh c r ttl ts))"
  by (rule get_or_refresh_cases [OF cache_wf_idle, of c r ttl ts])
    (simp_all add: refreshed_wf update_metrics_wf)

lemma get_latest_or_refresh_wf: "cache_wf c \<Longrightarrow> cache_wf (fst (get_latest_or_refresh c r ttl ts))"
  by (simp add: get_latest_or_refresh_def get_or_refresh_wf update_metrics_wf split: option.splits)

lemma not_expired:
  "(now - ce_collected_at e) div 1000000 < unat ttl \<Longrightarrow> \<not> is_expired e ttl now"
proof -
  assume "(now - ce_collected_at e) div 1000000 < unat ttl"
  moreover have "unat ttl < 2 ^ LENGTH(64)" by (rule unsigned_less)
  ultimately show ?thesis by (simp add: is_expired_def word_le_nat_alt unat_word_of_length)
qed

section \<open>Properties\<close>

text \<open>C13: a call on a cache that no refresh holds always answers. It keeps the cache
  well-formed; an answered entry is the cached one, carries no command line and is either
  unexpired at one of the two checks or the collection just made; an error is the
  collector's own, leaves the old entry in place and is recorded for waiting callers.\<close>

theorem get_or_refresh_correct:
  assumes "cache_wf c"
  shows "\<exists>c' res. get_or_refresh c collected ttl ts = (c', Some res) \<and> cache_wf c'
    \<and> (\<forall>e. res = Ok e \<longrightarrow> gc_entry c' = Some e \<and> clean_entry e
        \<and> (gc_entry c = Some e \<and> (\<not> is_expired e ttl (at_first ts) \<or> \<not> is_expired e ttl (at_locked ts))
           \<or> ce_collected_at e = at_collected ts
             \<and> (\<exists>s. collected = Ok s \<and> ce_snapshot e = omit_process_commands s)))
    \<and> (\<forall>x. res = Err x \<longrightarrow> collected = Err x \<and> gc_entry c' = gc_entry c
        \<and> get_fresh c ttl (at_first ts) = None
        \<and> rf_last_error (gc_refresh_state c') = Some x)"
proof -
  from assms have wf: "cache_wf (fst (get_or_refresh c collected ttl ts))"
    by (rule get_or_refresh_wf)
  from cache_wf_idle [OF assms] show ?thesis
  proof (cases rule: get_or_refresh_cases [of c collected ttl ts])
    case (hit e m)
    with assms wf show ?thesis by (auto simp: cache_wf_def)
  next
    case miss
    with wf have "cache_wf (refreshed c collected ts)" by simp
    with miss show ?thesis
      by (cases collected) (auto simp: refreshed_entry entry_of_collect_def clean_entry_def
          refreshed_def complete_refresh_def)
  qed
qed

theorem get_or_refresh_correct_witness:
  "\<exists>c' e. get_or_refresh gres_cache_new (Ok sample_snapshot) 1000
      \<lparr>at_first = 1, at_locked = 2, at_started = 3, at_collected = 4, at_finished = 5\<rparr> = (c', Some (Ok e))
    \<and> gc_entry c' = Some e \<and> clean_entry e \<and> ce_collected_at e = 4"
proof -
  let ?ts = "\<lparr>at_first = 1, at_locked = 2, at_started = 3, at_collected = 4, at_finished = 5\<rparr>"
  have "gc_entry gres_cache_new = None" by (simp add: gres_cache_new_def)
  moreover from get_or_refresh_correct [OF gres_cache_new_wf, of "Ok sample_snapshot" 1000 ?ts]
  obtain c' res where "get_or_refresh gres_cache_new (Ok sample_snapshot) 1000 ?ts = (c', Some res)"
    and "\<forall>e. res = Ok e \<longrightarrow> gc_entry c' = Some e \<and> clean_entry e
        \<and> (gc_entry gres_cache_new = Some e \<and> (\<not> is_expired e 1000 (at_first ?ts)
              \<or> \<not> is_expired e 1000 (at_locked ?ts))
           \<or> ce_collected_at e = at_collected ?ts
             \<and> (\<exists>s. Ok sample_snapshot = Ok s \<and> ce_snapshot e = omit_process_commands s))"
    and "\<forall>x. res = Err x \<longrightarrow> Ok sample_snapshot = Err x"
    by blast
  ultimately show ?thesis by (cases res) auto
qed

text \<open>A successful collection serves every later call that starts within the time to live:
  such a call returns the same entry, does not collect and counts one hit.\<close>

theorem refresh_serves_until_ttl:
  assumes "cache_wf c" and "get_fresh c ttl (at_first ts) = None"
    and "get_fresh c ttl (at_locked ts) = None" and "collected = Ok s"
    and "(at_first ts' - at_collected ts) div 1000000 < unat ttl"
  shows "\<exists>c' e. get_or_refresh c collected ttl ts = (c', Some (Ok e))
    \<and> get_or_refresh c' collected' ttl ts' = (update_metrics record_hit c', Some (Ok e))"
proof -
  let ?e = "\<lparr>ce_snapshot = omit_process_commands s, ce_collected_at = at_collected ts\<rparr>"
  let ?c' = "refreshed c collected ts"
  have first: "get_or_refresh c collected ttl ts = (?c', Some (Ok ?e))"
    using assms cache_wf_idle by (simp add: get_or_refresh_miss entry_of_collect_def)
  have "get_fresh ?c' ttl (at_first ts') = Some ?e"
    using assms(4, 5) not_expired [of "at_first ts'" ?e ttl]
    by (simp add: get_fresh_def refreshed_entry entry_of_collect_def)
  then show ?thesis using first by (simp add: get_or_refresh_hit)
qed

theorem refresh_serves_until_ttl_witness:
  "\<exists>c' e. get_or_refresh gres_cache_new (Ok sample_snapshot) 1000
      \<lparr>at_first = 1, at_locked = 2, at_started = 3, at_collected = 4, at_finished = 5\<rparr> = (c', Some (Ok e))
    \<and> get_or_refresh c' (Err Internal) 1000
      \<lparr>at_first = 900, at_locked = 901, at_started = 902, at_collected = 903, at_finished = 904\<rparr> =
      (update_metrics record_hit c', Some (Ok e))"
  by (rule refresh_serves_until_ttl [OF gres_cache_new_wf])
    (simp_all add: get_fresh_def gres_cache_new_def)

text \<open>The reported latency percentiles are nearest-rank percentiles of the window: the
  value is a sample, at least the requested share of the samples is not above it and less
  than that share lies strictly below it.\<close>

theorem percentile_nearest_rank:
  assumes "xs \<noteq> []" and "length xs \<le> LATENCY_SAMPLE_LIMIT" and "0 < p" and "p \<le> 100"
  shows "percentile_us xs (word_of_nat p) \<in> set xs
    \<and> p * length xs \<le> 100 * length (filter (\<lambda>x. x \<le> percentile_us xs (word_of_nat p)) xs)
    \<and> 100 * length (filter (\<lambda>x. x < percentile_us xs (word_of_nat p)) xs) < p * length xs"
proof -
  let ?n = "length xs" and ?r = "(length xs * p + 99) div 100 - 1"
  have n: "0 < ?n" "?n \<le> 128" using assms by (simp_all add: LATENCY_SAMPLE_LIMIT_def)
  have pos: "0 < ?n * p" and up: "?n * p \<le> ?n * 100" using n assms by simp_all
  have v: "percentile_us xs (word_of_nat p) = sort xs ! ?r"
    using assms percentile_rank_value [OF n assms(3, 4)] by (simp add: percentile_us_def)
  have r: "?r < length (sort xs)" "100 * ?r < ?n * p" "?n * p \<le> 100 * Suc ?r"
    using nearest_rank_bounds [OF pos] up by (simp_all, linarith)
  have "sort xs ! ?r \<in> set xs" using nth_mem [OF r(1)] by simp
  moreover note sorted_nth_counts [OF sorted_sort r(1)]
  ultimately show ?thesis using r(2, 3)
    by (simp add: v length_filter_sort mult.commute [of p]) linarith
qed

theorem percentile_nearest_rank_witness:
  "percentile_us [40, 10, 30, 20] 50 \<in> set [40, 10, 30, 20]
   \<and> percentile_us [40, 10, 30, 20] 50 = 20"
proof -
  have "percentile_us [40, 10, 30, 20] (word_of_nat 50) \<in> set [40, 10, 30, 20]"
    by (rule conjunct1 [OF percentile_nearest_rank])
      (simp_all add: LATENCY_SAMPLE_LIMIT_def)
  moreover have "percentile_us [40, 10, 30, 20] (word_of_nat 50) = 20"
    unfolding percentile_us_def
    using percentile_rank_value [of "length [40, 10, 30, 20 :: u64]" 50]
    by (simp add: word_less_nat_alt)
  ultimately show ?thesis by simp
qed

text \<open>After any number of collections the latency window holds exactly the most recent 128
  latencies in order, and the collection counter is their number modulo \<open>2 ^ 64\<close>.\<close>

theorem latency_window_exact:
  "cm_collect_latency_samples_us (foldl record_collect_latency metrics_default els) =
     drop (length els - LATENCY_SAMPLE_LIMIT) (map (\<lambda>el. clamp_u64 (el div 1000)) els)
   \<and> cm_collect_count (foldl record_collect_latency metrics_default els) = word_of_nat (length els)"
proof (induction els rule: rev_induct)
  case Nil
  then show ?case by (simp add: metrics_default_def)
next
  case (snoc x els)
  then show ?case
    using push_sample_window [of "map (\<lambda>el. clamp_u64 (el div 1000)) els" "clamp_u64 (x div 1000)"]
    by (simp add: add.commute)
qed

text \<open>While the request counters are below \<open>2 ^ 64 / 10000\<close>, the reported hit and miss
  rates are the exact ratios in basis points, and together they never exceed 10000.\<close>

theorem hit_rates_exact:
  assumes "(unat (cm_cache_hits m) + unat (cm_cache_misses m)) * 10000 < 2 ^ 64"
  shows "let h = unat (cm_cache_hits m); n = h + unat (cm_cache_misses m); s = metrics_snapshot m in
    unat (ms_cache_hit_rate_bps s) = h * 10000 div n
    \<and> unat (ms_cache_miss_rate_bps s) = (n - h) * 10000 div n
    \<and> unat (ms_cache_hit_rate_bps s) + unat (ms_cache_miss_rate_bps s) \<le> 10000"
proof -
  let ?h = "unat (cm_cache_hits m)" and ?k = "unat (cm_cache_misses m)"
  have t: "unat (cm_cache_hits m + cm_cache_misses m) = ?h + ?k"
    using assms by (simp add: unat_word_ariths)
  have v: "unat (ratio_bps (cm_cache_hits m) (cm_cache_hits m + cm_cache_misses m)) = ?h * 10000 div (?h + ?k)"
    "unat (ratio_bps (cm_cache_misses m) (cm_cache_hits m + cm_cache_misses m)) = ?k * 10000 div (?h + ?k)"
    using assms t by (simp_all add: ratio_bps_value)
  with two_shares [of ?h 10000 ?k] show ?thesis by (simp add: metrics_snapshot_def Let_def)
qed

theorem hit_rates_exact_witness:
  "let m = metrics_default\<lparr>cm_cache_hits := 3, cm_cache_misses := 1\<rparr> in
    unat (ms_cache_hit_rate_bps (metrics_snapshot m)) = 7500"
  using hit_rates_exact [of "metrics_default\<lparr>cm_cache_hits := 3, cm_cache_misses := 1\<rparr>"]
  by (simp add: Let_def)

end
