(* ===== verification/Cache_Concurrency.thy ===== *)
theory Cache_Concurrency
  imports Server_Cache
begin

text \<open>
  Any number of threads inside \<open>get_or_refresh\<close> and \<open>get_latest_or_refresh\<close> of
  \<^verbatim>\<open>crates/server/src/cache.rs\<close>, as a labelled step relation. A program counter per thread
  marks the points between which the source is atomic: the read lock of the entry, the
  critical sections under the refresh mutex and the condition variable. The mutex has an
  owner; waiting releases it and waking takes it again; wake-ups may be spurious; the
  clock advances and the collector answers as they like. Lock poisoning (a panic inside a
  critical section) is outside the model.
\<close>

section \<open>States and steps\<close>

type_synonym tid = nat

datatype pc =
    Idle
  | StartLatest
  | Start
  | Acquire
  | CheckFresh u64
  | CheckState u64
  | Waiting u64
  | Reacquire u64
  | Collecting instant
  | Storing CacheEntry
  | Finishing "ErrorCode + CacheEntry"
  | Done "ErrorCode + CacheEntry"

record cstate =
  cs_cache :: GresCache
  cs_now :: instant
  cs_lock :: "tid option"
  cs_pc :: "tid \<Rightarrow> pc"

datatype action =
    Call
  | CallLatest
  | Advance
  | Collect "ErrorCode + ServerGresSnapshot"
  | Spurious
  | Return
  | Tick nat

definition at_pc :: "cstate \<Rightarrow> tid \<Rightarrow> pc \<Rightarrow> cstate" where
  "at_pc s t p = s\<lparr>cs_pc := (cs_pc s)(t := p)\<rparr>"

definition unlock_to :: "cstate \<Rightarrow> tid \<Rightarrow> pc \<Rightarrow> cstate" where
  "unlock_to s t p = s\<lparr>cs_lock := None, cs_pc := (cs_pc s)(t := p)\<rparr>"

definition with_cache :: "(GresCache \<Rightarrow> GresCache) \<Rightarrow> cstate \<Rightarrow> cstate" where
  "with_cache f s = s\<lparr>cs_cache := f (cs_cache s)\<rparr>"

text \<open>\<open>Condvar::notify_all\<close>.\<close>

definition wake :: "pc \<Rightarrow> pc" where
  "wake p = (case p of Waiting g \<Rightarrow> Reacquire g | _ \<Rightarrow> p)"

text \<open>One deterministic step of a thread at its program counter, if it is enabled.\<close>

definition thread_step :: "u64 \<Rightarrow> cstate \<Rightarrow> tid \<Rightarrow> cstate option" where
  "thread_step ttl s t =
     (let c = cs_cache s; rs = gc_refresh_state c in
      case cs_pc s t of
        StartLatest \<Rightarrow> Some (case latest c of
            Some e \<Rightarrow> at_pc (with_cache (update_metrics record_hit) s) t (Done (Ok e))
          | None \<Rightarrow> at_pc s t Start)
      | Start \<Rightarrow> Some (case get_fresh c ttl (cs_now s) of
            Some e \<Rightarrow> at_pc (with_cache (update_metrics record_hit) s) t (Done (Ok e))
          | None \<Rightarrow> at_pc (with_cache (update_metrics record_miss) s) t Acquire)
      | Acquire \<Rightarrow> (if cs_lock s = None
            then Some (at_pc (s\<lparr>cs_lock := Some t\<rparr>) t (CheckFresh (rf_generation rs)))
            else None)
      | CheckFresh g \<Rightarrow> Some (case get_fresh c ttl (cs_now s) of
            Some e \<Rightarrow> unlock_to s t (Done (Ok e))
          | None \<Rightarrow> at_pc s t (CheckState g))
      | CheckState g \<Rightarrow> Some (
            if rf_generation rs \<noteq> g
            then unlock_to s t (Done (Err (case rf_last_error rs of Some e \<Rightarrow> e | None \<Rightarrow> Internal)))
            else if \<not> rf_in_flight rs
            then unlock_to (with_cache begin_refresh s) t (Collecting (cs_now s))
            else unlock_to (with_cache (update_metrics record_merge) s) t (Waiting g))
      | Reacquire g \<Rightarrow> (if cs_lock s = None
            then Some (at_pc (s\<lparr>cs_lock := Some t\<rparr>) t (CheckFresh g)) else None)
      | Storing e \<Rightarrow> Some (at_pc (with_cache (\<lambda>c. store c e) s) t (Finishing (Ok e)))
      | Finishing r \<Rightarrow> (if cs_lock s = None
            then Some (at_pc (s\<lparr>cs_cache := finish_refresh c (case r of Ok _ \<Rightarrow> None | Err e \<Rightarrow> Some e),
                        cs_pc := wake \<circ> cs_pc s\<rparr>) t (Done r))
            else None)
      | _ \<Rightarrow> None)"

definition collect_step :: "cstate \<Rightarrow> tid \<Rightarrow> instant \<Rightarrow> ErrorCode + ServerGresSnapshot \<Rightarrow> cstate" where
  "collect_step s t started r =
     at_pc (with_cache (update_metrics (\<lambda>m. record_collect_latency m (cs_now s - started))) s) t
       (case entry_of_collect r (cs_now s) of Ok e \<Rightarrow> Storing e | Err e \<Rightarrow> Finishing (Err e))"

inductive step :: "u64 \<Rightarrow> cstate \<Rightarrow> tid \<times> action \<Rightarrow> cstate \<Rightarrow> bool" for ttl where
  call: "cs_pc s t = Idle \<Longrightarrow> step ttl s (t, Call) (at_pc s t Start)"
| call_latest: "cs_pc s t = Idle \<Longrightarrow> step ttl s (t, CallLatest) (at_pc s t StartLatest)"
| advance: "thread_step ttl s t = Some s' \<Longrightarrow> step ttl s (t, Advance) s'"
| collect: "cs_pc s t = Collecting t0 \<Longrightarrow> step ttl s (t, Collect r) (collect_step s t t0 r)"
| spurious: "cs_pc s t = Waiting g \<Longrightarrow> step ttl s (t, Spurious) (at_pc s t (Reacquire g))"
| return: "cs_pc s t = Done r \<Longrightarrow> step ttl s (t, Return) (at_pc s t Idle)"
| tick: "step ttl s (t, Tick d) (s\<lparr>cs_now := cs_now s + d\<rparr>)"

inductive_simps step_Collect: "step ttl s (t, Collect r) s'"
inductive_simps step_Advance: "step ttl s (t, Advance) s'"

inductive run :: "u64 \<Rightarrow> cstate \<Rightarrow> (tid \<times> action) list \<Rightarrow> cstate \<Rightarrow> bool" for ttl s where
  run_nil: "run ttl s [] s"
| run_snoc: "run ttl s as s' \<Longrightarrow> step ttl s' a s'' \<Longrightarrow> run ttl s (as @ [a]) s''"

definition cinit :: cstate where
  "cinit = \<lparr>cs_cache = gres_cache_new, cs_now = 0, cs_lock = None, cs_pc = (\<lambda>_. Idle)\<rparr>"

section \<open>Invariants\<close>

definition refreshing :: "pc \<Rightarrow> bool" where
  "refreshing p = (case p of Collecting _ \<Rightarrow> True | Storing _ \<Rightarrow> True | Finishing _ \<Rightarrow> True | _ \<Rightarrow> False)"

definition locked :: "pc \<Rightarrow> bool" where
  "locked p = (case p of CheckFresh _ \<Rightarrow> True | CheckState _ \<Rightarrow> True | _ \<Rightarrow> False)"

text \<open>The mutex has an owner exactly while that thread is in the critical section.\<close>

definition lock_inv :: "cstate \<Rightarrow> bool" where
  "lock_inv s \<longleftrightarrow> (\<forall>t. cs_lock s = Some t \<longleftrightarrow> locked (cs_pc s t))"

text \<open>The flag \<open>in_flight\<close> is set exactly while one thread, and no other, is refreshing.\<close>

definition flight_inv :: "cstate \<Rightarrow> bool" where
  "flight_inv s \<longleftrightarrow>
     (rf_in_flight (gc_refresh_state (cs_cache s)) \<longleftrightarrow> (\<exists>t. refreshing (cs_pc s t)))
     \<and> (\<forall>t t'. refreshing (cs_pc s t) \<longrightarrow> refreshing (cs_pc s t') \<longrightarrow> t = t')"

text \<open>A waiting thread waits for a refresh that is still in flight and that belongs to the
  generation it observed.\<close>

definition wait_inv :: "cstate \<Rightarrow> bool" where
  "wait_inv s \<longleftrightarrow> (\<forall>t g. cs_pc s t = Waiting g \<longrightarrow>
     rf_in_flight (gc_refresh_state (cs_cache s)) \<and> rf_generation (gc_refresh_state (cs_cache s)) = g)"

text \<open>No entry, cached or on its way to the cache or to a caller, names a command line.\<close>

definition clean_pc :: "pc \<Rightarrow> bool" where
  "clean_pc p = (case p of Storing e \<Rightarrow> clean_entry e
     | Finishing (Ok e) \<Rightarrow> clean_entry e | Done (Ok e) \<Rightarrow> clean_entry e | _ \<Rightarrow> True)"

definition clean_inv :: "cstate \<Rightarrow> bool" where
  "clean_inv s \<longleftrightarrow> (\<forall>e. gc_entry (cs_cache s) = Some e \<longrightarrow> clean_entry e) \<and> (\<forall>t. clean_pc (cs_pc s t))"

lemmas state_defs = at_pc_def unlock_to_def with_cache_def collect_step_def wake_def

lemma refreshing_simps [simp]:
  "refreshing (Collecting i)" "refreshing (Storing e)" "refreshing (Finishing r)"
  "\<not> refreshing Idle" "\<not> refreshing StartLatest" "\<not> refreshing Start" "\<not> refreshing Acquire"
  "\<not> refreshing (CheckFresh g)" "\<not> refreshing (CheckState g)" "\<not> refreshing (Waiting g)"
  "\<not> refreshing (Reacquire g)" "\<not> refreshing (Done r)"
  by (simp_all add: refreshing_def)

lemma locked_simps [simp]:
  "locked (CheckFresh g)" "locked (CheckState g)"
  "\<not> locked (Collecting i)" "\<not> locked (Storing e)" "\<not> locked (Finishing r)"
  "\<not> locked Idle" "\<not> locked StartLatest" "\<not> locked Start" "\<not> locked Acquire"
  "\<not> locked (Waiting g)" "\<not> locked (Reacquire g)" "\<not> locked (Done r)"
  by (simp_all add: locked_def)

lemma clean_pc_simps [simp]:
  "clean_pc (Storing e) \<longleftrightarrow> clean_entry e" "clean_pc (Finishing (Ok e)) \<longleftrightarrow> clean_entry e"
  "clean_pc (Done (Ok e)) \<longleftrightarrow> clean_entry e" "clean_pc (Done (Err x))" "clean_pc (Finishing (Err x))"
  "clean_pc (Collecting i)" "clean_pc Idle" "clean_pc StartLatest" "clean_pc Start" "clean_pc Acquire"
  "clean_pc (CheckFresh g)" "clean_pc (CheckState g)" "clean_pc (Waiting g)" "clean_pc (Reacquire g)"
  by (simp_all add: clean_pc_def)

lemma wake_simps [simp]:
  "refreshing (wake p) = refreshing p" "locked (wake p) = locked p" "clean_pc (wake p) = clean_pc p"
  "wake p \<noteq> Waiting g"
  by (simp_all add: wake_def split: pc.splits)

text \<open>The steps of a thread, one case per branch of the source.\<close>

lemma thread_stepE:
  assumes "thread_step ttl s t = Some s'"
  obtains
    (latest_hit) e where "cs_pc s t = StartLatest" "gc_entry (cs_cache s) = Some e"
      "s' = at_pc (with_cache (update_metrics record_hit) s) t (Done (Ok e))"
  | (latest_miss) "cs_pc s t = StartLatest" "gc_entry (cs_cache s) = None" "s' = at_pc s t Start"
  | (hit) e where "cs_pc s t = Start" "get_fresh (cs_cache s) ttl (cs_now s) = Some e"
      "s' = at_pc (with_cache (update_metrics record_hit) s) t (Done (Ok e))"
  | (miss) "cs_pc s t = Start" "get_fresh (cs_cache s) ttl (cs_now s) = None"
      "s' = at_pc (with_cache (update_metrics record_miss) s) t Acquire"
  | (acquire) g where "cs_lock s = None" "cs_pc s t = Acquire \<or> cs_pc s t = Reacquire g"
      "cs_pc s t = Acquire \<longrightarrow> g = rf_generation (gc_refresh_state (cs_cache s))"
      "s' = at_pc (s\<lparr>cs_lock := Some t\<rparr>) t (CheckFresh g)"
  | (late_hit) g e where "cs_pc s t = CheckFresh g" "get_fresh (cs_cache s) ttl (cs_now s) = Some e"
      "s' = unlock_to s t (Done (Ok e))"
  | (stale) g where "cs_pc s t = CheckFresh g" "get_fresh (cs_cache s) ttl (cs_now s) = None"
      "s' = at_pc s t (CheckState g)"
  | (moved_on) g where "cs_pc s t = CheckState g" "rf_generation (gc_refresh_state (cs_cache s)) \<noteq> g"
      "s' = unlock_to s t (Done (Err (case rf_last_error (gc_refresh_state (cs_cache s)) of
         Some e \<Rightarrow> e | None \<Rightarrow> Internal)))"
  | (claim) g where "cs_pc s t = CheckState g" "rf_generation (gc_refresh_state (cs_cache s)) = g"
      "\<not> rf_in_flight (gc_refresh_state (cs_cache s))"
      "s' = unlock_to (with_cache begin_refresh s) t (Collecting (cs_now s))"
  | (join) g where "cs_pc s t = CheckState g" "rf_generation (gc_refresh_state (cs_cache s)) = g"
      "rf_in_flight (gc_refresh_state (cs_cache s))"
      "s' = unlock_to (with_cache (update_metrics record_merge) s) t (Waiting g)"
  | (stored) e where "cs_pc s t = Storing e"
      "s' = at_pc (with_cache (\<lambda>c. store c e) s) t (Finishing (Ok e))"
  | (finished) r where "cs_pc s t = Finishing r" "cs_lock s = None"
      "s' = at_pc (s\<lparr>cs_cache := finish_refresh (cs_cache s) (case r of Ok _ \<Rightarrow> None | Err e \<Rightarrow> Some e),
         cs_pc := wake \<circ> cs_pc s\<rparr>) t (Done r)"
  using assms
  by (cases "cs_pc s t")
    (auto simp: thread_step_def Let_def latest_def split: option.splits if_splits)

lemma state_fields [simp]:
  "cs_pc (at_pc s t p) = (cs_pc s)(t := p)" "cs_cache (at_pc s t p) = cs_cache s"
  "cs_lock (at_pc s t p) = cs_lock s" "cs_now (at_pc s t p) = cs_now s"
  "cs_pc (unlock_to s t p) = (cs_pc s)(t := p)" "cs_cache (unlock_to s t p) = cs_cache s"
  "cs_lock (unlock_to s t p) = None" "cs_now (unlock_to s t p) = cs_now s"
  "cs_pc (with_cache f s) = cs_pc s" "cs_cache (with_cache f s) = f (cs_cache s)"
  "cs_lock (with_cache f s) = cs_lock s" "cs_now (with_cache f s) = cs_now s"
  by (simp_all add: state_defs)

lemma lock_inv_owner: "lock_inv s \<Longrightarrow> locked (cs_pc s t) \<Longrightarrow> cs_lock s = Some t"
  by (simp add: lock_inv_def)

lemma lock_inv_free: "lock_inv s \<Longrightarrow> cs_lock s = None \<Longrightarrow> \<not> locked (cs_pc s t)"
  by (simp add: lock_inv_def)

lemma thread_step_lock:
  assumes "thread_step ttl s t = Some s'" and inv: "lock_inv s"
  shows "lock_inv s'"
  using assms(1)
proof (cases rule: thread_stepE)
  case (acquire g)
  with lock_inv_free [OF inv] show ?thesis by (simp add: lock_inv_def)
next
  case (late_hit g e)
  with lock_inv_owner [OF inv, of t] inv show ?thesis by (auto simp: lock_inv_def)
next
  case (moved_on g)
  with lock_inv_owner [OF inv, of t] inv show ?thesis by (auto simp: lock_inv_def)
next
  case (claim g)
  with lock_inv_owner [OF inv, of t] inv show ?thesis by (auto simp: lock_inv_def)
next
  case (join g)
  with lock_inv_owner [OF inv, of t] inv show ?thesis by (auto simp: lock_inv_def)
next
  case (finished r)
  with lock_inv_free [OF inv] show ?thesis by (simp add: lock_inv_def)
qed (use inv in \<open>simp_all add: lock_inv_def, (metis locked_simps)?\<close>)

lemma wait_inv_not_waiting:
  "wait_inv s \<Longrightarrow> gc_refresh_state (cs_cache s') = gc_refresh_state (cs_cache s) \<Longrightarrow>
   cs_pc s' = (cs_pc s)(t := p) \<Longrightarrow> (\<And>g. p \<noteq> Waiting g) \<Longrightarrow> wait_inv s'"
  by (simp add: wait_inv_def)

lemma thread_step_wait:
  assumes "thread_step ttl s t = Some s'" and inv: "wait_inv s"
  shows "wait_inv s'"
  using assms(1)
proof (cases rule: thread_stepE)
  case (claim g)
  with inv show ?thesis by (simp add: wait_inv_def)
next
  case (join g)
  with inv show ?thesis by (simp add: wait_inv_def)
next
  case (finished r)
  with inv show ?thesis by (simp add: wait_inv_def)
qed (use inv in \<open>auto elim!: wait_inv_not_waiting\<close>)

lemma flight_inv_same:
  "flight_inv s \<Longrightarrow> rf_in_flight (gc_refresh_state (cs_cache s')) = rf_in_flight (gc_refresh_state (cs_cache s)) \<Longrightarrow>
   cs_pc s' = (cs_pc s)(t := p) \<Longrightarrow> refreshing p = refreshing (cs_pc s t) \<Longrightarrow> flight_inv s'"
  by (auto simp: flight_inv_def)

lemma thread_step_flight:
  assumes "thread_step ttl s t = Some s'" and inv: "flight_inv s"
  shows "flight_inv s'"
  using assms(1)
proof (cases rule: thread_stepE)
  case (claim g)
  with inv show ?thesis by (simp add: flight_inv_def)
next
  case (finished r)
  with inv show ?thesis by (auto simp: flight_inv_def)
qed (use inv in \<open>auto elim!: flight_inv_same\<close>)

lemma thread_step_clean:
  assumes "thread_step ttl s t = Some s'" and inv: "clean_inv s"
  shows "clean_inv s'"
proof -
  from inv have e: "gc_entry (cs_cache s) = Some e \<Longrightarrow> clean_entry e" and p: "clean_pc (cs_pc s t')" for e t'
    by (simp_all add: clean_inv_def)
  from assms(1) show ?thesis
  proof (cases rule: thread_stepE)
    case (stored e')
    with p [of t] p show ?thesis by (simp add: clean_inv_def)
  next
    case (finished r)
    with e p p [of t] show ?thesis by (cases r) (simp_all add: clean_inv_def)
  qed (use e p in \<open>auto simp: clean_inv_def dest!: get_fresh_SomeD\<close>)
qed

definition cinv :: "cstate \<Rightarrow> bool" where
  "cinv s \<longleftrightarrow> lock_inv s \<and> flight_inv s \<and> wait_inv s \<and> clean_inv s"

lemma cinv_init: "cinv cinit"
  by (simp add: cinv_def lock_inv_def flight_inv_def wait_inv_def clean_inv_def cinit_def
      gres_cache_new_def)

lemma cinv_local:
  assumes inv: "cinv s" and pcs: "cs_pc s' = (cs_pc s)(t := p)" and "cs_lock s' = cs_lock s"
    and rs: "gc_refresh_state (cs_cache s') = gc_refresh_state (cs_cache s)"
    and "gc_entry (cs_cache s') = gc_entry (cs_cache s)"
    and "locked p = locked (cs_pc s t)" and kind: "refreshing p = refreshing (cs_pc s t)"
    and "clean_pc p" and nw: "\<And>g. p \<noteq> Waiting g"
  shows "cinv s'"
proof -
  have "lock_inv s'" "clean_inv s'"
    using assms by (auto simp: cinv_def lock_inv_def clean_inv_def)
  moreover have "flight_inv s'"
    using inv rs by (intro flight_inv_same [OF _ _ pcs kind]) (simp_all add: cinv_def)
  moreover have "wait_inv s'"
    using inv by (intro wait_inv_not_waiting [OF _ rs pcs nw]) (simp add: cinv_def)
  ultimately show ?thesis by (simp add: cinv_def)
qed

lemma cinv_collect:
  assumes "cinv s" "cs_pc s t = Collecting t0"
  shows "cinv (collect_step s t t0 r)"
  by (rule cinv_local [OF assms(1), where t = t and p = "cs_pc (collect_step s t t0 r) t"])
    (use assms entry_of_collect_clean in \<open>auto simp: collect_step_def split: sum.splits\<close>)

lemma cinv_step: "step ttl s a s' \<Longrightarrow> cinv s \<Longrightarrow> cinv s'"
proof (induction rule: step.induct)
  case (advance s t s')
  then show ?case
    by (simp add: cinv_def thread_step_lock thread_step_flight thread_step_wait thread_step_clean)
next
  case (collect s t t0 r)
  then show ?case by (simp add: cinv_collect)
next
  case (tick s t d)
  then show ?case by (auto simp: cinv_def lock_inv_def flight_inv_def wait_inv_def clean_inv_def)
qed (auto elim!: cinv_local)

lemma cinv_run: "run ttl s as s' \<Longrightarrow> cinv s \<Longrightarrow> cinv s'"
  by (induction rule: run.induct) (auto intro: cinv_step)

lemma run_single: "step ttl s a s' \<Longrightarrow> run ttl s [a] s'"
  using run_snoc [OF run_nil, of ttl s a s'] by simp

lemma run_append: "run ttl s' bs s'' \<Longrightarrow> run ttl s as s' \<Longrightarrow> run ttl s (as @ bs) s''"
proof (induction rule: run.induct)
  case run_nil
  then show ?case by simp
next
  case (run_snoc bs t1 b t2)
  then have "run ttl s ((as @ bs) @ [b]) t2" by (intro run.run_snoc)
  then show ?case by simp
qed

lemma run_Cons: "step ttl s a s' \<Longrightarrow> run ttl s' bs s'' \<Longrightarrow> run ttl s (a # bs) s''"
  using run_append [of ttl s' bs s'' s "[a]"] run_single by simp

section \<open>Progress\<close>

definition mid_call :: "pc \<Rightarrow> bool" where
  "mid_call p = (case p of Idle \<Rightarrow> False | Done _ \<Rightarrow> False | _ \<Rightarrow> True)"

lemma enabled_locked: "locked (cs_pc s t) \<Longrightarrow> \<exists>s'. thread_step ttl s t = Some s'"
  by (cases "cs_pc s t") (simp_all add: thread_step_def Let_def)

lemma enabled_unlocked:
  assumes "cs_lock s = None" "mid_call (cs_pc s t)" "\<not> refreshing (cs_pc s t)"
    "\<And>g. cs_pc s t \<noteq> Waiting g"
  shows "\<exists>s'. thread_step ttl s t = Some s'"
  using assms by (cases "cs_pc s t") (auto simp: thread_step_def Let_def mid_call_def)

lemma enabled_refreshing:
  assumes "cs_lock s = None" "refreshing (cs_pc s t)"
  shows "\<exists>a s'. (a = Advance \<or> (\<exists>r. a = Collect r)) \<and> step ttl s (t, a) s'"
proof (cases "cs_pc s t")
  case (Collecting t0)
  then show ?thesis using step.collect by blast
next
  case (Storing e)
  then have "\<exists>s'. thread_step ttl s t = Some s'" by (simp add: thread_step_def Let_def)
  then show ?thesis using step.advance by blast
next
  case (Finishing r)
  with assms have "\<exists>s'. thread_step ttl s t = Some s'" by (simp add: thread_step_def Let_def)
  then show ?thesis using step.advance by blast
qed (use assms in simp_all)

lemma some_thread_moves:
  assumes "cinv s" "mid_call (cs_pc s t)"
  shows "\<exists>u a s'. (a = Advance \<or> (\<exists>r. a = Collect r)) \<and> mid_call (cs_pc s u) \<and> step ttl s (u, a) s'"
proof (cases "cs_lock s")
  case (Some u)
  with assms(1) have "locked (cs_pc s u)" by (auto simp: cinv_def lock_inv_def)
  moreover from this have "mid_call (cs_pc s u)" by (cases "cs_pc s u") (simp_all add: mid_call_def)
  ultimately show ?thesis using enabled_locked [of s u ttl] step.advance by blast
next
  case None
  note free = this
  show ?thesis
  proof (cases "\<exists>u. refreshing (cs_pc s u)")
    case True
    then obtain u where u: "refreshing (cs_pc s u)" by blast
    then have "mid_call (cs_pc s u)" by (cases "cs_pc s u") (simp_all add: mid_call_def)
    with enabled_refreshing [OF free u] show ?thesis by blast
  next
    case False
    with assms(1) have "cs_pc s t \<noteq> Waiting g" for g
      by (auto simp: cinv_def wait_inv_def flight_inv_def)
    with False obtain s' where "thread_step ttl s t = Some s'"
      using enabled_unlocked [OF free assms(2), of ttl] by blast
    then show ?thesis using assms(2) step.advance by blast
  qed
qed

section \<open>Executing a schedule\<close>

text \<open>The relation is deterministic per label, so a schedule can be executed.\<close>

fun exec_step :: "u64 \<Rightarrow> cstate \<Rightarrow> tid \<times> action \<Rightarrow> cstate option" where
  "exec_step ttl s (t, Call) = (if cs_pc s t = Idle then Some (at_pc s t Start) else None)"
| "exec_step ttl s (t, CallLatest) = (if cs_pc s t = Idle then Some (at_pc s t StartLatest) else None)"
| "exec_step ttl s (t, Advance) = thread_step ttl s t"
| "exec_step ttl s (t, Collect r) =
     (case cs_pc s t of Collecting t0 \<Rightarrow> Some (collect_step s t t0 r) | _ \<Rightarrow> None)"
| "exec_step ttl s (t, Spurious) =
     (case cs_pc s t of Waiting g \<Rightarrow> Some (at_pc s t (Reacquire g)) | _ \<Rightarrow> None)"
| "exec_step ttl s (t, Return) = (case cs_pc s t of Done r \<Rightarrow> Some (at_pc s t Idle) | _ \<Rightarrow> None)"
| "exec_step ttl s (t, Tick d) = Some (s\<lparr>cs_now := cs_now s + d\<rparr>)"

lemma step_exec: "exec_step ttl s a = Some s' \<Longrightarrow> step ttl s a s'"
proof -
  assume a: "exec_step ttl s a = Some s'"
  obtain t l where tl: "a = (t, l)" by fastforce
  from a show ?thesis unfolding tl
    by (cases l) (auto split: if_splits pc.splits intro: step.intros)
qed

primrec exec :: "u64 \<Rightarrow> cstate \<Rightarrow> (tid \<times> action) list \<Rightarrow> cstate option" where
  "exec ttl s [] = Some s"
| "exec ttl s (a # as) = Option.bind (exec_step ttl s a) (\<lambda>s'. exec ttl s' as)"

lemma run_exec: "exec ttl s as = Some s' \<Longrightarrow> run ttl s as s'"
proof (induction as arbitrary: s)
  case Nil
  then show ?case by (simp add: run_nil)
next
  case (Cons a as)
  then obtain u where "exec_step ttl s a = Some u" "exec ttl u as = Some s'"
    by (auto simp: bind_eq_Some_conv)
  with Cons.IH show ?case by (blast intro: run_Cons step_exec)
qed

text \<open>A call alone, and one overtaken by the expiry of what it waited for.\<close>

definition lone_call :: "tid \<Rightarrow> ErrorCode + ServerGresSnapshot \<Rightarrow> instant \<Rightarrow> call_times \<Rightarrow> (tid \<times> action) list" where
  "lone_call t r now ts =
     [(t, Call), (t, Tick (at_first ts - now)), (t, Advance), (t, Advance),
      (t, Tick (at_locked ts - at_first ts)), (t, Advance), (t, Tick (at_started ts - at_locked ts)),
      (t, Advance), (t, Tick (at_collected ts - at_started ts)), (t, Collect r)]
     @ (case r of Ok _ \<Rightarrow> [(t, Advance), (t, Advance)] | Err _ \<Rightarrow> [(t, Advance)])"

lemmas exec_simps = thread_step_def collect_step_def Let_def at_pc_def unlock_to_def with_cache_def

lemma lone_call_run:
  assumes idle: "cs_pc s t = Idle" "cs_lock s = None" "\<not> rf_in_flight (gc_refresh_state (cs_cache s))"
    and times: "cs_now s \<le> at_first ts" "at_first ts \<le> at_locked ts" "at_locked ts \<le> at_started ts"
      "at_started ts \<le> at_collected ts"
    and miss: "get_fresh (cs_cache s) ttl (at_first ts) = None" "get_fresh (cs_cache s) ttl (at_locked ts) = None"
  shows "\<exists>s'. exec ttl s (lone_call t r (cs_now s) ts) = Some s'
    \<and> cs_pc s' t = Done (entry_of_collect r (at_collected ts))
    \<and> cs_cache s' = refreshed (cs_cache s) r (ts\<lparr>at_finished := at_collected ts\<rparr>)"
  using assms
  by (cases r) (simp_all add: lone_call_def exec_simps refreshed_def entry_of_collect_def
      complete_refresh_def)

section \<open>Properties\<close>

text \<open>C3: concurrent misses are merged into one collection. In every reachable state at most
  one thread collects or publishes, and the flag \<open>in_flight\<close> says whether there is one.\<close>

theorem single_refresher:
  assumes "run ttl cinit as s"
  shows "(\<forall>t t'. refreshing (cs_pc s t) \<and> refreshing (cs_pc s t') \<longrightarrow> t = t')
    \<and> (rf_in_flight (gc_refresh_state (cs_cache s)) \<longleftrightarrow> (\<exists>t. refreshing (cs_pc s t)))"
  using cinv_run [OF assms cinv_init] by (auto simp: cinv_def flight_inv_def)

definition two_callers :: "(tid \<times> action) list" where
  "two_callers = [(0, Call), (0, Advance), (0, Advance), (0, Advance), (0, Advance),
     (1, Call), (1, Advance), (1, Advance), (1, Advance), (1, Advance)]"

lemmas run_eval = exec_simps cinit_def gres_cache_new_def get_fresh_def cache_op_defs two_callers_def

lemma two_callers_run:
  "\<exists>s. run 1 cinit two_callers s \<and> cs_pc s 0 = Collecting 0 \<and> cs_pc s 1 = Waiting 0"
proof -
  have "\<exists>s. exec 1 cinit two_callers = Some s \<and> cs_pc s 0 = Collecting 0 \<and> cs_pc s 1 = Waiting 0"
    by (simp add: run_eval)
  then show ?thesis using run_exec by blast
qed

theorem single_refresher_witness:
  "\<exists>s. run 1 cinit two_callers s \<and> refreshing (cs_pc s 0) \<and> \<not> refreshing (cs_pc s 5)
    \<and> rf_in_flight (gc_refresh_state (cs_cache s))"
proof -
  from two_callers_run obtain s where s: "run 1 cinit two_callers s" "cs_pc s 0 = Collecting 0"
    by blast
  then have "refreshing (cs_pc s 0)" by simp
  with single_refresher [OF s(1)] s(1) show ?thesis by (metis zero_neq_numeral)
qed

text \<open>C11: the protocol cannot deadlock. In every reachable state in which some call is not
  finished, a thread inside a call can take a step of its own, without a new call, a
  spurious wake-up or the passing of time.\<close>

theorem cache_no_deadlock:
  assumes "run ttl cinit as s" and "mid_call (cs_pc s t)"
  shows "\<exists>u a s'. (a = Advance \<or> (\<exists>r. a = Collect r)) \<and> mid_call (cs_pc s u) \<and> step ttl s (u, a) s'"
  using some_thread_moves [OF cinv_run [OF assms(1) cinv_init] assms(2)] .

theorem cache_no_deadlock_witness:
  "\<exists>s u a s'. run 1 cinit two_callers s \<and> mid_call (cs_pc s 1) \<and> step 1 s (u, a) s'"
proof -
  from two_callers_run obtain s where s: "run 1 cinit two_callers s" "cs_pc s 1 = Waiting 0"
    by blast
  then have m: "mid_call (cs_pc s 1)" by (simp add: mid_call_def)
  from cache_no_deadlock [OF s(1) m] m s(1) show ?thesis by blast
qed

text \<open>C6: no wake-up is lost. A thread that waits has a thread refreshing for it, for the very
  generation it observed, and the step that ends this refresh puts it back into the race
  for the lock.\<close>

theorem no_lost_wakeup:
  assumes "run ttl cinit as s" and "cs_pc s t = Waiting g"
  shows "\<exists>u. refreshing (cs_pc s u) \<and> rf_generation (gc_refresh_state (cs_cache s)) = g
    \<and> (\<forall>r s'. cs_pc s u = Finishing r \<longrightarrow> thread_step ttl s u = Some s' \<longrightarrow>
        cs_pc s' t = Reacquire g \<and> rf_generation (gc_refresh_state (cs_cache s')) = g + 1)"
proof -
  from cinv_run [OF assms(1) cinv_init] assms(2) obtain u where u: "refreshing (cs_pc s u)"
    and g: "rf_generation (gc_refresh_state (cs_cache s)) = g"
    by (auto simp: cinv_def wait_inv_def flight_inv_def)
  with assms(2) have "t \<noteq> u" by auto
  with u g assms(2) show ?thesis
    by (intro exI [of _ u]) (auto simp: thread_step_def Let_def wake_def split: if_splits)
qed

theorem no_lost_wakeup_witness:
  "\<exists>s u. run 1 cinit two_callers s \<and> cs_pc s 1 = Waiting 0 \<and> refreshing (cs_pc s u)"
proof -
  from two_callers_run obtain s where s: "run 1 cinit two_callers s" "cs_pc s 1 = Waiting 0"
    by blast
  from no_lost_wakeup [OF s] s show ?thesis by blast
qed

text \<open>Whatever the interleaving, no answer and no cached entry carries a command line.\<close>

theorem concurrent_answers_clean:
  assumes "run ttl cinit as s"
  shows "(\<forall>t e. cs_pc s t = Done (Ok e) \<longrightarrow> clean_entry e)
    \<and> (\<forall>e. gc_entry (cs_cache s) = Some e \<longrightarrow> clean_entry e)"
  using cinv_run [OF assms cinv_init] by (auto simp: cinv_def clean_inv_def) (metis clean_pc_simps(3))

theorem concurrent_answers_clean_witness:
  "\<exists>s e. run 1 cinit (two_callers @ [(0, Collect (Ok sample_snapshot)), (0, Advance), (0, Advance)]) s
    \<and> cs_pc s 0 = Done (Ok e) \<and> clean_entry e \<and> ce_snapshot e \<noteq> sample_snapshot"
proof -
  have "\<exists>s e. exec 1 cinit (two_callers @ [(0, Collect (Ok sample_snapshot)), (0, Advance), (0, Advance)]) = Some s
      \<and> cs_pc s 0 = Done (Ok e) \<and> ce_snapshot e = omit_process_commands sample_snapshot"
    by (simp add: run_eval wake_def)
  then obtain s e where "run 1 cinit (two_callers @ [(0, Collect (Ok sample_snapshot)), (0, Advance), (0, Advance)]) s"
    and e: "cs_pc s 0 = Done (Ok e)" "ce_snapshot e = omit_process_commands sample_snapshot"
    using run_exec by blast
  moreover have "omit_process_commands sample_snapshot \<noteq> sample_snapshot"
    by (simp add: sample_snapshot_def omit_process_commands_def)
  ultimately show ?thesis using concurrent_answers_clean by metis
qed



text \<open>C39: a caller that joined a refresh can be answered with an internal error although no
  collection ever failed: when the shared result has outlived its time to live before the
  caller gets the lock back, the changed generation and the absent error select the
  fallback code.\<close>

theorem merged_caller_spurious_error:
  "\<exists>as s. run 1 cinit as s \<and> list_all (\<lambda>(t, a). \<forall>e. a \<noteq> Collect (Err e)) as
    \<and> (\<exists>e. cs_pc s 0 = Done (Ok e) \<and> gc_entry (cs_cache s) = Some e)
    \<and> cs_pc s 1 = Done (Err Internal)"
proof -
  let ?as = "two_callers @ [(0, Collect (Ok sample_snapshot)), (0, Advance), (0, Advance),
      (1, Tick 1000000), (1, Advance), (1, Advance), (1, Advance)]"
  have "\<exists>s. exec 1 cinit ?as = Some s
    \<and> (\<exists>e. cs_pc s 0 = Done (Ok e) \<and> gc_entry (cs_cache s) = Some e) \<and> cs_pc s 1 = Done (Err Internal)"
    by (simp add: run_eval wake_def is_expired_def)
  moreover have "list_all (\<lambda>(t, a). \<forall>e. a \<noteq> Collect (Err e)) ?as"
    by (simp add: two_callers_def)
  ultimately show ?thesis using run_exec by blast
qed

end
