(* ===== verification/Server_Transport.thy ===== *)
theory Server_Transport
  imports Server_Cache Udp_Reassembly
begin

text \<open>
  The request handlers of \<^verbatim>\<open>crates/server/src/transport.rs\<close>, shared by the TCP and the
  UDP server: \<open>TransportContext\<close> with its general path over frames and its two
  allocation-saving UDP paths. The JSON and rkyv codecs are parameters. A handler runs one
  cache lookup; its answer is \<open>None\<close> while that lookup waits for another thread's refresh.
  Where the source stores the debug text of an error, the error itself is kept.
\<close>

section \<open>Parameters and data\<close>

record server_codecs =
  sc_handshake_from_slice :: "bytes \<Rightarrow> string + HandshakeRequest"
  sc_query_from_slice :: "bytes \<Rightarrow> string + QueryRequest"
  sc_response_to_vec :: "QueryResponse \<Rightarrow> string + bytes"
  sc_metadata_to_bytes :: "HostMetadata \<Rightarrow> string + bytes"
  sc_runtime_to_bytes :: "RuntimeSnapshot \<Rightarrow> string + bytes"

text \<open>What the collector would answer now, and the clock readings of the lookup.\<close>

record lookup_env =
  le_collected :: "ErrorCode + ServerGresSnapshot"
  le_times :: call_times

record TransportContext =
  tx_codecs :: server_codecs
  tx_ttl_ms :: u64

record DecodedFrame =
  df_header :: FrameHeader
  df_payload :: bytes

datatype TransportError =
    FrameDecode FrameDecodeError
  | UnexpectedFrameType FrameType
  | Protocol ErrorCode
  | Json string
  | Payload PayloadEncodeError
  | Udp UdpChunkError

section \<open>Operations\<close>

definition encode_transport_frame :: "FrameType \<Rightarrow> u64 \<Rightarrow> bytes \<Rightarrow> bytes" where
  "encode_transport_frame ft rid payload =
     encode_frame (frame_header_new ft rid (word_of_nat (length payload))) payload"

definition decode_transport_frame :: "bytes \<Rightarrow> TransportError + DecodedFrame" where
  "decode_transport_frame frame =
     map_ok (\<lambda>(h, p). \<lparr>df_header = h, df_payload = p\<rparr>) (map_err FrameDecode (decode_frame frame))"

definition with_entry ::
    "TransportContext \<Rightarrow> lookup_env \<Rightarrow> GresCache \<Rightarrow> (ErrorCode + CacheEntry \<Rightarrow> 'r) \<Rightarrow> GresCache \<times> 'r option" where
  "with_entry ctx env c k =
     (let (c', r) = get_latest_or_refresh c (le_collected env) (tx_ttl_ms ctx) (le_times env)
      in (c', map_option k r))"

definition error_frame :: "TransportContext \<Rightarrow> u64 \<Rightarrow> ErrorCode \<Rightarrow> TransportError + bytes" where
  "error_frame ctx rid e =
     map_ok (encode_transport_frame QueryResponse rid)
       (map_err Json (sc_response_to_vec (tx_codecs ctx) (query_response_error rid e)))"

definition metadata_payload :: "TransportContext \<Rightarrow> CacheEntry \<Rightarrow> TransportError + bytes" where
  "metadata_payload ctx entry =
     map_err Payload (encode_metadata_payload (sc_metadata_to_bytes (tx_codecs ctx))
       (metadata_from_snapshot (ce_snapshot entry)))"

definition runtime_payload :: "TransportContext \<Rightarrow> CacheEntry \<Rightarrow> TransportError + bytes" where
  "runtime_payload ctx entry =
     map_err Payload (encode_runtime_payload (sc_runtime_to_bytes (tx_codecs ctx))
       (runtime_from_snapshot (ce_snapshot entry)))"

definition check_handshake :: "TransportContext \<Rightarrow> bytes \<Rightarrow> TransportError + unit" where
  "check_handshake ctx payload =
     and_then (map_err Json (sc_handshake_from_slice (tx_codecs ctx) payload)) (\<lambda>request.
       map_err Protocol (handshake_request_validate request))"

text \<open>The two matches on the result of a lookup.\<close>

definition handshake_reply ::
    "TransportContext \<Rightarrow> u64 \<Rightarrow> ErrorCode + CacheEntry \<Rightarrow> TransportError + bytes" where
  "handshake_reply ctx rid r =
     (case r of
        Ok entry \<Rightarrow> map_ok (encode_transport_frame MetadataPayload rid) (metadata_payload ctx entry)
      | Err e \<Rightarrow> error_frame ctx rid e)"

definition query_reply ::
    "TransportContext \<Rightarrow> u64 \<Rightarrow> ErrorCode + CacheEntry \<Rightarrow> TransportError + bytes" where
  "query_reply ctx rid r =
     (case r of
        Ok entry \<Rightarrow> map_ok (encode_transport_frame RuntimePayload rid) (runtime_payload ctx entry)
      | Err e \<Rightarrow> error_frame ctx rid e)"

definition handle_handshake ::
    "TransportContext \<Rightarrow> lookup_env \<Rightarrow> GresCache \<Rightarrow> u64 \<Rightarrow> bytes
      \<Rightarrow> GresCache \<times> (TransportError + bytes) option" where
  "handle_handshake ctx env c rid payload =
     (case check_handshake ctx payload of
        Err e \<Rightarrow> (c, Some (Err e))
      | Ok _ \<Rightarrow> with_entry ctx env c (handshake_reply ctx rid))"

text \<open>The request id a query is answered under: the one in a non-empty payload wins.\<close>

definition query_request_id :: "TransportContext \<Rightarrow> u64 \<Rightarrow> bytes \<Rightarrow> TransportError + u64" where
  "query_request_id ctx rid payload =
     (if payload = [] then Ok rid
      else and_then (map_err Json (sc_query_from_slice (tx_codecs ctx) payload)) (\<lambda>request.
        and_then (map_err Protocol (validate_protocol_version (qr_version request))) (\<lambda>_.
          Ok (qr_request_id request))))"

definition handle_query ::
    "TransportContext \<Rightarrow> lookup_env \<Rightarrow> GresCache \<Rightarrow> u64 \<Rightarrow> bytes
      \<Rightarrow> GresCache \<times> (TransportError + bytes) option" where
  "handle_query ctx env c rid payload =
     (case query_request_id ctx rid payload of
        Err e \<Rightarrow> (c, Some (Err e))
      | Ok rid' \<Rightarrow> with_entry ctx env c (query_reply ctx rid'))"

definition handle_decoded_frame ::
    "TransportContext \<Rightarrow> lookup_env \<Rightarrow> GresCache \<Rightarrow> DecodedFrame
      \<Rightarrow> GresCache \<times> (TransportError + bytes) option" where
  "handle_decoded_frame ctx env c d =
     (let rid = fh_request_id (df_header d) in
      case fh_frame_type (df_header d) of
        HandshakeRequest \<Rightarrow> handle_handshake ctx env c rid (df_payload d)
      | QueryRequest \<Rightarrow> handle_query ctx env c rid (df_payload d)
      | ft \<Rightarrow> (c, Some (Err (UnexpectedFrameType ft))))"

definition handle_frame ::
    "TransportContext \<Rightarrow> lookup_env \<Rightarrow> GresCache \<Rightarrow> bytes \<Rightarrow> GresCache \<times> (TransportError + bytes) option" where
  "handle_frame ctx env c frame =
     (case decode_transport_frame frame of
        Err e \<Rightarrow> (c, Some (Err e))
      | Ok d \<Rightarrow> handle_decoded_frame ctx env c d)"

text \<open>The UDP paths: the datagram is built from the payload when the frame fits \<open>max_payload\<close>;
  \<open>Ok None\<close> sends the caller to the general path.\<close>

definition datagram_from_parts ::
    "'h crc32 \<Rightarrow> FrameType \<Rightarrow> u64 \<Rightarrow> nat \<Rightarrow> bytes \<Rightarrow> TransportError + bytes option" where
  "datagram_from_parts crc ft rid max_payload payload =
     (if FRAME_HEADER_LEN + length payload > max_payload then Ok None
      else map_err Udp (map_ok Some (encode_udp_single_chunk_from_parts crc ft rid payload)))"

definition error_datagram ::
    "'h crc32 \<Rightarrow> TransportContext \<Rightarrow> u64 \<Rightarrow> nat \<Rightarrow> ErrorCode \<Rightarrow> TransportError + bytes option" where
  "error_datagram crc ctx rid max_payload e =
     and_then (map_err Json (sc_response_to_vec (tx_codecs ctx) (query_response_error rid e)))
       (datagram_from_parts crc QueryResponse rid max_payload)"

definition handle_empty_query_udp_datagram ::
    "'h crc32 \<Rightarrow> TransportContext \<Rightarrow> lookup_env \<Rightarrow> GresCache \<Rightarrow> u64 \<Rightarrow> nat
      \<Rightarrow> GresCache \<times> (TransportError + bytes option) option" where
  "handle_empty_query_udp_datagram crc ctx env c rid max_payload =
     with_entry ctx env c (\<lambda>r. case r of
         Ok entry \<Rightarrow> and_then (runtime_payload ctx entry) (datagram_from_parts crc RuntimePayload rid max_payload)
       | Err e \<Rightarrow> error_datagram crc ctx rid max_payload e)"

definition handle_udp_metadata_datagram ::
    "'h crc32 \<Rightarrow> TransportContext \<Rightarrow> lookup_env \<Rightarrow> GresCache \<Rightarrow> u64 \<Rightarrow> bytes \<Rightarrow> nat
      \<Rightarrow> GresCache \<times> (TransportError + bytes option) option" where
  "handle_udp_metadata_datagram crc ctx env c rid payload max_payload =
     (case check_handshake ctx payload of
        Err e \<Rightarrow> (c, Some (Err e))
      | Ok _ \<Rightarrow> with_entry ctx env c (\<lambda>r. case r of
            Ok entry \<Rightarrow> and_then (metadata_payload ctx entry) (datagram_from_parts crc MetadataPayload rid max_payload)
          | Err e \<Rightarrow> error_datagram crc ctx rid max_payload e))"

section \<open>What the handlers rely on in the cache\<close>

text \<open>The interface between handlers and cache: a lookup keeps the invariant, answers, and never
  hands out a command line. Every handler is a continuation \<open>k\<close> applied to such a lookup.\<close>

locale snapshot_cache =
  fixes lookup :: "'c \<Rightarrow> 'c \<times> (ErrorCode + CacheEntry) option"
    and inv :: "'c \<Rightarrow> bool"
  assumes inv_lookup: "inv c \<Longrightarrow> inv (fst (lookup c))"
    and lookup_answers: "inv c \<Longrightarrow> snd (lookup c) \<noteq> None"
    and lookup_clean: "inv c \<Longrightarrow> snd (lookup c) = Some (Ok e) \<Longrightarrow> clean_entry e"
begin

lemma serve:
  assumes "inv c"
  obtains c' r where "lookup c = (c', Some r)" "inv c'" "\<And>e. r = Ok e \<Longrightarrow> clean_entry e"
  using assms inv_lookup [OF assms] lookup_answers [OF assms] lookup_clean [OF assms]
  by (cases "lookup c") auto

end

lemma get_or_refresh_answers:
  assumes "cache_wf c"
  shows "\<exists>r. snd (get_or_refresh c col ttl ts) = Some r \<and> (\<forall>e. r = Ok e \<longrightarrow> clean_entry e)"
  using cache_wf_idle [OF assms]
proof (cases rule: get_or_refresh_cases [of c col ttl ts])
  case (hit e m)
  with assms show ?thesis by (auto simp: cache_wf_def)
next
  case miss
  then show ?thesis by (auto intro: entry_of_collect_clean)
qed

interpretation refresh_lookup: snapshot_cache "\<lambda>c. get_or_refresh c col ttl ts" cache_wf for col ttl ts
proof
  fix c e
  assume "cache_wf c"
  then show "cache_wf (fst (get_or_refresh c col ttl ts))" by (rule get_or_refresh_wf)
  from get_or_refresh_answers [OF \<open>cache_wf c\<close>, of col ttl ts]
  show "snd (get_or_refresh c col ttl ts) \<noteq> None" by auto
  assume "snd (get_or_refresh c col ttl ts) = Some (Ok e)"
  with get_or_refresh_answers [OF \<open>cache_wf c\<close>, of col ttl ts] show "clean_entry e" by auto
qed

interpretation latest_lookup: snapshot_cache "\<lambda>c. get_latest_or_refresh c col ttl ts" cache_wf for col ttl ts
proof
  fix c e
  assume wf: "cache_wf c"
  then show "cache_wf (fst (get_latest_or_refresh c col ttl ts))" by (rule get_latest_or_refresh_wf)
  show "snd (get_latest_or_refresh c col ttl ts) \<noteq> None"
    using refresh_lookup.lookup_answers [OF wf]
    by (simp add: get_latest_or_refresh_def split: option.split)
  assume "snd (get_latest_or_refresh c col ttl ts) = Some (Ok e)"
  then show "clean_entry e"
    using wf refresh_lookup.lookup_clean [OF wf, of col ttl ts e]
    by (auto simp: get_latest_or_refresh_def latest_def cache_wf_def split: option.splits)
qed

lemma with_entry_answers:
  assumes "cache_wf c"
  obtains c' r where "with_entry ctx env c k = (c', Some (k r))" "cache_wf c'"
    "\<And>e. r = Ok e \<Longrightarrow> clean_entry e"
    "get_latest_or_refresh c (le_collected env) (tx_ttl_ms ctx) (le_times env) = (c', Some r)"
  by (rule latest_lookup.serve [OF assms, of "le_collected env" "tx_ttl_ms ctx" "le_times env"])
    (simp add: that with_entry_def)

lemma with_entry_map: "map_prod id (map_option f) (with_entry ctx env c k) = with_entry ctx env c (f \<circ> k)"
  by (simp add: with_entry_def split_def Let_def option.map_comp)

section \<open>Frames that answer requests\<close>

lemma length_encode_transport_frame [simp]:
  "length (encode_transport_frame ft rid p) = FRAME_HEADER_LEN + length p"
  by (simp add: encode_transport_frame_def)

lemma decode_encode_transport_frame:
  "length p < 2 ^ 32 \<Longrightarrow> decode_frame (encode_transport_frame ft rid p) =
     Ok (frame_header_new ft rid (word_of_nat (length p)), p)"
  by (simp add: encode_transport_frame_def decode_encode_frame)

lemma metadata_payload_small: "metadata_payload ctx e = Ok p \<Longrightarrow> length p \<le> MAX_PAYLOAD_LEN"
  by (simp add: metadata_payload_def encode_metadata_payload_def encode_rkyv_payload_Ok_iff)

lemma runtime_payload_small: "runtime_payload ctx e = Ok p \<Longrightarrow> length p \<le> MAX_PAYLOAD_LEN"
  by (simp add: runtime_payload_def encode_runtime_payload_def encode_rkyv_payload_Ok_iff)

section \<open>The UDP paths agree with the general path\<close>

definition to_datagram ::
    "'h crc32 \<Rightarrow> nat \<Rightarrow> TransportError + bytes \<Rightarrow> TransportError + bytes option" where
  "to_datagram crc max_payload response =
     and_then response (\<lambda>frame.
       if length frame > max_payload then Ok None
       else map_err Udp (map_ok Some (encode_udp_single_chunk crc frame)))"

lemma datagram_from_parts_eq:
  assumes "crc_streaming crc" "max_payload \<le> 65535"
  shows "datagram_from_parts crc ft rid max_payload p =
    to_datagram crc max_payload (Ok (encode_transport_frame ft rid p))"
proof (cases "FRAME_HEADER_LEN + length p \<le> max_payload")
  case True
  with assms have "FRAME_HEADER_LEN + length p \<le> 65535" by simp
  with True show ?thesis
    by (simp add: datagram_from_parts_def to_datagram_def
        encode_from_parts_eq [OF assms(1), of p ft rid "word_of_nat (length p)"]
        encode_transport_frame_def)
qed (simp add: datagram_from_parts_def to_datagram_def)

lemma and_then_datagram:
  assumes "crc_streaming crc" "max_payload \<le> 65535"
  shows "and_then r (datagram_from_parts crc ft rid max_payload) =
    to_datagram crc max_payload (map_ok (encode_transport_frame ft rid) r)"
  by (cases r) (simp_all add: datagram_from_parts_eq [OF assms] to_datagram_def)

lemma error_datagram_eq:
  assumes "crc_streaming crc" "max_payload \<le> 65535"
  shows "error_datagram crc ctx rid max_payload e = to_datagram crc max_payload (error_frame ctx rid e)"
  by (simp add: error_datagram_def error_frame_def and_then_datagram [OF assms])

lemma metadata_datagram_eq:
  assumes "crc_streaming crc" "max_payload \<le> 65535"
  shows "handle_udp_metadata_datagram crc ctx env c rid payload max_payload =
    map_prod id (map_option (to_datagram crc max_payload)) (handle_handshake ctx env c rid payload)"
proof (cases "check_handshake ctx payload")
  case (Inl e)
  then show ?thesis by (simp add: handle_udp_metadata_datagram_def handle_handshake_def to_datagram_def)
next
  case (Inr u)
  have "(\<lambda>r. case r of Ok entry \<Rightarrow> and_then (metadata_payload ctx entry)
          (datagram_from_parts crc MetadataPayload rid max_payload)
        | Err e \<Rightarrow> error_datagram crc ctx rid max_payload e) =
      to_datagram crc max_payload \<circ> handshake_reply ctx rid"
    by (auto simp: fun_eq_iff handshake_reply_def and_then_datagram [OF assms] error_datagram_eq [OF assms] split: sum.split)
  then show ?thesis
    using Inr by (simp add: handle_udp_metadata_datagram_def handle_handshake_def with_entry_map)
qed

lemma empty_query_datagram_eq:
  assumes "crc_streaming crc" "max_payload \<le> 65535"
  shows "handle_empty_query_udp_datagram crc ctx env c rid max_payload =
    map_prod id (map_option (to_datagram crc max_payload)) (handle_query ctx env c rid [])"
proof -
  have "(\<lambda>r. case r of Ok entry \<Rightarrow> and_then (runtime_payload ctx entry)
          (datagram_from_parts crc RuntimePayload rid max_payload)
        | Err e \<Rightarrow> error_datagram crc ctx rid max_payload e) =
      to_datagram crc max_payload \<circ> query_reply ctx rid"
    by (auto simp: fun_eq_iff query_reply_def and_then_datagram [OF assms] error_datagram_eq [OF assms] split: sum.split)
  then show ?thesis
    by (simp add: handle_empty_query_udp_datagram_def handle_query_def query_request_id_def with_entry_map
        comp_def)
qed

section \<open>Totality and errors\<close>

lemma handle_handshake_total:
  assumes "cache_wf c"
  shows "cache_wf (fst (handle_handshake ctx env c rid p)) \<and> snd (handle_handshake ctx env c rid p) \<noteq> None"
proof (cases "check_handshake ctx p")
  case (Inr u)
  then show ?thesis
    by (simp add: handle_handshake_def) (metis with_entry_answers [OF assms] fst_conv option.discI snd_conv)
qed (simp add: handle_handshake_def assms)

lemma handle_query_total:
  assumes "cache_wf c"
  shows "cache_wf (fst (handle_query ctx env c rid p)) \<and> snd (handle_query ctx env c rid p) \<noteq> None"
proof (cases "query_request_id ctx rid p")
  case (Inr u)
  then show ?thesis
    by (simp add: handle_query_def) (metis with_entry_answers [OF assms] fst_conv option.discI snd_conv)
qed (simp add: handle_query_def assms)

lemma handle_frame_cases:
  obtains (bad) e where "decode_frame frame = Err e" "handle_frame ctx env c frame = (c, Some (Err (FrameDecode e)))"
  | (handshake) h p where "decode_frame frame = Ok (h, p)" "fh_frame_type h = HandshakeRequest"
      "handle_frame ctx env c frame = handle_handshake ctx env c (fh_request_id h) p"
  | (query) h p where "decode_frame frame = Ok (h, p)" "fh_frame_type h = QueryRequest"
      "handle_frame ctx env c frame = handle_query ctx env c (fh_request_id h) p"
  | (other) h p where "decode_frame frame = Ok (h, p)" "fh_frame_type h \<notin> {HandshakeRequest, QueryRequest}"
      "handle_frame ctx env c frame = (c, Some (Err (UnexpectedFrameType (fh_frame_type h))))"
proof (cases "decode_frame frame")
  case (Inl e)
  with bad show thesis by (simp add: handle_frame_def decode_transport_frame_def)
next
  case (Inr hp)
  then obtain h p where hp: "decode_frame frame = Ok (h, p)" by (cases hp) simp
  then show thesis
    using handshake [OF hp] query [OF hp] other [OF hp]
    by (cases "fh_frame_type h")
      (simp_all add: handle_frame_def decode_transport_frame_def handle_decoded_frame_def Let_def)
qed

lemma handle_frame_wf:
  assumes "cache_wf c"
  shows "cache_wf (fst (handle_frame ctx env c frame)) \<and> snd (handle_frame ctx env c frame) \<noteq> None"
  by (cases rule: handle_frame_cases [of frame ctx env c])
    (use assms handle_handshake_total handle_query_total in simp_all)

lemma handle_frame_answers:
  assumes "cache_wf c"
  obtains c' res where "handle_frame ctx env c frame = (c', Some res)" "cache_wf c'"
  using handle_frame_wf [OF assms, of ctx env frame] that by (cases "handle_frame ctx env c frame") auto

definition request_error :: "TransportError \<Rightarrow> bool" where
  "request_error e = (case e of FrameDecode _ \<Rightarrow> True | UnexpectedFrameType _ \<Rightarrow> True | Protocol _ \<Rightarrow> True | _ \<Rightarrow> False)"

lemma with_entry_SomeD: "with_entry ctx env c k = (c', Some x) \<Longrightarrow> \<exists>r. x = k r"
  by (auto simp: with_entry_def split_def Let_def)

lemma reply_error_kind:
  "handshake_reply ctx rid r = Err e \<Longrightarrow> \<not> request_error e"
  "query_reply ctx rid r = Err e \<Longrightarrow> \<not> request_error e"
  by (auto simp: handshake_reply_def query_reply_def error_frame_def metadata_payload_def
      runtime_payload_def result_simps request_error_def split: sum.splits)

lemma request_error_keeps_cache:
  assumes "handle_frame ctx env c frame = (c', Some (Err e))" "request_error e"
  shows "c' = c"
proof (cases rule: handle_frame_cases [of frame ctx env c])
  case (handshake h p)
  with assms show ?thesis
    by (auto simp: handle_handshake_def split: sum.splits dest!: with_entry_SomeD dest: reply_error_kind sym)
next
  case (query h p)
  with assms show ?thesis
    by (auto simp: handle_query_def split: sum.splits dest!: with_entry_SomeD dest: reply_error_kind sym)
qed (use assms in simp_all)

section \<open>What an answer carries\<close>

definition cache_lookup :: "TransportContext \<Rightarrow> lookup_env \<Rightarrow> GresCache \<Rightarrow> GresCache \<times> (ErrorCode + CacheEntry) option" where
  "cache_lookup ctx env c = get_latest_or_refresh c (le_collected env) (tx_ttl_ms ctx) (le_times env)"

lemma lookup_entry:
  assumes "cache_wf c" "cache_lookup ctx env c = (c', Some (Ok entry))"
  shows "gc_entry c' = Some entry" "clean_entry entry"
proof -
  show "gc_entry c' = Some entry"
    using assms
    by (auto simp: cache_lookup_def get_latest_or_refresh_def latest_def get_or_refresh_miss refreshed_entry get_fresh_def
        cache_wf_def split: option.splits)
  obtain c'' r where "get_latest_or_refresh c (le_collected env) (tx_ttl_ms ctx) (le_times env) = (c'', Some r)"
    "\<And>e. r = Ok e \<Longrightarrow> clean_entry e"
    by (rule with_entry_answers [OF assms(1), of ctx env "\<lambda>x. x"]) auto
  with assms(2) show "clean_entry entry" by (auto simp: cache_lookup_def)
qed

lemma query_answer_decodes:
  assumes "query_request_id ctx rid payload = Ok rid'" "cache_lookup ctx env c = (c', Some (Ok entry))"
    and "rkyv_codec (sc_runtime_to_bytes (tx_codecs ctx)) from_bytes"
    and "handle_query ctx env c rid payload = (c'', Some (Ok response))"
  shows "c'' = c' \<and> (\<exists>p n. decode_frame response = Ok (frame_header_new RuntimePayload rid' n, p)
    \<and> decode_runtime_payload from_bytes p = Ok (runtime_from_snapshot (ce_snapshot entry)))"
proof -
  from assms(1,2,4) have c: "c'' = c'" and reply: "query_reply ctx rid' (Ok entry) = Ok response"
    by (simp_all add: handle_query_def with_entry_def cache_lookup_def)
  then obtain p where p: "runtime_payload ctx entry = Ok p"
    and response: "response = encode_transport_frame RuntimePayload rid' p"
    by (auto simp: query_reply_def result_simps)
  have "length p < 2 ^ 32"
    using runtime_payload_small [OF p] by (simp add: MAX_PAYLOAD_LEN_def)
  moreover have "decode_runtime_payload from_bytes p = Ok (runtime_from_snapshot (ce_snapshot entry))"
    using p assms(3) by (simp add: runtime_payload_def encode_runtime_payload_def decode_runtime_payload_def
        decode_encode_rkyv_payload)
  ultimately show ?thesis using c by (auto simp: response decode_encode_transport_frame)
qed

lemma handshake_answer_decodes:
  assumes "check_handshake ctx payload = Ok ()" "cache_lookup ctx env c = (c', Some (Ok entry))"
    and "rkyv_codec (sc_metadata_to_bytes (tx_codecs ctx)) from_bytes"
    and "handle_handshake ctx env c rid payload = (c'', Some (Ok response))"
  shows "c'' = c' \<and> (\<exists>p n. decode_frame response = Ok (frame_header_new MetadataPayload rid n, p)
    \<and> decode_metadata_payload from_bytes p = Ok (metadata_from_snapshot (ce_snapshot entry)))"
proof -
  from assms(1,2,4) have c: "c'' = c'" and reply: "handshake_reply ctx rid (Ok entry) = Ok response"
    by (simp_all add: handle_handshake_def with_entry_def cache_lookup_def)
  then obtain p where p: "metadata_payload ctx entry = Ok p"
    and response: "response = encode_transport_frame MetadataPayload rid p"
    by (auto simp: handshake_reply_def result_simps)
  have "length p < 2 ^ 32"
    using metadata_payload_small [OF p] by (simp add: MAX_PAYLOAD_LEN_def)
  moreover have "decode_metadata_payload from_bytes p = Ok (metadata_from_snapshot (ce_snapshot entry))"
    using p assms(3) by (simp add: metadata_payload_def encode_metadata_payload_def decode_metadata_payload_def
        decode_encode_rkyv_payload)
  ultimately show ?thesis using c by (auto simp: response decode_encode_transport_frame)
qed

text \<open>A failed lookup is answered with the error code, to a handshake and to a query alike, unless
  the encoder refuses the response.\<close>

lemma failed_lookup_answer:
  assumes "cache_lookup ctx env c = (c', Some (Err e))" "sc_response_to_vec (tx_codecs ctx) (query_response_error rid e) = Ok bs"
    and "length bs < 2 ^ 32"
  shows "check_handshake ctx payload = Ok () \<Longrightarrow>
      \<exists>f. handle_handshake ctx env c rid payload = (c', Some (Ok f))
        \<and> decode_frame f = Ok (frame_header_new FrameType.QueryResponse rid (word_of_nat (length bs)), bs)"
    and "query_request_id ctx rid0 payload = Ok rid \<Longrightarrow>
      \<exists>f. handle_query ctx env c rid0 payload = (c', Some (Ok f))
        \<and> decode_frame f = Ok (frame_header_new FrameType.QueryResponse rid (word_of_nat (length bs)), bs)"
  using assms
  by (simp_all add: handle_handshake_def handle_query_def with_entry_def cache_lookup_def handshake_reply_def
      query_reply_def error_frame_def decode_encode_transport_frame)

section \<open>Properties\<close>

text \<open>C22: the two UDP paths that build a datagram without building a frame answer exactly as the
  general path does: same cache afterwards, same errors, the single datagram of the
  general answer when it fits the capacity, and a fall-back otherwise.\<close>

theorem udp_paths_agree:
  assumes "crc_streaming crc" and "max_payload \<le> 65535"
  shows "handle_udp_metadata_datagram crc ctx env c rid payload max_payload =
      map_prod id (map_option (to_datagram crc max_payload)) (handle_handshake ctx env c rid payload)
    \<and> handle_empty_query_udp_datagram crc ctx env c rid max_payload =
      map_prod id (map_option (to_datagram crc max_payload)) (handle_query ctx env c rid [])"
  using metadata_datagram_eq [OF assms] empty_query_datagram_eq [OF assms] by blast

definition demo_codecs :: server_codecs where
  "demo_codecs = \<lparr>sc_handshake_from_slice = (\<lambda>bs. Ok \<lparr>hr_version = hd bs\<rparr>),
     sc_query_from_slice = (\<lambda>bs. Ok \<lparr>qr_version = hd bs, qr_request_id = 5\<rparr>),
     sc_response_to_vec = (\<lambda>r. Ok [6]),
     sc_metadata_to_bytes = (\<lambda>m. if m = metadata_from_snapshot sample_snapshot then Ok [1, 2] else Err ''other''),
     sc_runtime_to_bytes = (\<lambda>r. if r = runtime_from_snapshot sample_snapshot then Ok [3, 4] else Err ''other'')\<rparr>"

definition demo_ctx :: TransportContext where
  "demo_ctx = \<lparr>tx_codecs = demo_codecs, tx_ttl_ms = 40\<rparr>"

definition demo_env :: lookup_env where
  "demo_env = \<lparr>le_collected = Ok sample_snapshot, le_times =
     \<lparr>at_first = 1, at_locked = 2, at_started = 3, at_collected = 4, at_finished = 5\<rparr>\<rparr>"

theorem udp_paths_agree_witness:
  "crc_streaming sum_crc \<and> handle_empty_query_udp_datagram sum_crc demo_ctx demo_env gres_cache_new 9 1140 =
    map_prod id (map_option (to_datagram sum_crc 1140)) (handle_query demo_ctx demo_env gres_cache_new 9 [])"
  using udp_paths_agree [OF sum_crc_streaming, of 1140 demo_ctx demo_env gres_cache_new 9]
  by (simp add: sum_crc_streaming)

text \<open>C21: a handler always answers and keeps the cache well-formed, and a request it refuses
  (undecodable frame, wrong protocol version, unexpected frame type) has not touched the
  cache.\<close>

theorem handle_frame_total:
  assumes "cache_wf c"
  shows "\<exists>c' res. handle_frame ctx env c frame = (c', Some res) \<and> cache_wf c'
    \<and> (\<forall>e. res = Err e \<and> request_error e \<longrightarrow> c' = c)"
  by (rule handle_frame_answers [OF assms, of ctx env frame])
    (auto dest: request_error_keeps_cache)

theorem handle_frame_total_witness:
  "\<exists>c' res. handle_frame demo_ctx demo_env gres_cache_new [1, 2, 3] = (c', Some res)
    \<and> res = Err (FrameDecode (ShortHeader 3 18)) \<and> c' = gres_cache_new"
proof -
  have "handle_frame demo_ctx demo_env gres_cache_new [1, 2, 3] =
      (gres_cache_new, Some (Err (FrameDecode (ShortHeader 3 18))))"
    by (simp add: handle_frame_def decode_transport_frame_def decode_frame_def frame_header_decode_def
        FRAME_HEADER_LEN_def)
  with handle_frame_total [OF gres_cache_new_wf, of demo_ctx demo_env "[1, 2, 3]"] show ?thesis
    by auto
qed

text \<open>A query is answered with the runtime part of the cached snapshot. The answer of an
  accepted query decodes under the request id it was asked with; when the lookup found an
  entry, it is a runtime payload from which the archiver restores the runtime part of the
  entry that the cache now holds, without command lines.\<close>

theorem query_answer_correct:
  assumes "cache_wf c" and "rkyv_codec (sc_runtime_to_bytes (tx_codecs ctx)) from_bytes"
    and "query_request_id ctx rid payload = Ok rid'"
    and "handle_query ctx env c rid payload = (c', Some (Ok response))"
    and "\<forall>e. snd (get_latest_or_refresh c (le_collected env) (tx_ttl_ms ctx) (le_times env)) \<noteq> Some (Err e)"
  shows "\<exists>entry p n. gc_entry c' = Some entry \<and> clean_entry entry
    \<and> decode_frame response = Ok (frame_header_new RuntimePayload rid' n, p)
    \<and> decode_runtime_payload from_bytes p = Ok (runtime_from_snapshot (ce_snapshot entry))"
proof -
  obtain c1 r where r: "get_latest_or_refresh c (le_collected env) (tx_ttl_ms ctx) (le_times env) = (c1, Some r)"
    by (rule with_entry_answers [OF assms(1), of ctx env "\<lambda>x. x"]) auto
  with assms(5) obtain entry where entry: "cache_lookup ctx env c = (c1, Some (Ok entry))"
    by (cases r) (auto simp: cache_lookup_def)
  from query_answer_decodes [OF assms(3) this assms(2,4)] lookup_entry [OF assms(1) this] show ?thesis by blast
qed

lemma demo_lookup:
  "get_latest_or_refresh gres_cache_new (le_collected demo_env) (tx_ttl_ms demo_ctx) (le_times demo_env) =
    (refreshed gres_cache_new (Ok sample_snapshot) (le_times demo_env),
     Some (Ok \<lparr>ce_snapshot = omit_process_commands sample_snapshot, ce_collected_at = 4\<rparr>))"
  by (simp add: get_latest_or_refresh_def latest_def gres_cache_new_def get_or_refresh_miss get_fresh_def
      demo_env_def entry_of_collect_def)

lemma demo_runtime_codec:
  "rkyv_codec (sc_runtime_to_bytes (tx_codecs demo_ctx)) (\<lambda>_. Ok (runtime_from_snapshot sample_snapshot))"
  by (simp add: rkyv_codec_def demo_ctx_def demo_codecs_def)

lemma demo_query:
  "handle_query demo_ctx demo_env gres_cache_new 9 [] =
    (refreshed gres_cache_new (Ok sample_snapshot) (le_times demo_env),
     Some (Ok (encode_transport_frame RuntimePayload 9 [3, 4])))"
proof -
  have "query_reply demo_ctx 9 (Ok \<lparr>ce_snapshot = omit_process_commands sample_snapshot, ce_collected_at = 4\<rparr>) =
      Ok (encode_transport_frame RuntimePayload 9 [3, 4])"
    by (simp add: query_reply_def runtime_payload_def encode_runtime_payload_def encode_rkyv_payload_def
        demo_ctx_def demo_codecs_def payload_len_from_archived_len_def MAX_PAYLOAD_LEN_def)
  then show ?thesis
    by (simp add: handle_query_def query_request_id_def with_entry_def demo_lookup)
qed

theorem query_answer_correct_witness:
  "\<exists>c' response p n. handle_query demo_ctx demo_env gres_cache_new 9 [] = (c', Some (Ok response))
    \<and> decode_frame response = Ok (frame_header_new RuntimePayload 9 n, p)"
proof -
  have "query_request_id demo_ctx 9 [] = Ok 9" by (simp add: query_request_id_def)
  from query_answer_correct [OF gres_cache_new_wf demo_runtime_codec this demo_query] demo_lookup
  have "\<exists>p n. decode_frame (encode_transport_frame RuntimePayload 9 [3, 4]) =
      Ok (frame_header_new RuntimePayload 9 n, p)"
    by auto
  then show ?thesis by (simp add: demo_query)
qed

end
