(* ===== verification/Rust_Std.thy ===== *)
theory Rust_Std
  imports Prelude "HOL-Library.Sublist"
begin

text \<open>
  The parts of Rust's string API that the sources call: \<open>trim\<close>, \<open>split\<close>, \<open>lines\<close>,
  \<open>split_whitespace\<close>, ASCII case folding, decimal formatting and \<open>str::parse\<close> for
  unsigned integers. A \<open>str\<close> is the list of its UTF-8 bytes; white space is the Unicode
  property \<open>White_Space\<close>, given by the encodings of its code points.
\<close>

section \<open>White space\<close>

definition ascii :: "nat list \<Rightarrow> string" where
  "ascii ns = map char_of ns"

definition whitespace_codes :: "string list" where
  "whitespace_codes =
     map ascii ([[9], [10], [11], [12], [13], [32], [0xC2, 0x85], [0xC2, 0xA0], [0xE1, 0x9A, 0x80]]
       @ map (\<lambda>b. [0xE2, 0x80, b]) [0x80 ..< 0x8B]
       @ [[0xE2, 0x80, 0xA8], [0xE2, 0x80, 0xA9], [0xE2, 0x80, 0xAF], [0xE2, 0x81, 0x9F],
          [0xE3, 0x80, 0x80]])"

text \<open>Drop leading occurrences of any of the codes \<open>ws\<close>.\<close>

function strip_codes :: "string list \<Rightarrow> string \<Rightarrow> string" where
  "strip_codes ws s =
     (case find (\<lambda>w. w \<noteq> [] \<and> prefix w s) ws of
        None \<Rightarrow> s
      | Some w \<Rightarrow> strip_codes ws (drop (length w) s))"
  by pat_completeness auto
termination
proof (relation "measure (\<lambda>(ws, s). length s)")
  fix ws s w
  assume "find (\<lambda>w. w \<noteq> [] \<and> prefix w s) ws = Some w"
  then have "w \<noteq> []" "prefix w s" by (auto simp: find_Some_iff)
  then show "((ws, drop (length w) s), ws, s) \<in> measure (\<lambda>(ws, s). length s)"
    by (auto simp: prefix_def)
qed simp

declare strip_codes.simps [simp del]

definition trim_start :: "string \<Rightarrow> string" where
  "trim_start s = strip_codes whitespace_codes s"

definition trim_end :: "string \<Rightarrow> string" where
  "trim_end s = rev (strip_codes (map rev whitespace_codes) (rev s))"

definition trim :: "string \<Rightarrow> string" where
  "trim s = trim_end (trim_start s)"

text \<open>White space at the front of a string, as the length of its encoding.\<close>

definition leading_ws :: "string \<Rightarrow> nat option" where
  "leading_ws s = map_option length (find (\<lambda>w. prefix w s) whitespace_codes)"

text \<open>\<open>split_whitespace\<close>: maximal runs without white space. \<open>acc\<close> is the current word.\<close>

fun split_ws_aux :: "nat \<Rightarrow> string \<Rightarrow> string \<Rightarrow> string list" where
  "split_ws_aux 0 acc s = (if acc = [] then [] else [acc])"
| "split_ws_aux (Suc n) acc [] = (if acc = [] then [] else [acc])"
| "split_ws_aux (Suc n) acc (c # s) =
     (case leading_ws (c # s) of
        Some k \<Rightarrow> (if acc = [] then [] else [acc]) @ split_ws_aux n [] (drop k (c # s))
      | None \<Rightarrow> split_ws_aux n (acc @ [c]) s)"

definition split_whitespace :: "string \<Rightarrow> string list" where
  "split_whitespace s = split_ws_aux (Suc (length s)) [] s"

section \<open>Splitting and case\<close>

text \<open>\<open>split(c)\<close> keeps empty pieces; \<open>lines\<close> drops a final empty piece and a trailing
  carriage return of each line.\<close>

fun split_on :: "char \<Rightarrow> string \<Rightarrow> string list" where
  "split_on c [] = [[]]"
| "split_on c (x # xs) =
     (if x = c then [] # split_on c xs
      else case split_on c xs of [] \<Rightarrow> [[x]] | w # ws \<Rightarrow> (x # w) # ws)"

definition strip_cr :: "string \<Rightarrow> string" where
  "strip_cr l = (if l \<noteq> [] \<and> last l = char_of (13::nat) then butlast l else l)"

definition lines :: "string \<Rightarrow> string list" where
  "lines s = (let ps = split_on (char_of (10::nat)) s in
     map strip_cr (butlast ps) @ (if last ps = [] then [] else [last ps]))"

definition to_ascii_lowercase :: "string \<Rightarrow> string" where
  "to_ascii_lowercase s = map (\<lambda>c. let n = of_char c :: nat in
     if 65 \<le> n \<and> n \<le> 90 then char_of (n + 32) else c) s"

definition eq_ignore_ascii_case :: "string \<Rightarrow> string \<Rightarrow> bool" where
  "eq_ignore_ascii_case a b \<longleftrightarrow> to_ascii_lowercase a = to_ascii_lowercase b"

definition is_ascii_digit :: "char \<Rightarrow> bool" where
  "is_ascii_digit c \<longleftrightarrow> (let n = of_char c :: nat in 48 \<le> n \<and> n \<le> 57)"

definition is_ascii_alphanumeric :: "char \<Rightarrow> bool" where
  "is_ascii_alphanumeric c \<longleftrightarrow> (let n = of_char c :: nat in
     48 \<le> n \<and> n \<le> 57 \<or> 65 \<le> n \<and> n \<le> 90 \<or> 97 \<le> n \<and> n \<le> 122)"

definition starts_with :: "string \<Rightarrow> string \<Rightarrow> bool" where
  "starts_with s p \<longleftrightarrow> prefix p s"

definition ends_with :: "string \<Rightarrow> string \<Rightarrow> bool" where
  "ends_with s p \<longleftrightarrow> suffix p s"

section \<open>Decimal numbers\<close>

definition digit_char :: "nat \<Rightarrow> char" where
  "digit_char d = char_of (48 + d)"

fun nat_to_string :: "nat \<Rightarrow> string" where
  "nat_to_string n = (if n < 10 then [digit_char n] else nat_to_string (n div 10) @ [digit_char (n mod 10)])"

declare nat_to_string.simps [simp del]

definition pad_left :: "char \<Rightarrow> nat \<Rightarrow> string \<Rightarrow> string" where
  "pad_left c w s = replicate (w - length s) c @ s"

definition digits_value :: "string \<Rightarrow> nat" where
  "digits_value s = foldl (\<lambda>acc c. acc * 10 + (of_char c - 48)) 0 s"

text \<open>\<open>str::parse\<close> for an unsigned type with largest value \<open>mx\<close>: an optional plus sign, then
  digits only, at least one, and the value in range.\<close>

definition strip_plus :: "string \<Rightarrow> string" where
  "strip_plus s = (case s of c # r \<Rightarrow> if c = CHR ''+'' then r else s | [] \<Rightarrow> s)"

definition parse_uint :: "nat \<Rightarrow> string \<Rightarrow> nat option" where
  "parse_uint mx s =
     (let d = strip_plus s in
      if d \<noteq> [] \<and> list_all is_ascii_digit d \<and> digits_value d \<le> mx then Some (digits_value d) else None)"

section \<open>Lemmas\<close>

lemma of_digit_char [simp]: "d < 10 \<Longrightarrow> of_char (digit_char d) = 48 + d"
  by (simp add: digit_char_def)

lemma digit_char_digit [simp]: "d < 10 \<Longrightarrow> is_ascii_digit (digit_char d)"
  by (simp add: is_ascii_digit_def Let_def)

lemma nat_to_string_nonempty [simp]: "nat_to_string n \<noteq> []"
  by (subst nat_to_string.simps) simp

lemma nat_to_string_digits: "list_all is_ascii_digit (nat_to_string n)"
proof (induction n rule: nat_to_string.induct)
  case (1 n)
  then show ?case by (cases "n < 10") (simp_all add: nat_to_string.simps [of n])
qed

lemma digits_value_snoc: "digits_value (s @ [c]) = digits_value s * 10 + (of_char c - 48)"
  by (simp add: digits_value_def)

lemma digits_value_nat_to_string [simp]: "digits_value (nat_to_string n) = n"
proof (induction n rule: nat_to_string.induct)
  case (1 n)
  show ?case
  proof (cases "n < 10")
    case True
    then show ?thesis by (simp add: nat_to_string.simps [of n] digits_value_def)
  next
    case False
    with 1 show ?thesis by (simp add: nat_to_string.simps [of n] digits_value_snoc)
  qed
qed

lemma nat_to_string_inject [simp]: "nat_to_string m = nat_to_string n \<longleftrightarrow> m = n"
  by (metis digits_value_nat_to_string)

lemma not_digit_notin: "\<not> is_ascii_digit c \<Longrightarrow> c \<notin> set (nat_to_string n)"
  using nat_to_string_digits [of n] by (auto simp: list_all_iff)

lemma plus_not_digit: "\<not> is_ascii_digit CHR ''+''"
  by (simp add: is_ascii_digit_def)

lemma strip_plus_nat_to_string [simp]: "strip_plus (nat_to_string n) = nat_to_string n"
  using not_digit_notin [OF plus_not_digit, of n]
  by (auto simp: strip_plus_def split: list.splits)

lemma parse_nat_to_string: "parse_uint mx (nat_to_string n) = (if n \<le> mx then Some n else None)"
  by (simp add: parse_uint_def nat_to_string_digits)

lemma parse_uint_SomeD: "parse_uint mx s = Some n \<Longrightarrow> n \<le> mx \<and> s \<noteq> []"
  by (auto simp: parse_uint_def strip_plus_def Let_def split: if_splits list.splits)

lemma split_on_nonempty [simp]: "split_on c s \<noteq> []"
  by (cases s) (auto split: list.splits)

lemma split_on_no_sep: "c \<notin> set s \<Longrightarrow> split_on c s = [s]"
  by (induction s) auto

lemma split_on_append: "c \<notin> set s \<Longrightarrow> split_on c (s @ c # r) = s # split_on c r"
  by (induction s) auto

lemma split_on_pieces: "w \<in> set (split_on c s) \<Longrightarrow> c \<notin> set w"
proof (induction s arbitrary: w)
  case Nil
  then show ?case by simp
next
  case (Cons x s)
  obtain v vs where "split_on c s = v # vs" by (meson neq_Nil_conv split_on_nonempty)
  with Cons show ?case by (auto split: if_splits)
qed

lemma to_ascii_lowercase_idem [simp]: "to_ascii_lowercase (to_ascii_lowercase s) = to_ascii_lowercase s"
  by (auto simp: to_ascii_lowercase_def Let_def)

lemma strip_codes_suffix: "suffix (strip_codes ws s) s"
proof (induction ws s rule: strip_codes.induct)
  case (1 ws s)
  show ?case
  proof (cases "find (\<lambda>w. w \<noteq> [] \<and> prefix w s) ws")
    case None
    then show ?thesis by (simp add: strip_codes.simps [of ws s])
  next
    case (Some w)
    with 1 have "suffix (strip_codes ws (drop (length w) s)) (drop (length w) s)" by blast
    with Some show ?thesis
      by (simp add: strip_codes.simps [of ws s]) (meson suffix_drop suffix_order.trans)
  qed
qed

lemma strip_codes_done: "w \<in> set ws \<Longrightarrow> w \<noteq> [] \<Longrightarrow> \<not> prefix w (strip_codes ws s)"
proof (induction ws s rule: strip_codes.induct)
  case (1 ws s)
  show ?case
  proof (cases "find (\<lambda>w. w \<noteq> [] \<and> prefix w s) ws")
    case None
    then have "strip_codes ws s = s" by (simp add: strip_codes.simps [of ws s])
    with None "1.prems" show ?thesis by (auto simp: find_None_iff)
  next
    case (Some v)
    with 1 show ?thesis by (simp add: strip_codes.simps [of ws s])
  qed
qed

lemma strip_codes_idem [simp]: "strip_codes ws (strip_codes ws s) = strip_codes ws s"
  by (subst strip_codes.simps) (auto simp: find_None_iff strip_codes_done split: option.splits
      dest!: find_Some_iff [THEN iffD1] dest: nth_mem)

lemma trim_sublist: "sublist (trim s) s"
proof -
  have "suffix (trim_start s) s" by (simp add: trim_start_def strip_codes_suffix)
  moreover have "prefix (trim s) (trim_start s)"
    using strip_codes_suffix [of "map rev whitespace_codes" "rev (trim_start s)"]
    by (simp add: trim_def trim_end_def suffix_to_prefix)
  ultimately show ?thesis
    by (metis sublist_order.order.trans prefix_imp_sublist suffix_imp_sublist)
qed

lemma trim_set: "set (trim s) \<subseteq> set s"
  using trim_sublist by (metis set_mono_sublist)

text \<open>A byte that occurs in no white space code survives trimming.\<close>

lemma strip_codes_keeps:
  "c \<in> set s \<Longrightarrow> \<forall>w \<in> set ws. c \<notin> set w \<Longrightarrow> c \<in> set (strip_codes ws s)"
proof (induction ws s rule: strip_codes.induct)
  case (1 ws s)
  show ?case
  proof (cases "find (\<lambda>w. w \<noteq> [] \<and> prefix w s) ws")
    case None
    with 1 show ?thesis by (simp add: strip_codes.simps [of ws s])
  next
    case (Some w)
    then have w: "w \<in> set ws" "prefix w s" by (auto simp: find_Some_iff)
    then have "c \<in> set (drop (length w) s)"
      using "1.prems" by (auto simp: prefix_def)
    with 1 Some show ?thesis by (simp add: strip_codes.simps [of ws s])
  qed
qed

definition ws_free :: "char \<Rightarrow> bool" where
  "ws_free c \<longleftrightarrow> list_all (\<lambda>w. c \<notin> set w) whitespace_codes"

lemma trim_keeps: "c \<in> set s \<Longrightarrow> ws_free c \<Longrightarrow> c \<in> set (trim s)"
  using strip_codes_keeps [of c s whitespace_codes]
    strip_codes_keeps [of c "rev (trim_start s)" "map rev whitespace_codes"]
  by (simp add: trim_def trim_end_def trim_start_def ws_free_def list_all_iff)

lemma trim_nonempty: "c \<in> set s \<Longrightarrow> ws_free c \<Longrightarrow> trim s \<noteq> []"
  using trim_keeps by fastforce

lemma whitespace_high: "w \<in> set whitespace_codes \<Longrightarrow> c \<in> set w \<Longrightarrow>
    of_char c \<le> (32::nat) \<or> of_char c \<ge> (128::nat)"
  by (auto simp: whitespace_codes_def ascii_def)

lemma ws_free_ascii: "32 < (of_char c :: nat) \<Longrightarrow> of_char c < (128::nat) \<Longrightarrow> ws_free c"
  using whitespace_high by (fastforce simp: ws_free_def list_all_iff)

lemma strip_codes_same:
  assumes "\<forall>w \<in> set ws. c \<notin> set w"
  shows "strip_codes ws (c # s) = c # s"
proof -
  have "find (\<lambda>w. w \<noteq> [] \<and> prefix w (c # s)) ws = None"
    unfolding find_None_iff using assms by (auto simp: prefix_Cons)
  then show ?thesis by (simp add: strip_codes.simps)
qed

lemma trim_same:
  assumes "s \<noteq> []" "ws_free (hd s)" "ws_free (last s)"
  shows "trim s = s"
proof -
  have "trim_start s = s"
    using assms strip_codes_same [of whitespace_codes "hd s" "tl s"]
    by (simp add: trim_start_def ws_free_def list_all_iff)
  moreover have "strip_codes (map rev whitespace_codes) (rev s) = rev s"
    using assms strip_codes_same [of "map rev whitespace_codes" "last s" "tl (rev s)"]
    by (simp add: ws_free_def list_all_iff hd_rev [symmetric])
  ultimately show ?thesis by (simp add: trim_def trim_end_def)
qed

lemma trim_Nil [simp]: "trim [] = []"
  using trim_set [of "[]"] by simp

lemma trim_trim [simp]: "trim (trim s) = trim s"
proof -
  have "prefix (trim s) (trim_start s)"
    using strip_codes_suffix [of "map rev whitespace_codes" "rev (trim_start s)"]
    by (simp add: trim_def trim_end_def suffix_to_prefix)
  then have "\<not> prefix w (trim s)" if "w \<in> set whitespace_codes" "w \<noteq> []" for w
    using strip_codes_done [OF that, of s] by (auto simp: trim_start_def dest: prefix_order.trans)
  then have "find (\<lambda>w. w \<noteq> [] \<and> prefix w (trim s)) whitespace_codes = None"
    by (auto simp: find_None_iff)
  then have "trim_start (trim s) = trim s" by (simp add: trim_start_def strip_codes.simps [of _ "trim s"])
  then have "trim (trim s) = trim_end (trim s)" by (simp add: trim_def)
  also have "\<dots> = trim s" by (simp add: trim_def trim_end_def)
  finally show ?thesis .
qed

lemma digit_ws_free: "is_ascii_digit c \<Longrightarrow> ws_free c"
  by (rule ws_free_ascii) (simp_all add: is_ascii_digit_def Let_def)

end
