(* ===== verification/Net_Addr.thy ===== *)
theory Net_Addr
  imports Rust_Std
begin

text \<open>
  Socket addresses of Rust's standard library as far as the sources use them: the two
  families, the multicast test, and the textual form of IPv4 addresses with its parser,
  which the configuration (\<open>multicast_outbound_ip\<close>) and the discovery messages rely on.
\<close>

datatype SocketAddr = V4 u32 u16 | V6 "u16 list" u16

definition is_ipv4 :: "SocketAddr \<Rightarrow> bool" where
  "is_ipv4 a = (case a of V4 _ _ \<Rightarrow> True | V6 _ _ \<Rightarrow> False)"

primrec addr_port :: "SocketAddr \<Rightarrow> u16" where
  "addr_port (V4 _ p) = p"
| "addr_port (V6 _ p) = p"

text \<open>\<open>IpAddr::is_multicast\<close>: 224.0.0.0/4, and ff00::/8 on the first of the eight segments.\<close>

definition is_multicast :: "SocketAddr \<Rightarrow> bool" where
  "is_multicast a = (case a of V4 ip _ \<Rightarrow> unat ip div 2 ^ 28 = 14
     | V6 segs _ \<Rightarrow> segs \<noteq> [] \<and> unat (hd segs) div 256 = 255)"

section \<open>IPv4 text\<close>

definition octets :: "u32 \<Rightarrow> nat list" where
  "octets ip = [unat ip div 2 ^ 24, unat ip div 2 ^ 16 mod 256, unat ip div 2 ^ 8 mod 256, unat ip mod 256]"

definition ipv4_of_octets :: "nat \<Rightarrow> nat \<Rightarrow> nat \<Rightarrow> nat \<Rightarrow> u32" where
  "ipv4_of_octets a b c d = word_of_nat (a * 2 ^ 24 + b * 2 ^ 16 + c * 2 ^ 8 + d)"

definition ipv4_to_string :: "u32 \<Rightarrow> string" where
  "ipv4_to_string ip =
     (case octets ip of
        [a, b, c, d] \<Rightarrow> nat_to_string a @ ''.'' @ nat_to_string b @ ''.'' @ nat_to_string c @ ''.'' @ nat_to_string d
      | _ \<Rightarrow> [])"

text \<open>An octet has at most three digits, no superfluous leading zero and a value below 256.\<close>

definition parse_octet :: "string \<Rightarrow> nat option" where
  "parse_octet s =
     (if s \<noteq> [] \<and> length s \<le> 3 \<and> list_all is_ascii_digit s \<and> (hd s = CHR ''0'' \<longrightarrow> length s = 1)
         \<and> digits_value s \<le> 255
      then Some (digits_value s) else None)"

definition parse_ipv4 :: "string \<Rightarrow> u32 option" where
  "parse_ipv4 s =
     (case map parse_octet (split_on (CHR ''.'') s) of
        [Some a, Some b, Some c, Some d] \<Rightarrow> Some (ipv4_of_octets a b c d)
      | _ \<Rightarrow> None)"

lemma nat_to_string_length_le_3: "n < 1000 \<Longrightarrow> length (nat_to_string n) \<le> 3"
  by (simp add: nat_to_string.simps [of n] nat_to_string.simps [of "n div 10"]
      nat_to_string.simps [of "n div 10 div 10"])

lemma digit_char_zero: "digit_char 0 = CHR ''0''"
proof -
  have "char_of (of_char (CHR ''0'') :: nat) = CHR ''0''" by (rule char_of_char)
  then show ?thesis by (simp add: digit_char_def)
qed

lemma nat_to_string_hd_zero: "hd (nat_to_string n) = CHR ''0'' \<longleftrightarrow> n = 0"
proof (induction n rule: nat_to_string.induct)
  case (1 n)
  have zero: "digit_char d = CHR ''0'' \<longleftrightarrow> d = 0" if "d < 10" for d
  proof
    assume "digit_char d = CHR ''0''"
    then have "(of_char (digit_char d) :: nat) = of_char (CHR ''0'')" by simp
    then show "d = 0" using that by simp
  qed (simp add: digit_char_zero)
  show ?case
  proof (cases "n < 10")
    case True
    then show ?thesis by (simp add: nat_to_string.simps [of n] zero)
  next
    case False
    with 1 show ?thesis by (simp add: nat_to_string.simps [of n])
  qed
qed

lemma parse_octet_nat_to_string: "n < 256 \<Longrightarrow> parse_octet (nat_to_string n) = Some n"
proof (cases "n = 0")
  case True
  then show ?thesis
    by (simp add: parse_octet_def nat_to_string.simps digit_char_zero is_ascii_digit_def digits_value_def)
next
  case False
  assume "n < 256"
  with False nat_to_string_length_le_3 [of n] nat_to_string_hd_zero [of n] show ?thesis
    by (simp add: parse_octet_def nat_to_string_digits)
qed

lemma dot_not_digit: "CHR ''.'' \<notin> set (nat_to_string n)"
  by (rule not_digit_notin) (simp add: is_ascii_digit_def)

lemma octets_recompose:
  "ipv4_of_octets (unat ip div 2 ^ 24) (unat ip div 2 ^ 16 mod 256) (unat ip div 2 ^ 8 mod 256) (unat ip mod 256) = ip"
proof -
  define x where "x = unat ip"
  define q1 q2 q3 where "q1 = x div 256" and "q2 = q1 div 256" and "q3 = q2 div 256"
  have "x div 2 ^ 16 = q2" "x div 2 ^ 24 = q3" "x div 2 ^ 8 = q1"
    by (simp_all add: q1_def q2_def q3_def div_mult2_eq [symmetric])
  moreover have "x = q1 * 256 + x mod 256" "q1 = q2 * 256 + q1 mod 256" "q2 = q3 * 256 + q2 mod 256"
    by (simp_all only: q1_def q2_def q3_def div_mult_mod_eq)
  ultimately have "x div 2 ^ 24 * 2 ^ 24 + x div 2 ^ 16 mod 256 * 2 ^ 16 + x div 2 ^ 8 mod 256 * 2 ^ 8
      + x mod 256 = x"
    by simp
  then show ?thesis by (simp only: ipv4_of_octets_def x_def) simp
qed

lemma parse_ipv4_to_string: "parse_ipv4 (ipv4_to_string ip) = Some ip"
proof -
  have "unat ip < 2 ^ LENGTH(32)" by (rule unsigned_less)
  then have a: "unat ip div 2 ^ 24 < 256" by simp
  have "split_on (CHR ''.'') (ipv4_to_string ip) = map nat_to_string (octets ip)"
    by (simp add: ipv4_to_string_def octets_def split_on_append split_on_no_sep dot_not_digit)
  with a show ?thesis
    using octets_recompose [of ip]
    by (simp add: parse_ipv4_def octets_def parse_octet_nat_to_string)
qed

end
