(* ===== verification/Udp_Server.thy ===== *)
theory Udp_Server
  imports Server_Transport Net_Addr
begin

text \<open>
  The UDP server loop of \<^verbatim>\<open>crates/server/src/udp_transport.rs\<close>, one received datagram at a
  time, and the datagram capacity of \<^verbatim>\<open>crates/common/src/udp.rs\<close> with the detection of the
  route's device and MTU. The command \<^verbatim>\<open>ip route get\<close>, the sysfs file and the success of each
  send are parameters; log lines are not modelled.
\<close>

section \<open>Datagram capacity\<close>

text \<open>The word after the first \<open>dev\<close> in the output of the command.\<close>

fun word_after_dev :: "string list \<Rightarrow> string option" where
  "word_after_dev [] = None"
| "word_after_dev (w # ws) = (if w = ''dev'' then (case ws of [] \<Rightarrow> None | v # _ \<Rightarrow> Some v) else word_after_dev ws)"

text \<open>\<open>ip_route_get\<close> is the standard output of a successful command, after the probe socket
  could be connected.\<close>

definition route_device :: "(SocketAddr \<Rightarrow> string option) \<Rightarrow> SocketAddr \<Rightarrow> string option" where
  "route_device ip_route_get remote =
     (case ip_route_get remote of None \<Rightarrow> None | Some out \<Rightarrow> word_after_dev (split_whitespace out))"

definition detect_route_mtu ::
    "(SocketAddr \<Rightarrow> string option) \<Rightarrow> (string \<Rightarrow> string option) \<Rightarrow> SocketAddr \<Rightarrow> nat option" where
  "detect_route_mtu ip_route_get read_file remote =
     (case route_device ip_route_get remote of
        None \<Rightarrow> None
      | Some dev \<Rightarrow>
          (case read_file (''/sys/class/net/'' @ dev @ ''/mtu'') of
             None \<Rightarrow> None
           | Some raw \<Rightarrow> parse_uint (2 ^ 64 - 1) (trim raw)))"

definition ip_header_len :: "SocketAddr \<Rightarrow> nat" where
  "ip_header_len remote = (if is_ipv4 remote then 20 else 40)"

definition effective_udp_payload_capacity ::
    "(SocketAddr \<Rightarrow> nat option) \<Rightarrow> SocketAddr \<Rightarrow> u16 \<Rightarrow> nat" where
  "effective_udp_payload_capacity route_mtu remote configured_mtu =
     (let mtu = (if configured_mtu > 0 then unat configured_mtu
                 else case route_mtu remote of Some m \<Rightarrow> m | None \<Rightarrow> UDP_FALLBACK_MTU)
      in max (mtu - (ip_header_len remote + 8 + UDP_CHUNK_HEADER_LEN)) UDP_MIN_PAYLOAD)"

section \<open>The server loop\<close>

record udp_server =
  us_cache :: GresCache
  us_reassemblers :: "SocketAddr \<rightharpoonup> UdpFrameReassembler"
  us_payload_caps :: "SocketAddr \<rightharpoonup> nat"

text \<open>What one iteration of the loop sees: the clock, the configuration, the route, the socket and
  the two cache lookups it may make.\<close>

record udp_env =
  ue_now :: instant
  ue_idle_timeout :: nat
  ue_configured_mtu :: u16
  ue_route_mtu :: "SocketAddr \<Rightarrow> nat option"
  ue_send_ok :: "bytes \<Rightarrow> bool"
  ue_first_lookup :: lookup_env
  ue_second_lookup :: lookup_env

definition udp_server_new :: "GresCache \<Rightarrow> udp_server" where
  "udp_server_new c = \<lparr>us_cache = c, us_reassemblers = Map.empty, us_payload_caps = Map.empty\<rparr>"

definition extract_frame ::
    "'h crc32 \<Rightarrow> udp_env \<Rightarrow> udp_server \<Rightarrow> SocketAddr \<Rightarrow> bytes \<Rightarrow> udp_server \<times> bytes option" where
  "extract_frame crc env s peer datagram =
     (case decode_udp_single_chunk_ref crc datagram of
        Err _ \<Rightarrow> (s, None)
      | Ok (Some frame) \<Rightarrow> (s, Some frame)
      | Ok None \<Rightarrow>
          let fresh = reassembler_new (ue_now env) (ue_idle_timeout env);
              r = (case us_reassemblers s peer of Some r \<Rightarrow> r | None \<Rightarrow> fresh);
              r = (if reassembler_is_expired (ue_now env) r then fresh else r);
              (r', res) = reassembler_insert crc r datagram
          in (s\<lparr>us_reassemblers := (us_reassemblers s)(peer \<mapsto> r')\<rparr>,
              case res of Ok (Some frame) \<Rightarrow> Some frame | _ \<Rightarrow> None))"

definition payload_cap :: "udp_env \<Rightarrow> udp_server \<Rightarrow> SocketAddr \<Rightarrow> udp_server \<times> nat" where
  "payload_cap env s peer =
     (case us_payload_caps s peer of
        Some n \<Rightarrow> (s, n)
      | None \<Rightarrow>
          let n = effective_udp_payload_capacity (ue_route_mtu env) peer (ue_configured_mtu env)
          in (s\<lparr>us_payload_caps := (us_payload_caps s)(peer \<mapsto> n)\<rparr>, n))"

text \<open>Sending stops at the first datagram the socket refuses; the result is what was handed to it.\<close>

fun send_chunks :: "(bytes \<Rightarrow> bool) \<Rightarrow> bytes list \<Rightarrow> bytes list" where
  "send_chunks ok [] = []"
| "send_chunks ok (d # ds) = d # (if ok d then send_chunks ok ds else [])"

definition send_response :: "'h crc32 \<Rightarrow> udp_env \<Rightarrow> nat \<Rightarrow> bytes \<Rightarrow> bytes list" where
  "send_response crc env max_payload response =
     (if length response \<le> max_payload
      then (case encode_udp_single_chunk crc response of Ok d \<Rightarrow> [d] | Err _ \<Rightarrow> [])
      else (case encode_udp_chunks crc response max_payload of
              Ok ds \<Rightarrow> send_chunks (ue_send_ok env) ds | Err _ \<Rightarrow> []))"

text \<open>The general path: \<open>None\<close> while the lookup waits.\<close>

definition general_path ::
    "'h crc32 \<Rightarrow> TransportContext \<Rightarrow> udp_env \<Rightarrow> lookup_env \<Rightarrow> udp_server \<Rightarrow> SocketAddr \<Rightarrow> bytes
      \<Rightarrow> (udp_server \<times> bytes list) option" where
  "general_path crc ctx env lookup s peer frame =
     (let (c, res) = handle_frame ctx lookup (us_cache s) frame; s = s\<lparr>us_cache := c\<rparr> in
      case res of
        None \<Rightarrow> None
      | Some (Err _) \<Rightarrow> Some (s, [])
      | Some (Ok response) \<Rightarrow>
          let (s, max_payload) = payload_cap env s peer
          in Some (s, send_response crc env max_payload response))"

text \<open>The datagram paths, for a handshake and for a query without payload.\<close>

definition fast_path ::
    "'h crc32 \<Rightarrow> TransportContext \<Rightarrow> udp_env \<Rightarrow> udp_server \<Rightarrow> SocketAddr \<Rightarrow> bytes
      \<Rightarrow> (nat \<Rightarrow> GresCache \<times> (TransportError + bytes option) option)
      \<Rightarrow> (udp_server \<times> bytes list) option" where
  "fast_path crc ctx env s peer frame handler =
     (let (s, max_payload) = payload_cap env s peer; (c, res) = handler max_payload;
          s = s\<lparr>us_cache := c\<rparr>
      in case res of
           None \<Rightarrow> None
         | Some (Err _) \<Rightarrow> Some (s, [])
         | Some (Ok (Some datagram)) \<Rightarrow> Some (s, [datagram])
         | Some (Ok None) \<Rightarrow> general_path crc ctx env (ue_second_lookup env) s peer frame)"

definition serve_frame ::
    "'h crc32 \<Rightarrow> TransportContext \<Rightarrow> udp_env \<Rightarrow> udp_server \<Rightarrow> SocketAddr \<Rightarrow> bytes
      \<Rightarrow> (udp_server \<times> bytes list) option" where
  "serve_frame crc ctx env s peer frame =
     (case decode_transport_frame frame of
        Err _ \<Rightarrow> general_path crc ctx env (ue_first_lookup env) s peer frame
      | Ok d \<Rightarrow>
          let rid = fh_request_id (df_header d); ft = fh_frame_type (df_header d) in
          if ft = Disconnect then Some (s\<lparr>us_reassemblers := (us_reassemblers s)(peer := None)\<rparr>, [])
          else if ft = HandshakeRequest
          then fast_path crc ctx env s peer frame
                 (handle_udp_metadata_datagram crc ctx (ue_first_lookup env) (us_cache s) rid (df_payload d))
          else if ft = QueryRequest \<and> df_payload d = []
          then fast_path crc ctx env s peer frame
                 (handle_empty_query_udp_datagram crc ctx (ue_first_lookup env) (us_cache s) rid)
          else general_path crc ctx env (ue_first_lookup env) s peer frame)"

definition udp_receive ::
    "'h crc32 \<Rightarrow> TransportContext \<Rightarrow> udp_env \<Rightarrow> udp_server \<Rightarrow> SocketAddr \<Rightarrow> bytes
      \<Rightarrow> (udp_server \<times> bytes list) option" where
  "udp_receive crc ctx env s peer datagram =
     (case extract_frame crc env s peer datagram of
        (s, None) \<Rightarrow> Some (s, [])
      | (s, Some frame) \<Rightarrow> serve_frame crc ctx env s peer frame)"

section \<open>Capacity and sizes\<close>

definition path_mtu :: "(SocketAddr \<Rightarrow> nat option) \<Rightarrow> SocketAddr \<Rightarrow> u16 \<Rightarrow> nat" where
  "path_mtu route_mtu remote configured_mtu =
     (if configured_mtu > 0 then unat configured_mtu
      else case route_mtu remote of Some m \<Rightarrow> m | None \<Rightarrow> UDP_FALLBACK_MTU)"

lemma capacity_fits:
  "ip_header_len a + 8 + UDP_CHUNK_HEADER_LEN + effective_udp_payload_capacity rm a m \<le>
     max (path_mtu rm a m) (ip_header_len a + 8 + UDP_CHUNK_HEADER_LEN + UDP_MIN_PAYLOAD)"
  by (simp add: effective_udp_payload_capacity_def path_mtu_def Let_def)

lemma capacity_min: "UDP_MIN_PAYLOAD \<le> effective_udp_payload_capacity rm a m"
  by (simp add: effective_udp_payload_capacity_def Let_def)

lemma length_single_datagram:
  "encode_udp_single_chunk crc frame = Ok d \<Longrightarrow> length d = UDP_CHUNK_HEADER_LEN + length frame"
  by (erule encode_single_OkD) simp

lemma length_parts_datagram:
  "encode_udp_single_chunk_from_parts crc ft rid p = Ok d \<Longrightarrow>
     length d = UDP_CHUNK_HEADER_LEN + FRAME_HEADER_LEN + length p"
  by (auto simp: encode_udp_single_chunk_from_parts_def Let_def split: option.splits if_splits)

lemma length_chunk_datagram:
  assumes "encode_udp_chunks crc frame mp = Ok ds" "d \<in> set ds"
  shows "length d \<le> UDP_CHUNK_HEADER_LEN + mp"
  by (rule encode_udp_chunks_OkD [OF assms(1)])
    (use assms(2) in \<open>auto simp: datagram_of_def dest: chunks_of_length_le [OF nth_mem]\<close>)

lemma send_chunks_subset: "set (send_chunks ok ds) \<subseteq> set ds"
  by (induction ds) auto

lemma send_chunks_all: "\<forall>d \<in> set ds. ok d \<Longrightarrow> send_chunks ok ds = ds"
  by (induction ds) auto

lemma send_response_fits:
  "d \<in> set (send_response crc env mp response) \<Longrightarrow> length d \<le> UDP_CHUNK_HEADER_LEN + mp"
  by (auto simp: send_response_def length_single_datagram split: if_splits sum.splits)
    (metis length_chunk_datagram send_chunks_subset subsetD)

lemma datagram_from_parts_fits:
  "datagram_from_parts crc ft rid mp p = Ok (Some d) \<Longrightarrow> length d \<le> UDP_CHUNK_HEADER_LEN + mp"
  by (auto simp: datagram_from_parts_def result_simps dest!: length_parts_datagram split: if_splits)

lemma fast_handlers_fit:
  "handle_udp_metadata_datagram crc ctx env c rid p mp = (c', Some (Ok (Some d))) \<Longrightarrow>
     length d \<le> UDP_CHUNK_HEADER_LEN + mp"
  "handle_empty_query_udp_datagram crc ctx env c rid mp = (c', Some (Ok (Some d))) \<Longrightarrow>
     length d \<le> UDP_CHUNK_HEADER_LEN + mp"
  by (auto simp: handle_udp_metadata_datagram_def handle_empty_query_udp_datagram_def error_datagram_def
      result_simps dest!: with_entry_SomeD sym [of "Ok (Some d)"] dest: datagram_from_parts_fits
      split: sum.splits)

section \<open>The loop invariant\<close>

definition server_wf :: "udp_server \<Rightarrow> bool" where
  "server_wf s \<longleftrightarrow> cache_wf (us_cache s)
     \<and> (\<forall>p r. us_reassemblers s p = Some r \<longrightarrow> reassembler_wf r)
     \<and> (\<forall>p n. us_payload_caps s p = Some n \<longrightarrow> UDP_MIN_PAYLOAD \<le> n)"

definition cap_of :: "udp_env \<Rightarrow> udp_server \<Rightarrow> SocketAddr \<Rightarrow> nat" where
  "cap_of env s peer = snd (payload_cap env s peer)"

text \<open>Two states that differ at one peer only.\<close>

definition same_elsewhere :: "SocketAddr \<Rightarrow> udp_server \<Rightarrow> udp_server \<Rightarrow> bool" where
  "same_elsewhere peer s s' \<longleftrightarrow> (\<forall>q. q \<noteq> peer \<longrightarrow>
     us_reassemblers s' q = us_reassemblers s q \<and> us_payload_caps s' q = us_payload_caps s q)"

lemma same_elsewhere_trans:
  "same_elsewhere p s s' \<Longrightarrow> same_elsewhere p s' s'' \<Longrightarrow> same_elsewhere p s s''"
  by (simp add: same_elsewhere_def)

lemma payload_cap_wf:
  assumes "payload_cap env s peer = (s', n)" "server_wf s"
  shows "server_wf s'" "same_elsewhere peer s s'" "us_cache s' = us_cache s"
    "us_reassemblers s' = us_reassemblers s" "n = cap_of env s peer" "cap_of env s' peer = n"
  using assms capacity_min
  by (auto simp: payload_cap_def cap_of_def server_wf_def same_elsewhere_def Let_def
      split: option.splits if_splits)

lemma extract_frame_wf:
  assumes "extract_frame crc env s peer d = (s', f)" "server_wf s"
  shows "server_wf s'" "same_elsewhere peer s s'" "us_cache s' = us_cache s"
    "us_payload_caps s' = us_payload_caps s"
  using assms
  by (auto simp: extract_frame_def server_wf_def same_elsewhere_def Let_def split_def reassembler_new_wf
      intro!: reassembler_insert_wf split: sum.splits option.splits if_splits)

lemma set_cache_wf: "server_wf s \<Longrightarrow> cache_wf c \<Longrightarrow> server_wf (s\<lparr>us_cache := c\<rparr>)"
  by (simp add: server_wf_def)

text \<open>What one step promises: it answers, keeps the invariant, touches no other peer and sends
  nothing larger than the peer's capacity allows.\<close>

definition step_ok ::
    "udp_env \<Rightarrow> udp_server \<Rightarrow> SocketAddr \<Rightarrow> (udp_server \<times> bytes list) option \<Rightarrow> bool" where
  "step_ok env s peer res \<longleftrightarrow> (\<exists>s' out. res = Some (s', out) \<and> server_wf s' \<and> same_elsewhere peer s s'
     \<and> (\<forall>d \<in> set out. length d \<le> UDP_CHUNK_HEADER_LEN + cap_of env s peer))"

lemma step_ok_Some [simp]:
  "step_ok env s peer (Some (s', out)) \<longleftrightarrow> server_wf s' \<and> same_elsewhere peer s s'
     \<and> (\<forall>d \<in> set out. length d \<le> UDP_CHUNK_HEADER_LEN + cap_of env s peer)"
  by (auto simp: step_ok_def)

lemma step_ok_trans:
  "step_ok env s' peer res \<Longrightarrow> same_elsewhere peer s s' \<Longrightarrow> cap_of env s' peer = cap_of env s peer \<Longrightarrow>
   step_ok env s peer res"
  by (auto simp: step_ok_def intro: same_elsewhere_trans)

lemma same_elsewhere_cache [simp]: "same_elsewhere p s (s\<lparr>us_cache := c\<rparr>)"
  by (simp add: same_elsewhere_def)

lemma cap_of_cache [simp]: "cap_of env (s\<lparr>us_cache := c\<rparr>) peer = cap_of env s peer"
  by (simp add: cap_of_def payload_cap_def Let_def split: option.split)

lemma general_path_ok:
  assumes "server_wf s"
  shows "step_ok env s peer (general_path crc ctx env lookup s peer frame)"
proof -
  obtain c res where h: "handle_frame ctx lookup (us_cache s) frame = (c, Some res)" and "cache_wf c"
    using handle_frame_wf [of "us_cache s" ctx lookup frame] assms
    by (cases "handle_frame ctx lookup (us_cache s) frame") (auto simp: server_wf_def)
  then have wf: "server_wf (s\<lparr>us_cache := c\<rparr>)" using assms by (simp add: set_cache_wf)
  show ?thesis
  proof (cases res)
    case (Inl e)
    with h wf show ?thesis by (simp add: general_path_def)
  next
    case (Inr response)
    obtain s' n where p: "payload_cap env (s\<lparr>us_cache := c\<rparr>) peer = (s', n)" by fastforce
    note q = payload_cap_wf [OF p wf]
    have "same_elsewhere peer s s'" using q(2) by (simp add: same_elsewhere_def)
    with h Inr p q(1, 5) show ?thesis
      by (auto simp: general_path_def dest: send_response_fits)
  qed
qed

lemma fast_path_ok:
  assumes "server_wf s"
    and handler: "\<And>n. cache_wf (fst (handler n)) \<and> snd (handler n) \<noteq> None"
    and fits: "\<And>n c d. handler n = (c, Some (Ok (Some d))) \<Longrightarrow> length d \<le> UDP_CHUNK_HEADER_LEN + n"
  shows "step_ok env s peer (fast_path crc ctx env s peer frame handler)"
proof -
  obtain s1 n where p: "payload_cap env s peer = (s1, n)" by fastforce
  note q = payload_cap_wf [OF p assms(1)]
  obtain c res where h: "handler n = (c, Some res)" and "cache_wf c"
    using handler [of n] by (cases "handler n") auto
  with q have wf: "server_wf (s1\<lparr>us_cache := c\<rparr>)" by (simp add: set_cache_wf)
  have near: "same_elsewhere peer s (s1\<lparr>us_cache := c\<rparr>)" using q(2) by (simp add: same_elsewhere_def)
  show ?thesis
  proof (cases res)
    case (Inl e)
    with p h wf near show ?thesis by (simp add: fast_path_def)
  next
    case (Inr od)
    show ?thesis
    proof (cases od)
      case None
      with Inr p h have "fast_path crc ctx env s peer frame handler =
          general_path crc ctx env (ue_second_lookup env) (s1\<lparr>us_cache := c\<rparr>) peer frame"
        by (simp add: fast_path_def)
      moreover have "cap_of env (s1\<lparr>us_cache := c\<rparr>) peer = cap_of env s peer" using q(5, 6) by simp
      ultimately show ?thesis using step_ok_trans [OF general_path_ok [OF wf] near] by simp
    next
      case (Some d)
      with Inr p h wf near fits [of n c d] q(5) show ?thesis by (simp add: fast_path_def)
    qed
  qed
qed

lemma with_entry_total:
  "cache_wf c \<Longrightarrow> cache_wf (fst (with_entry ctx env c k)) \<and> snd (with_entry ctx env c k) \<noteq> None"
  by (erule with_entry_answers [of c ctx env k]) simp

lemma fast_handlers_total:
  assumes "cache_wf c"
  shows "cache_wf (fst (handle_udp_metadata_datagram crc ctx env c rid p n))
      \<and> snd (handle_udp_metadata_datagram crc ctx env c rid p n) \<noteq> None"
    "cache_wf (fst (handle_empty_query_udp_datagram crc ctx env c rid n))
      \<and> snd (handle_empty_query_udp_datagram crc ctx env c rid n) \<noteq> None"
  using assms
  by (auto simp: handle_udp_metadata_datagram_def handle_empty_query_udp_datagram_def
      with_entry_total [OF assms] simp del: not_None_eq split: sum.split)

lemma serve_frame_ok:
  assumes "server_wf s"
  shows "step_ok env s peer (serve_frame crc ctx env s peer frame)"
proof (cases "decode_transport_frame frame")
  case (Inl e)
  then show ?thesis by (simp add: serve_frame_def general_path_ok assms)
next
  case (Inr d)
  have c: "cache_wf (us_cache s)" using assms by (simp add: server_wf_def)
  have gone: "server_wf (s\<lparr>us_reassemblers := (us_reassemblers s)(peer := None)\<rparr>)"
    "same_elsewhere peer s (s\<lparr>us_reassemblers := (us_reassemblers s)(peer := None)\<rparr>)"
    using assms by (simp_all add: server_wf_def same_elsewhere_def)
  note f = fast_path_ok [OF assms] fast_handlers_total [OF c] fast_handlers_fit
  show ?thesis
    using Inr gone by (simp add: serve_frame_def Let_def f general_path_ok assms)
qed

lemma udp_receive_ok:
  assumes "server_wf s"
  shows "step_ok env s peer (udp_receive crc ctx env s peer d)"
proof -
  obtain s1 f where e: "extract_frame crc env s peer d = (s1, f)" by fastforce
  note x = extract_frame_wf [OF e assms]
  have cap: "cap_of env s1 peer = cap_of env s peer"
    using x(4) by (simp add: cap_of_def payload_cap_def Let_def split: option.split)
  show ?thesis
  proof (cases f)
    case None
    with e x(1, 2) show ?thesis by (simp add: udp_receive_def)
  next
    case (Some frame)
    with e step_ok_trans [OF serve_frame_ok [OF x(1)] x(2) cap] show ?thesis
      by (simp add: udp_receive_def)
  qed
qed

section \<open>Which response is sent\<close>

lemma handle_frame_fast:
  assumes "decode_frame frame = Ok (h, p)"
  shows "fh_frame_type h = HandshakeRequest \<Longrightarrow>
      handle_frame ctx env c frame = handle_handshake ctx env c (fh_request_id h) p"
    "fh_frame_type h = QueryRequest \<Longrightarrow>
      handle_frame ctx env c frame = handle_query ctx env c (fh_request_id h) p"
  using assms
  by (simp_all add: handle_frame_def decode_transport_frame_def handle_decoded_frame_def)

lemma fast_path_sends:
  assumes p: "payload_cap env s peer = (s1, n)"
    and h: "handler n = map_prod id (map_option (to_datagram crc n)) (c', Some (Ok response))"
    and fits: "length response \<le> n"
  shows "fast_path crc ctx env s peer frame handler =
    Some (s1\<lparr>us_cache := c'\<rparr>, send_response crc env n response)"
  using assms
  by (cases "encode_udp_single_chunk crc response")
    (simp_all add: fast_path_def to_datagram_def send_response_def)

lemma serve_frame_sends:
  assumes crc: "crc_streaming crc" and wf: "server_wf s" and cap: "cap_of env s peer \<le> 65535"
    and dec: "decode_frame frame = Ok (h, p)"
    and req: "fh_frame_type h = HandshakeRequest \<or> fh_frame_type h = QueryRequest"
    and res: "handle_frame ctx (ue_first_lookup env) (us_cache s) frame = (c', Some (Ok response))"
    and fits: "length response \<le> cap_of env s peer"
  obtains s' where "serve_frame crc ctx env s peer frame =
    Some (s', send_response crc env (cap_of env s peer) response)" "us_cache s' = c'"
proof -
  obtain s1 n where pc: "payload_cap env s peer = (s1, n)" by fastforce
  note q = payload_cap_wf [OF pc wf]
  have d: "decode_transport_frame frame = Ok \<lparr>df_header = h, df_payload = p\<rparr>"
    using dec by (simp add: decode_transport_frame_def)
  show thesis
  proof (cases "fh_frame_type h = HandshakeRequest")
    case True
    with d res handle_frame_fast(1) [OF dec True] have "serve_frame crc ctx env s peer frame =
        Some (s1\<lparr>us_cache := c'\<rparr>, send_response crc env n response)"
      using q(5) cap fits
      by (simp add: serve_frame_def metadata_datagram_eq [OF crc] fast_path_sends [OF pc])
    with that [of "s1\<lparr>us_cache := c'\<rparr>"] q(5) show thesis by simp
  next
    case False
    with req have query: "fh_frame_type h = QueryRequest" by blast
    show thesis
    proof (cases "p = []")
      case True
      with d res handle_frame_fast(2) [OF dec query] query have "serve_frame crc ctx env s peer frame =
          Some (s1\<lparr>us_cache := c'\<rparr>, send_response crc env n response)"
        using q(5) cap fits
        by (simp add: serve_frame_def empty_query_datagram_eq [OF crc] fast_path_sends [OF pc])
      with that [of "s1\<lparr>us_cache := c'\<rparr>"] q(5) show thesis by simp
    next
      case False
      obtain s2 m where pc2: "payload_cap env (s\<lparr>us_cache := c'\<rparr>) peer = (s2, m)" by fastforce
      have "m = cap_of env s peer" "us_cache s2 = c'"
        using pc2 by (auto simp: payload_cap_def cap_of_def Let_def split: option.splits)
      with False query d res pc2 that [of s2] show thesis
        by (simp add: serve_frame_def general_path_def)
    qed
  qed
qed

section \<open>Properties\<close>

text \<open>C17: the UDP server survives any datagram from any peer. A received datagram is always
  processed to the end; caches, reassembly state and capacities stay well-formed; the
  state kept for every other peer is untouched; and no datagram sent exceeds the chunk
  header plus the capacity of the peer.\<close>

theorem udp_server_safe:
  assumes "server_wf s"
  shows "\<exists>s' out. udp_receive crc ctx env s peer datagram = Some (s', out) \<and> server_wf s'
    \<and> same_elsewhere peer s s'
    \<and> (\<forall>d \<in> set out. length d \<le> UDP_CHUNK_HEADER_LEN + cap_of env s peer)"
  using udp_receive_ok [OF assms] by (simp add: step_ok_def)

definition demo_udp_env :: udp_env where
  "demo_udp_env = \<lparr>ue_now = 10, ue_idle_timeout = 5, ue_configured_mtu = 0, ue_route_mtu = (\<lambda>_. Some 1500),
     ue_send_ok = (\<lambda>_. True), ue_first_lookup = demo_env, ue_second_lookup = demo_env\<rparr>"

lemma udp_server_new_wf: "cache_wf c \<Longrightarrow> server_wf (udp_server_new c)"
  by (simp add: server_wf_def udp_server_new_def)

theorem udp_server_safe_witness:
  "\<exists>s' out. udp_receive sum_crc demo_ctx demo_udp_env (udp_server_new gres_cache_new) (V4 1 2) [0, 1] =
    Some (s', out) \<and> server_wf s'"
  using udp_server_safe [OF udp_server_new_wf [OF gres_cache_new_wf]] by blast

text \<open>A datagram of full capacity, with its chunk, UDP and IP headers, fits the MTU of the path,
  unless that MTU is below the space for the smallest payload the protocol uses.\<close>

theorem capacity_fits_mtu:
  "UDP_MIN_PAYLOAD \<le> effective_udp_payload_capacity route_mtu remote mtu
   \<and> ip_header_len remote + 8 + UDP_CHUNK_HEADER_LEN + effective_udp_payload_capacity route_mtu remote mtu
     \<le> max (path_mtu route_mtu remote mtu) (ip_header_len remote + 8 + UDP_CHUNK_HEADER_LEN + UDP_MIN_PAYLOAD)"
  using capacity_min capacity_fits by blast

text \<open>Over a loopback route, whose MTU is 65536, the detected capacity is one byte too large: a
  full datagram to an IPv4 peer has 65508 bytes, and UDP over IPv4 carries at most 65507.\<close>

theorem loopback_capacity_exceeds_udp:
  "UDP_CHUNK_HEADER_LEN + effective_udp_payload_capacity (\<lambda>_. Some 65536) (V4 a port) 0 = 65508
   \<and> (65508 :: nat) > 65535 - 20 - 8"
  by (simp add: effective_udp_payload_capacity_def ip_header_len_def is_ipv4_def UDP_CHUNK_HEADER_LEN_def
      UDP_MIN_PAYLOAD_def)


definition demo_query_frame :: bytes where
  "demo_query_frame = encode_transport_frame QueryRequest 9 []"

lemma demo_query_frame_decode:
  "decode_frame demo_query_frame = Ok (frame_header_new QueryRequest 9 0, [])"
  by (simp add: demo_query_frame_def decode_encode_transport_frame)


end
