(* ===== verification/Tcp_Server.thy ===== *)
theory Tcp_Server
  imports Server_Transport
begin

text \<open>
  The TCP query server of \<^verbatim>\<open>crates/server/src/main.rs\<close>: reading one frame from a byte stream
  and the request loop of a connection. A stream is the bytes still to come and how it
  ends; segmentation is invisible to \<open>read_exact\<close> and so to the model. Every iteration has
  its own lookup environment and its own outcome of the write.
\<close>

section \<open>Streams and frames\<close>

datatype stream_end = EndOfFile | ConnectionReset | OtherError string

record tcp_stream =
  st_data :: bytes
  st_end :: stream_end

datatype io_error = UnexpectedEof | ResetByPeer | IoFailed string | InvalidData FrameHeaderError

fun end_error :: "stream_end \<Rightarrow> io_error" where
  "end_error EndOfFile = UnexpectedEof"
| "end_error ConnectionReset = ResetByPeer"
| "end_error (OtherError e) = IoFailed e"

text \<open>\<open>read_exact\<close> of \<open>n\<close> bytes; an error leaves the connection unusable, so the rest of the
  stream does not matter then.\<close>

definition read_exact :: "nat \<Rightarrow> tcp_stream \<Rightarrow> io_error + (bytes \<times> tcp_stream)" where
  "read_exact n s =
     (if n \<le> length (st_data s) then Ok (take n (st_data s), s\<lparr>st_data := drop n (st_data s)\<rparr>)
      else Err (end_error (st_end s)))"

definition read_tcp_frame :: "tcp_stream \<Rightarrow> io_error + (bytes \<times> tcp_stream) option" where
  "read_tcp_frame s =
     (case read_exact FRAME_HEADER_LEN s of
        Err UnexpectedEof \<Rightarrow> Ok None
      | Err ResetByPeer \<Rightarrow> Ok None
      | Err e \<Rightarrow> Err e
      | Ok (header_bytes, s) \<Rightarrow>
          and_then (map_err InvalidData (frame_header_decode header_bytes)) (\<lambda>header.
            let payload_len = unat (fh_payload_len header) in
            if payload_len > 0
            then map_ok (\<lambda>(payload, s). Some (header_bytes @ payload, s)) (read_exact payload_len s)
            else Ok (Some (header_bytes, s))))"

section \<open>The request loop\<close>

datatype stream_exit = Closed | ReadFailed io_error | PeerDisconnect bytes | HandlerFailed TransportError
  | WriteFailed | Blocked

definition disconnect_reason :: "bytes \<Rightarrow> bytes option" where
  "disconnect_reason frame =
     (case decode_transport_frame frame of
        Ok d \<Rightarrow> if fh_frame_type (df_header d) = Disconnect then Some (df_payload d) else None
      | Err _ \<Rightarrow> None)"

lemma read_tcp_frame_shrinks:
  "read_tcp_frame s = Ok (Some (f, s')) \<Longrightarrow> length (st_data s') < length (st_data s)"
  by (auto simp: read_tcp_frame_def read_exact_def result_simps Let_def FRAME_HEADER_LEN_def
      split: if_splits io_error.splits)

text \<open>One connection: the responses written, the cache, and why the loop ended. \<open>i\<close> numbers the
  iterations.\<close>

function handle_query_stream ::
    "TransportContext \<Rightarrow> (nat \<Rightarrow> lookup_env) \<Rightarrow> (nat \<Rightarrow> bool) \<Rightarrow> nat \<Rightarrow> GresCache \<Rightarrow> tcp_stream
      \<Rightarrow> bytes list \<times> GresCache \<times> stream_exit" where
  "handle_query_stream ctx envs write_ok i c s =
     (case read_tcp_frame s of
        Ok None \<Rightarrow> ([], c, Closed)
      | Err e \<Rightarrow> ([], c, ReadFailed e)
      | Ok (Some (frame, s')) \<Rightarrow>
          (case disconnect_reason frame of
             Some reason \<Rightarrow> ([], c, PeerDisconnect reason)
           | None \<Rightarrow>
               (case handle_frame ctx (envs i) c frame of
                  (c', None) \<Rightarrow> ([], c', Blocked)
                | (c', Some (Err e)) \<Rightarrow> ([], c', HandlerFailed e)
                | (c', Some (Ok response)) \<Rightarrow>
                    if \<not> write_ok i then ([response], c', WriteFailed)
                    else let (out, c'', ex) = handle_query_stream ctx envs write_ok (Suc i) c' s'
                         in (response # out, c'', ex))))"
  by pat_completeness auto

termination
  by (relation "measure (\<lambda>(ctx, envs, w, i, c, s). length (st_data s))")
    (auto dest!: read_tcp_frame_shrinks)

declare handle_query_stream.simps [simp del]

section \<open>Framing\<close>

lemma frame_header_decode_frame:
  "decode_frame f = Ok (h, p) \<Longrightarrow> frame_header_decode (take FRAME_HEADER_LEN f) = Ok h"
  using frame_header_decode_encode [of h "[]"] by (auto simp: decode_frame_Ok_iff)

lemma read_tcp_frame_append:
  assumes "decode_frame f = Ok (h, p)"
  shows "read_tcp_frame \<lparr>st_data = f @ rest, st_end = e\<rparr> = Ok (Some (f, \<lparr>st_data = rest, st_end = e\<rparr>))"
proof -
  from assms have f: "f = frame_header_encode h @ p" and len: "unat (fh_payload_len h) = length p"
    and v: "fh_version h = PROTOCOL_VERSION"
    by (simp_all add: decode_frame_Ok_iff)
  have "frame_header_decode (frame_header_encode h) = Ok h"
    using frame_header_decode_encode [of h "[]"] v by simp
  then show ?thesis
    by (cases "p = []") (simp_all add: read_tcp_frame_def read_exact_def f len)
qed

lemma read_tcp_frame_empty: "read_tcp_frame \<lparr>st_data = [], st_end = EndOfFile\<rparr> = Ok None"
  by (simp add: read_tcp_frame_def read_exact_def FRAME_HEADER_LEN_def)

lemma read_tcp_frame_valid:
  assumes "read_tcp_frame s = Ok (Some (f, s'))"
  shows "\<exists>h p. decode_frame f = Ok (h, p) \<and> st_data s = f @ st_data s' \<and> st_end s' = st_end s"
proof -
  from assms obtain h p where r: "FRAME_HEADER_LEN \<le> length (st_data s)"
    "frame_header_decode (take FRAME_HEADER_LEN (st_data s)) = Ok h"
    and f: "f = take FRAME_HEADER_LEN (st_data s) @ p"
    and p: "p = take (unat (fh_payload_len h)) (drop FRAME_HEADER_LEN (st_data s))"
      "length p = unat (fh_payload_len h)"
      "st_data s' = drop (unat (fh_payload_len h)) (drop FRAME_HEADER_LEN (st_data s))"
      "st_end s' = st_end s"
    by (auto simp: read_tcp_frame_def read_exact_def result_simps Let_def
        split: if_splits io_error.splits)
  have "take FRAME_HEADER_LEN (st_data s) = frame_header_encode h \<and> fh_version h = PROTOCOL_VERSION"
    using frame_header_decode_OkD [OF r(2)] r(1) by simp
  with f p r(1) have "decode_frame f = Ok (h, p)"
    by (simp add: decode_frame_Ok_iff)
  moreover have "st_data s = f @ st_data s'"
    unfolding f p(3) by (subst p(1)) (simp only: append_assoc append_take_drop_id)
  ultimately show ?thesis using p(4) by blast
qed

section \<open>The reference server\<close>

text \<open>Serving a list of frames one after the other.\<close>

fun serve_frames ::
    "TransportContext \<Rightarrow> (nat \<Rightarrow> lookup_env) \<Rightarrow> nat \<Rightarrow> GresCache \<Rightarrow> bytes list
      \<Rightarrow> bytes list \<times> GresCache \<times> stream_exit" where
  "serve_frames ctx envs i c [] = ([], c, Closed)"
| "serve_frames ctx envs i c (f # fs) =
     (case disconnect_reason f of
        Some reason \<Rightarrow> ([], c, PeerDisconnect reason)
      | None \<Rightarrow>
          (case handle_frame ctx (envs i) c f of
             (c', None) \<Rightarrow> ([], c', Blocked)
           | (c', Some (Err e)) \<Rightarrow> ([], c', HandlerFailed e)
           | (c', Some (Ok response)) \<Rightarrow>
               let (out, c'', ex) = serve_frames ctx envs (Suc i) c' fs in (response # out, c'', ex)))"

lemma stream_serves_frames:
  assumes "\<forall>f \<in> set fs. \<exists>h p. decode_frame f = Ok (h, p)"
  shows "handle_query_stream ctx envs (\<lambda>_. True) i c \<lparr>st_data = concat fs, st_end = EndOfFile\<rparr> =
    serve_frames ctx envs i c fs"
  using assms
proof (induction fs arbitrary: i c)
  case Nil
  then show ?case by (simp add: handle_query_stream.simps read_tcp_frame_empty)
next
  case (Cons f fs)
  then obtain h p where "decode_frame f = Ok (h, p)" by auto
  then have r: "read_tcp_frame \<lparr>st_data = concat (f # fs), st_end = EndOfFile\<rparr> =
      Ok (Some (f, \<lparr>st_data = concat fs, st_end = EndOfFile\<rparr>))"
    by (simp add: read_tcp_frame_append)
  show ?case
    by (subst handle_query_stream.simps, subst r)
      (use Cons in \<open>simp split: option.splits prod.splits sum.splits\<close>)
qed

lemma handle_query_stream_wf:
  "cache_wf c \<Longrightarrow> handle_query_stream ctx envs w i c s = (out, c', ex) \<Longrightarrow> cache_wf c' \<and> ex \<noteq> Blocked"
proof (induction ctx envs w i c s arbitrary: out c' ex rule: handle_query_stream.induct)
  case (1 ctx envs w i c s)
  note unfold = handle_query_stream.simps [of ctx envs w i c s]
  consider (stop) "\<And>f s'. read_tcp_frame s \<noteq> Ok (Some (f, s'))"
    | (frame) f s' where "read_tcp_frame s = Ok (Some (f, s'))"
    by blast
  then show ?case
  proof cases
    case stop
    with "1.prems" show ?thesis by (auto simp: unfold split: sum.splits option.splits)
  next
    case (frame f s')
    obtain c1 res where h: "handle_frame ctx (envs i) c f = (c1, Some res)" and wf: "cache_wf c1"
      by (rule handle_frame_answers [OF "1.prems"(1)])
    show ?thesis
    proof (cases "disconnect_reason f = None \<and> w i \<and> (\<exists>r. res = Ok r)")
      case False
      with "1.prems" frame h wf show ?thesis
        by (auto simp: unfold split: option.splits sum.splits if_splits)
    next
      case True
      then obtain r where r: "res = Ok r" by blast
      obtain out1 c2 ex1 where rest: "handle_query_stream ctx envs w (Suc i) c1 s' = (out1, c2, ex1)"
        by (metis surj_pair)
      with "1.prems" frame h r True have "c' = c2" "ex = ex1" by (simp_all add: unfold)
      moreover have "cache_wf c2 \<and> ex1 \<noteq> Blocked"
        by (rule "1.IH") (use frame h r True wf rest in auto)
      ultimately show ?thesis by simp
    qed
  qed
qed

section \<open>Properties\<close>

text \<open>C19: the TCP server frames correctly. When the client's stream is the concatenation of any
  number of valid frames, however it was segmented, the server answers them one by one in
  order, exactly as if it had been handed the list of frames.\<close>

theorem tcp_stream_serves_frames:
  assumes "\<forall>f \<in> set fs. \<exists>h p. decode_frame f = Ok (h, p)"
  shows "handle_query_stream ctx envs (\<lambda>_. True) i c \<lparr>st_data = concat fs, st_end = EndOfFile\<rparr> =
    serve_frames ctx envs i c fs"
  using assms by (rule stream_serves_frames)

definition demo_requests :: "bytes list" where
  "demo_requests = [encode_transport_frame QueryRequest 9 [], encode_transport_frame Disconnect 0 [1]]"

theorem tcp_stream_serves_frames_witness:
  "handle_query_stream demo_ctx (\<lambda>_. demo_env) (\<lambda>_. True) 0 gres_cache_new
      \<lparr>st_data = concat demo_requests, st_end = EndOfFile\<rparr> =
    ([encode_transport_frame RuntimePayload 9 [3, 4]],
     refreshed gres_cache_new (Ok sample_snapshot) (le_times demo_env), PeerDisconnect [1])"
proof -
  have d: "decode_frame (encode_transport_frame QueryRequest 9 []) = Ok (frame_header_new QueryRequest 9 0, [])"
    "decode_frame (encode_transport_frame Disconnect 0 [1]) = Ok (frame_header_new Disconnect 0 1, [1])"
    by (simp_all add: decode_encode_transport_frame)
  then have "\<forall>f \<in> set demo_requests. \<exists>h p. decode_frame f = Ok (h, p)"
    by (simp add: demo_requests_def)
  from tcp_stream_serves_frames [OF this] show ?thesis
    by (simp add: demo_requests_def disconnect_reason_def decode_transport_frame_def d handle_frame_def
        handle_decoded_frame_def demo_query)
qed

text \<open>C20: whatever a TCP client sends, every frame that reaches the handlers is a complete valid
  frame and nothing of the stream is skipped; and the connection loop ends, never stuck in
  the cache, with a well-formed cache.\<close>

theorem tcp_server_safe:
  assumes "cache_wf c"
  shows "(\<exists>out c' ex. handle_query_stream ctx envs w i c s = (out, c', ex) \<and> cache_wf c' \<and> ex \<noteq> Blocked)
    \<and> (\<forall>f s'. read_tcp_frame s = Ok (Some (f, s')) \<longrightarrow>
        (\<exists>h p. decode_frame f = Ok (h, p)) \<and> st_data s = f @ st_data s')"
  using handle_query_stream_wf [OF assms] read_tcp_frame_valid by (metis prod_cases3)

theorem tcp_server_safe_witness:
  "\<exists>out c' ex. handle_query_stream demo_ctx (\<lambda>_. demo_env) (\<lambda>_. False) 0 gres_cache_new
    \<lparr>st_data = [1, 2, 3], st_end = ConnectionReset\<rparr> = (out, c', ex) \<and> cache_wf c'"
  using tcp_server_safe [OF gres_cache_new_wf] by blast

end
