(* ===== verification/Collector.thy ===== *)
theory Collector
  imports Snapshots Rust_Std
begin

text \<open>
  The collectors of \<^verbatim>\<open>crates/server/src/collector.rs\<close>: the internal node snapshot and its
  conversions, the contract every collector is tested against, the simulated collector
  with its inventory, its runtime generator and its memory-mapped runtime file, and the
  NVML collector. NVML, the \<^verbatim>\<open>/proc\<close> files, the file system and serde are parameters.
\<close>

section \<open>Node snapshots\<close>

datatype GresResourceKind = Nvml

record GresProcess =
  np_pid :: u32
  np_uid :: u32
  np_used_memory_mb :: u64

record GresResource =
  nr_kind :: GresResourceKind
  nr_index :: u8
  nr_name :: string
  nr_uuid :: "string option"
  nr_temperature_c :: "u32 option"
  nr_memory_used_mb :: u64
  nr_memory_total_mb :: u64
  nr_utilization_gres_percent :: u8
  nr_utilization_memory_percent :: u8
  nr_processes :: "GresProcess list"

record GresNodeSnapshot =
  ns_hostname :: string
  ns_driver_version :: "string option"
  ns_resources :: "GresResource list"

definition resource_of_gres :: "GresInfo \<Rightarrow> GresResource" where
  "resource_of_gres g =
     \<lparr>nr_kind = Nvml, nr_index = gi_index g, nr_name = gi_name g, nr_uuid = gi_uuid g,
      nr_temperature_c = gi_temperature_c g, nr_memory_used_mb = gm_used_mb (gi_memory g),
      nr_memory_total_mb = gm_total_mb (gi_memory g),
      nr_utilization_gres_percent = gu_gres_percent (gi_utilization g),
      nr_utilization_memory_percent = gu_memory_percent (gi_utilization g),
      nr_processes = map (\<lambda>p. \<lparr>np_pid = gp_pid p, np_uid = gp_uid p,
        np_used_memory_mb = gp_used_memory_mb p\<rparr>) (gi_processes g)\<rparr>"

definition from_gres_snapshot :: "ServerGresSnapshot \<Rightarrow> GresNodeSnapshot" where
  "from_gres_snapshot s =
     \<lparr>ns_hostname = ss_hostname s, ns_driver_version = ss_driver_version s,
      ns_resources = map resource_of_gres (ss_gres s)\<rparr>"

definition gres_of_resource :: "GresResource \<Rightarrow> GresInfo" where
  "gres_of_resource r =
     \<lparr>gi_index = nr_index r, gi_name = nr_name r, gi_temperature_c = nr_temperature_c r,
      gi_uuid = nr_uuid r,
      gi_memory = \<lparr>gm_used_mb = nr_memory_used_mb r, gm_total_mb = nr_memory_total_mb r\<rparr>,
      gi_utilization = \<lparr>gu_gres_percent = nr_utilization_gres_percent r,
        gu_memory_percent = nr_utilization_memory_percent r\<rparr>,
      gi_processes = map (\<lambda>p. \<lparr>gp_pid = np_pid p, gp_uid = np_uid p, gp_command = None,
        gp_used_memory_mb = np_used_memory_mb p\<rparr>) (nr_processes r)\<rparr>"

definition into_gres_snapshot :: "GresNodeSnapshot \<Rightarrow> ServerGresSnapshot" where
  "into_gres_snapshot n =
     \<lparr>ss_hostname = ns_hostname n, ss_driver_version = ns_driver_version n,
      ss_gres = map gres_of_resource (ns_resources n)\<rparr>"

text \<open>The provided method of the trait \<open>GresCollector\<close>, over the answer of \<open>collect_gres\<close>.\<close>

definition collect_gres_snapshot :: "ErrorCode + GresNodeSnapshot \<Rightarrow> ErrorCode + ServerGresSnapshot" where
  "collect_gres_snapshot collected = map_ok into_gres_snapshot collected"

section \<open>The contract of a collector\<close>

fun check_processes :: "GresResource \<Rightarrow> GresProcess list \<Rightarrow> string + unit" where
  "check_processes r [] = Ok ()"
| "check_processes r (p # ps) =
     (if np_pid p = 0
      then Err (''resource '' @ nat_to_string (unat (nr_index r)) @ '' process pid must not be zero'')
      else if np_used_memory_mb p > nr_memory_total_mb r
      then Err (''resource '' @ nat_to_string (unat (nr_index r)) @ '' process ''
             @ nat_to_string (unat (np_pid p)) @ '' used memory exceeds resource total memory'')
      else check_processes r ps)"

definition check_uuid :: "string set \<Rightarrow> GresResource \<Rightarrow> string + string set" where
  "check_uuid uuids r =
     (case nr_uuid r of
        None \<Rightarrow> Ok uuids
      | Some uuid \<Rightarrow>
          if trim uuid = []
          then Err (''resource '' @ nat_to_string (unat (nr_index r))
                 @ '' uuid must be omitted instead of empty'')
          else if uuid \<in> uuids then Err (''resource uuid '' @ uuid @ '' is duplicated'')
          else Ok (insert uuid uuids))"

definition check_fields :: "GresResource \<Rightarrow> string + unit" where
  "check_fields r =
     (let res = ''resource '' @ nat_to_string (unat (nr_index r)) in
      if trim (nr_name r) = [] then Err (res @ '' name must not be empty'')
      else if nr_memory_total_mb r = 0 then Err (res @ '' memory_total_mb must be greater than zero'')
      else if nr_memory_used_mb r > nr_memory_total_mb r
      then Err (res @ '' memory_used_mb must not exceed memory_total_mb'')
      else if nr_utilization_gres_percent r > 100
      then Err (res @ '' utilization_gres_percent must be <= 100'')
      else if nr_utilization_memory_percent r > 100
      then Err (res @ '' utilization_memory_percent must be <= 100'')
      else Ok ())"

text \<open>The loop over the resources, with the expected index and the identifiers seen so far.\<close>

fun check_resources :: "u8 \<Rightarrow> string set \<Rightarrow> GresResource list \<Rightarrow> string + unit" where
  "check_resources expected uuids [] = Ok ()"
| "check_resources expected uuids (r # rs) =
     (if nr_index r \<noteq> expected
      then Err (''resource indices must be dense and zero-based; expected ''
             @ nat_to_string (unat expected) @ '', got '' @ nat_to_string (unat (nr_index r)))
      else if expected = 255 then Err ''resource index overflow''
      else and_then (check_fields r) (\<lambda>_.
             and_then (check_uuid uuids r) (\<lambda>uuids'.
               and_then (check_processes r (nr_processes r)) (\<lambda>_.
                 check_resources (expected + 1) uuids' rs))))"

definition validate_gres_node_snapshot_contract :: "GresNodeSnapshot \<Rightarrow> string + unit" where
  "validate_gres_node_snapshot_contract s =
     (if trim (ns_hostname s) = [] then Err ''hostname must not be empty''
      else if (case ns_driver_version s of Some v \<Rightarrow> trim v = [] | None \<Rightarrow> False)
      then Err ''driver_version must be omitted instead of empty''
      else check_resources 0 {} (ns_resources s))"

section \<open>The simulated collector\<close>

record TestGresInventoryResource =
  ti_index :: u8
  ti_name :: string
  ti_uuid :: "string option"
  ti_memory_total_mb :: u64

record TestGresInventory =
  tv_hostname :: string
  tv_driver_version :: "string option"
  tv_gres :: "TestGresInventoryResource list"

record TestGresRuntimeProcess =
  tp_pid :: u32
  tp_uid :: u32
  tp_used_memory_mb :: u64

record TestGresRuntimeResource =
  tr_index :: u8
  tr_temperature_c :: "u32 option"
  tr_memory_used_mb :: u64
  tr_utilization_gres_percent :: u8
  tr_utilization_memory_percent :: u8
  tr_processes :: "TestGresRuntimeProcess list"

record TestGresRuntimeState =
  ts_gres :: "TestGresRuntimeResource list"

record TestGresCollector =
  tc_inventory :: TestGresInventory
  tc_inventory_path :: "string option"
  tc_reload_inventory :: bool
  tc_runtime_path :: "string option"

definition runtime_resource_for_tick ::
    "u64 \<Rightarrow> TestGresInventoryResource \<Rightarrow> TestGresRuntimeResource" where
  "runtime_resource_for_tick tick r =
     (let idx = ucast (ti_index r) :: u64;
          max_used = max (saturating_sub (ti_memory_total_mb r) 1) 1;
          base_used = 1234 + idx * 512;
          used = (base_used + tick * 257) mod max_used;
          used = min (max used 1) max_used;
          base_util = max (saturating_sub 87 (idx * 7)) 1;
          util = ucast (max ((base_util + tick * 13) mod 101) 1) :: u8;
          memory_percent = saturating_mul used 100 div max (ti_memory_total_mb r) 1
      in \<lparr>tr_index = ti_index r, tr_temperature_c = Some (28 + ucast ((tick + idx) mod 55)),
          tr_memory_used_mb = used, tr_utilization_gres_percent = util,
          tr_utilization_memory_percent = ucast (min memory_percent 100),
          tr_processes =
            [\<lparr>tp_pid = 4242 + ucast (ti_index r) * 10, tp_uid = 1000 + ucast (ti_index r),
              tp_used_memory_mb = 768 + idx * 128 + tick mod 64\<rparr>,
             \<lparr>tp_pid = 4243 + ucast (ti_index r) * 10, tp_uid = 2000 + ucast (ti_index r),
              tp_used_memory_mb = 128\<rparr>]\<rparr>)"

definition runtime_for_tick :: "TestGresInventory \<Rightarrow> u64 \<Rightarrow> TestGresRuntimeState" where
  "runtime_for_tick v tick = \<lparr>ts_gres = map (runtime_resource_for_tick tick) (tv_gres v)\<rparr>"

definition initial_runtime :: "TestGresInventory \<Rightarrow> TestGresRuntimeState" where
  "initial_runtime v = runtime_for_tick v 0"

text \<open>Collecting pairs into a \<open>HashMap\<close> keeps the last resource of an index.\<close>

definition runtime_by_index :: "TestGresRuntimeState \<Rightarrow> u8 \<Rightarrow> TestGresRuntimeResource option" where
  "runtime_by_index st i = find (\<lambda>r. tr_index r = i) (rev (ts_gres st))"

definition resource_from_runtime ::
    "TestGresInventoryResource \<Rightarrow> TestGresRuntimeResource option \<Rightarrow> GresResource" where
  "resource_from_runtime r rt =
     \<lparr>nr_kind = Nvml, nr_index = ti_index r, nr_name = ti_name r, nr_uuid = ti_uuid r,
      nr_temperature_c = Option.bind rt tr_temperature_c,
      nr_memory_used_mb =
        min (case rt of Some x \<Rightarrow> tr_memory_used_mb x | None \<Rightarrow> 0) (ti_memory_total_mb r),
      nr_memory_total_mb = ti_memory_total_mb r,
      nr_utilization_gres_percent =
        (case rt of Some x \<Rightarrow> min (tr_utilization_gres_percent x) 100 | None \<Rightarrow> 0),
      nr_utilization_memory_percent =
        (case rt of Some x \<Rightarrow> min (tr_utilization_memory_percent x) 100 | None \<Rightarrow> 0),
      nr_processes = (case rt of Some x \<Rightarrow> map (\<lambda>p. \<lparr>np_pid = tp_pid p, np_uid = tp_uid p,
          np_used_memory_mb = tp_used_memory_mb p\<rparr>) (tr_processes x) | None \<Rightarrow> [])\<rparr>"

definition snapshot_from_inventory_runtime ::
    "TestGresInventory \<Rightarrow> TestGresRuntimeState \<Rightarrow> GresNodeSnapshot" where
  "snapshot_from_inventory_runtime v st =
     \<lparr>ns_hostname = tv_hostname v, ns_driver_version = tv_driver_version v,
      ns_resources = map (\<lambda>r. resource_from_runtime r (runtime_by_index st (ti_index r))) (tv_gres v)\<rparr>"

definition validate_inventory :: "TestGresInventory \<Rightarrow> string + unit" where
  "validate_inventory v =
     (if trim (tv_hostname v) = [] then Err ''test inventory hostname must not be empty''
      else validate_gres_node_snapshot_contract (snapshot_from_inventory_runtime v (initial_runtime v)))"

text \<open>\<open>chars()\<close> sees one character per lead byte; a character outside ASCII becomes one dash.\<close>

definition is_continuation :: "char \<Rightarrow> bool" where
  "is_continuation c \<longleftrightarrow> (let n = of_char c :: nat in 128 \<le> n \<and> n < 192)"

definition sanitize_uuid_part :: "string \<Rightarrow> string" where
  "sanitize_uuid_part s =
     map (\<lambda>ch. if is_ascii_alphanumeric ch then ch else CHR ''-'') (filter (\<lambda>c. \<not> is_continuation c) s)"

definition test_uuid :: "string \<Rightarrow> nat \<Rightarrow> string" where
  "test_uuid hostname index =
     ''GRES-TEST-'' @ sanitize_uuid_part hostname @ ''-'' @ pad_left (CHR ''0'') 4 (nat_to_string index)"

definition default_inventory :: "string \<Rightarrow> u8 \<Rightarrow> TestGresInventory" where
  "default_inventory hostname gres_count =
     \<lparr>tv_hostname = hostname, tv_driver_version = Some ''test-driver'',
      tv_gres = map (\<lambda>i. \<lparr>ti_index = word_of_nat i, ti_name = ''NVIDIA Test GPU '' @ nat_to_string i,
          ti_uuid = Some (test_uuid hostname i), ti_memory_total_mb = 16384 + word_of_nat i * 1024\<rparr>)
        [0 ..< unat gres_count]\<rparr>"

definition MEMORY_GIB :: "u64 list" where
  "MEMORY_GIB = [8, 16, 24, 36, 48, 80, 96]"

definition deterministic_inventory :: "u64 \<Rightarrow> string \<Rightarrow> TestGresInventory" where
  "deterministic_inventory seed hostname =
     \<lparr>tv_hostname = hostname, tv_driver_version = Some (''test-driver-'' @ nat_to_string (unat seed)),
      tv_gres = map (\<lambda>i. \<lparr>ti_index = word_of_nat i, ti_name = ''NVIDIA Test GPU '' @ nat_to_string i,
          ti_uuid = Some (test_uuid hostname i),
          ti_memory_total_mb =
            MEMORY_GIB ! (unat (seed + word_of_nat i * 3) mod length MEMORY_GIB) * 1024\<rparr>)
        [0 ..< unat (seed mod 8 + 1)]\<rparr>"

definition test_collector_from_inventory :: "TestGresInventory \<Rightarrow> TestGresCollector" where
  "test_collector_from_inventory v =
     \<lparr>tc_inventory = v, tc_inventory_path = None, tc_reload_inventory = False, tc_runtime_path = None\<rparr>"

definition test_collector_new :: "string \<Rightarrow> TestGresCollector" where
  "test_collector_new hostname = test_collector_from_inventory (default_inventory hostname 1)"

definition test_collector_with_gres_count :: "string \<Rightarrow> u8 \<Rightarrow> TestGresCollector" where
  "test_collector_with_gres_count hostname n =
     test_collector_from_inventory (default_inventory hostname (max n 1))"

definition test_collector_with_runtime_path :: "TestGresCollector \<Rightarrow> string \<Rightarrow> TestGresCollector" where
  "test_collector_with_runtime_path c path = c\<lparr>tc_runtime_path := Some path\<rparr>"

text \<open>\<open>read_to_string\<close> and serde's parser are parameters; an I/O error is its message.\<close>

definition read_inventory_file ::
    "(string \<Rightarrow> string + string) \<Rightarrow> (string \<Rightarrow> string + TestGresInventory) \<Rightarrow> string
      \<Rightarrow> string + TestGresInventory" where
  "read_inventory_file read_to_string from_str path =
     and_then (map_err (\<lambda>e. ''read test inventory '' @ path @ '' failed: '' @ e) (read_to_string path)) (\<lambda>raw.
       and_then (map_err (\<lambda>e. ''parse test inventory '' @ path @ '' failed: '' @ e) (from_str raw)) (\<lambda>v.
         and_then (validate_inventory v) (\<lambda>_. Ok v)))"

definition test_collector_from_inventory_file ::
    "(string \<Rightarrow> string + string) \<Rightarrow> (string \<Rightarrow> string + TestGresInventory) \<Rightarrow> string \<Rightarrow> bool
      \<Rightarrow> string + TestGresCollector" where
  "test_collector_from_inventory_file read_to_string from_str path reload =
     and_then (read_inventory_file read_to_string from_str path) (\<lambda>v.
       Ok \<lparr>tc_inventory = v, tc_inventory_path = Some path, tc_reload_inventory = reload,
           tc_runtime_path = None\<rparr>)"

definition RUNTIME_HEADER_LEN :: nat where
  "RUNTIME_HEADER_LEN = 8"

definition DEFAULT_RUNTIME_CAPACITY :: nat where
  "DEFAULT_RUNTIME_CAPACITY = 64 * 1024"

definition init_runtime_bytes :: "nat \<Rightarrow> bytes" where
  "init_runtime_bytes capacity = replicate capacity 0"

text \<open>Reading the mapped file. The outer \<open>None\<close> is a panic: a length field near \<open>2 ^ 64\<close> makes
  the bound \<open>RUNTIME_HEADER_LEN + len\<close> overflow (or, unchecked, wrap below the header and
  reverse the slice).\<close>

definition read_runtime_bytes ::
    "(bytes \<Rightarrow> string + TestGresRuntimeState) \<Rightarrow> string \<Rightarrow> bytes
      \<Rightarrow> (string + TestGresRuntimeState) option" where
  "read_runtime_bytes from_slice path mmap =
     (if length mmap < RUNTIME_HEADER_LEN
      then Some (Err (''runtime mmap '' @ path @ '' is too small''))
      else let len = unat (u64_from_le_bytes (take RUNTIME_HEADER_LEN mmap)) in
      if len = 0 then Some (Err (''runtime mmap '' @ path @ '' contains invalid length''))
      else if RUNTIME_HEADER_LEN + len \<ge> 2 ^ 64 then None
      else if RUNTIME_HEADER_LEN + len > length mmap
      then Some (Err (''runtime mmap '' @ path @ '' contains invalid length''))
      else Some (map_err (\<lambda>e. ''parse runtime mmap '' @ path @ '' failed: '' @ e)
             (from_slice (slice RUNTIME_HEADER_LEN (RUNTIME_HEADER_LEN + len) mmap))))"

definition write_runtime_bytes ::
    "(TestGresRuntimeState \<Rightarrow> string + bytes) \<Rightarrow> string \<Rightarrow> TestGresRuntimeState \<Rightarrow> bytes
      \<Rightarrow> string + bytes" where
  "write_runtime_bytes to_vec path st mmap =
     and_then (map_err (\<lambda>e. ''encode runtime state failed: '' @ e) (to_vec st)) (\<lambda>payload.
       if RUNTIME_HEADER_LEN + length payload > length mmap
       then Err (''runtime mmap '' @ path @ '' capacity '' @ nat_to_string (length mmap)
              @ '' is too small for '' @ nat_to_string (length payload) @ '' byte payload'')
       else Ok (u64_to_le_bytes (word_of_nat (length payload)) @ payload
              @ drop (RUNTIME_HEADER_LEN + length payload) mmap))"

text \<open>\<open>collect_gres\<close> of the simulated collector. \<open>read_runtime\<close> is the reading of a mapped file
  by path, an error when it cannot be opened or parsed.\<close>

definition test_collect_gres ::
    "(string \<Rightarrow> string + TestGresInventory) \<Rightarrow> (string \<Rightarrow> string + TestGresRuntimeState)
      \<Rightarrow> TestGresCollector \<Rightarrow> ErrorCode + GresNodeSnapshot" where
  "test_collect_gres read_inventory read_runtime c =
     and_then
       (if tc_reload_inventory c
        then (case tc_inventory_path c of
            None \<Rightarrow> Err ConfigInvalid
          | Some path \<Rightarrow> map_err (\<lambda>_. ConfigInvalid) (read_inventory path))
        else Ok (tc_inventory c))
       (\<lambda>inventory.
          let runtime = (case tc_runtime_path c of
                Some path \<Rightarrow> (case read_runtime path of Ok st \<Rightarrow> st | Err _ \<Rightarrow> initial_runtime inventory)
              | None \<Rightarrow> initial_runtime inventory)
          in Ok (snapshot_from_inventory_runtime inventory runtime))"

section \<open>NVML\<close>

text \<open>What the collector calls of the NVML wrapper, as a parameter: every query may fail.\<close>

datatype UsedGpuMemory = Used u64 | Unavailable

record nvml_process =
  nv_pid :: u32
  nv_used_gpu_memory :: UsedGpuMemory

record 'd nvml =
  nv_device_count :: "string + u32"
  nv_device_by_index :: "u32 \<Rightarrow> string + 'd"
  nv_utilization_rates :: "'d \<Rightarrow> string + (u32 \<times> u32)"
  nv_memory_info :: "'d \<Rightarrow> string + (u64 \<times> u64)"
  nv_temperature :: "'d \<Rightarrow> string + u32"
  nv_name :: "'d \<Rightarrow> string + string"
  nv_uuid :: "'d \<Rightarrow> string + string"
  nv_compute_processes :: "'d \<Rightarrow> string + nvml_process list"
  nv_graphics_processes :: "'d \<Rightarrow> string + nvml_process list"
  nv_sys_driver_version :: "string + string"

definition env_truthy :: "(string \<Rightarrow> string option) \<Rightarrow> string \<Rightarrow> bool" where
  "env_truthy var name =
     (case var name of
        None \<Rightarrow> False
      | Some v \<Rightarrow> v = ''1'' \<or> eq_ignore_ascii_case v ''true'' \<or> eq_ignore_ascii_case v ''yes'')"

definition simulate_nvml_missing :: "(string \<Rightarrow> string option) \<Rightarrow> bool" where
  "simulate_nvml_missing var = env_truthy var ''CLUSTAT_SIMULATE_NVML_MISSING''"

text \<open>\<open>NvmlCollector::new\<close> with the feature \<open>nvml\<close>; \<open>init\<close> is NVML's initialisation at an
  explicit library path or at the default one.\<close>

definition nvml_lib_choice :: "string option \<Rightarrow> string option" where
  "nvml_lib_choice p = (case p of Some path \<Rightarrow> if trim path \<noteq> [] then Some (trim path) else None | None \<Rightarrow> None)"

definition nvml_collector_new ::
    "(string \<Rightarrow> string option) \<Rightarrow> (string option \<Rightarrow> string + 'd nvml) \<Rightarrow> string \<Rightarrow> string option
      \<Rightarrow> ErrorCode + (string \<times> 'd nvml)" where
  "nvml_collector_new var init hostname lib_path =
     (if simulate_nvml_missing var then Err NvmlUnavailable
      else map_err (\<lambda>_. NvmlUnavailable) (map_ok (\<lambda>n. (hostname, n)) (init (nvml_lib_choice lib_path))))"

definition used_gres_memory_mb :: "UsedGpuMemory \<Rightarrow> u64" where
  "used_gres_memory_mb m = (case m of Used bs \<Rightarrow> bs div 1024 div 1024 | Unavailable \<Rightarrow> 0)"

definition command_for_pid :: "(string \<Rightarrow> string option) \<Rightarrow> u32 \<Rightarrow> string option" where
  "command_for_pid read_file pid =
     (case read_file (''/proc/'' @ nat_to_string (unat pid) @ ''/comm'') of
        None \<Rightarrow> None
      | Some s \<Rightarrow> if trim s = [] then None else Some (trim s))"

definition uid_for_pid :: "(string \<Rightarrow> string option) \<Rightarrow> u32 \<Rightarrow> u32 option" where
  "uid_for_pid read_file pid =
     (case read_file (''/proc/'' @ nat_to_string (unat pid) @ ''/status'') of
        None \<Rightarrow> None
      | Some s \<Rightarrow>
          (case find (\<lambda>l. starts_with l ''Uid:'') (lines s) of
             None \<Rightarrow> None
           | Some l \<Rightarrow>
               let ws = split_whitespace l in
               if length ws \<le> 1 then None
               else map_option word_of_nat (parse_uint (2 ^ 32 - 1) (ws ! 1))))"

fun collect_processes_from ::
    "(string \<Rightarrow> string option) \<Rightarrow> u32 set \<Rightarrow> nvml_process list \<Rightarrow> GresProcessInfo list" where
  "collect_processes_from read_file seen [] = []"
| "collect_processes_from read_file seen (p # ps) =
     (if nv_pid p \<in> seen then collect_processes_from read_file seen ps
      else \<lparr>gp_pid = nv_pid p,
             gp_uid = (case uid_for_pid read_file (nv_pid p) of Some u \<Rightarrow> u | None \<Rightarrow> - 1),
             gp_command = command_for_pid read_file (nv_pid p),
             gp_used_memory_mb = used_gres_memory_mb (nv_used_gpu_memory p)\<rparr>
           # collect_processes_from read_file (insert (nv_pid p) seen) ps)"

definition unwrap_or :: "'a \<Rightarrow> 'e + 'a \<Rightarrow> 'a" where
  "unwrap_or d r = (case r of Ok x \<Rightarrow> x | Err _ \<Rightarrow> d)"

definition collect_processes ::
    "(string \<Rightarrow> string option) \<Rightarrow> 'd nvml \<Rightarrow> 'd \<Rightarrow> GresProcessInfo list" where
  "collect_processes read_file n d =
     collect_processes_from read_file {}
       (unwrap_or [] (nv_compute_processes n d) @ unwrap_or [] (nv_graphics_processes n d))"

definition collect_device ::
    "(string \<Rightarrow> string option) \<Rightarrow> 'd nvml \<Rightarrow> nat \<Rightarrow> ErrorCode + GresInfo" where
  "collect_device read_file n index =
     map_err (\<lambda>_. NvmlUnavailable)
       (and_then (nv_device_by_index n (word_of_nat index)) (\<lambda>d.
          and_then (nv_utilization_rates n d) (\<lambda>(gpu, mem).
            and_then (nv_memory_info n d) (\<lambda>(used, tot).
              Ok \<lparr>gi_index = word_of_nat index, gi_name = unwrap_or ''unknown'' (nv_name n d),
                 gi_temperature_c = result_ok (nv_temperature n d), gi_uuid = result_ok (nv_uuid n d),
                 gi_memory = \<lparr>gm_used_mb = used div 1024 div 1024, gm_total_mb = tot div 1024 div 1024\<rparr>,
                 gi_utilization = \<lparr>gu_gres_percent = ucast (min gpu 100),
                   gu_memory_percent = ucast (min mem 100)\<rparr>,
                 gi_processes = collect_processes read_file n d\<rparr>))))"

fun collect_devices ::
    "(string \<Rightarrow> string option) \<Rightarrow> 'd nvml \<Rightarrow> nat list \<Rightarrow> ErrorCode + GresInfo list" where
  "collect_devices read_file n [] = Ok []"
| "collect_devices read_file n (i # is) =
     and_then (collect_device read_file n i) (\<lambda>g.
       map_ok (\<lambda>gs. g # gs) (collect_devices read_file n is))"

definition nvml_collect_gres_snapshot ::
    "(string \<Rightarrow> string option) \<Rightarrow> string \<Rightarrow> 'd nvml \<Rightarrow> ErrorCode + ServerGresSnapshot" where
  "nvml_collect_gres_snapshot read_file hostname n =
     and_then (map_err (\<lambda>_. NvmlUnavailable) (nv_device_count n)) (\<lambda>count.
       map_ok (\<lambda>gs. \<lparr>ss_hostname = hostname, ss_driver_version = result_ok (nv_sys_driver_version n),
                ss_gres = gs\<rparr>)
         (collect_devices read_file n [0 ..< unat (min count 255)]))"

definition nvml_collect_gres ::
    "(string \<Rightarrow> string option) \<Rightarrow> string \<Rightarrow> 'd nvml \<Rightarrow> ErrorCode + GresNodeSnapshot" where
  "nvml_collect_gres read_file hostname n =
     map_ok from_gres_snapshot (nvml_collect_gres_snapshot read_file hostname n)"

section \<open>What the contract says\<close>

definition resource_ok :: "GresResource \<Rightarrow> bool" where
  "resource_ok r \<longleftrightarrow> trim (nr_name r) \<noteq> [] \<and> nr_memory_total_mb r \<noteq> 0
     \<and> nr_memory_used_mb r \<le> nr_memory_total_mb r
     \<and> nr_utilization_gres_percent r \<le> 100 \<and> nr_utilization_memory_percent r \<le> 100
     \<and> (\<forall>u. nr_uuid r = Some u \<longrightarrow> trim u \<noteq> [])
     \<and> (\<forall>p \<in> set (nr_processes r). np_pid p \<noteq> 0 \<and> np_used_memory_mb p \<le> nr_memory_total_mb r)"

definition uuids_of :: "GresResource list \<Rightarrow> string list" where
  "uuids_of rs = concat (map (\<lambda>r. case nr_uuid r of Some u \<Rightarrow> [u] | None \<Rightarrow> []) rs)"

definition contract_spec :: "GresNodeSnapshot \<Rightarrow> bool" where
  "contract_spec s \<longleftrightarrow> trim (ns_hostname s) \<noteq> []
     \<and> (\<forall>v. ns_driver_version s = Some v \<longrightarrow> trim v \<noteq> [])
     \<and> length (ns_resources s) \<le> 255
     \<and> map (unat \<circ> nr_index) (ns_resources s) = [0 ..< length (ns_resources s)]
     \<and> list_all resource_ok (ns_resources s) \<and> distinct (uuids_of (ns_resources s))"

lemma check_processes_Ok_iff:
  "check_processes r ps = Ok () \<longleftrightarrow>
     (\<forall>p \<in> set ps. np_pid p \<noteq> 0 \<and> np_used_memory_mb p \<le> nr_memory_total_mb r)"
  by (induction ps) (auto simp: not_less)

lemma check_fields_Ok_iff:
  "check_fields r = Ok () \<longleftrightarrow> trim (nr_name r) \<noteq> [] \<and> nr_memory_total_mb r \<noteq> 0
     \<and> nr_memory_used_mb r \<le> nr_memory_total_mb r
     \<and> nr_utilization_gres_percent r \<le> 100 \<and> nr_utilization_memory_percent r \<le> 100"
  by (auto simp: check_fields_def Let_def not_less)

lemma check_uuid_Ok_iff:
  "check_uuid U r = Ok V \<longleftrightarrow> (\<forall>u. nr_uuid r = Some u \<longrightarrow> trim u \<noteq> [] \<and> u \<notin> U)
     \<and> V = U \<union> set (uuids_of [r])"
  by (auto simp: check_uuid_def uuids_of_def split: option.splits)

lemma uuids_of_Cons: "uuids_of (r # rs) = uuids_of [r] @ uuids_of rs"
  by (simp add: uuids_of_def)

lemma distinct_uuids_single [simp]: "distinct (uuids_of [r])"
  by (simp add: uuids_of_def split: option.split)

lemma uuids_single_iff: "u \<in> set (uuids_of [r]) \<longleftrightarrow> nr_uuid r = Some u"
  by (auto simp: uuids_of_def split: option.split)

lemma u8_next: "e \<noteq> 255 \<Longrightarrow> unat (e + 1 :: u8) = unat e + 1"
proof -
  assume "e \<noteq> 255"
  then have "unat e \<noteq> 255" by (simp add: word_unat_eq_iff)
  moreover have "unat e < 2 ^ LENGTH(8)" by (rule unsigned_less)
  ultimately show ?thesis by (simp add: unat_word_ariths)
qed

lemma check_resources_Cons:
  "check_resources e U (r # rs) = Ok () \<longleftrightarrow>
     nr_index r = e \<and> e \<noteq> 255 \<and> resource_ok r \<and> set (uuids_of [r]) \<inter> U = {}
     \<and> check_resources (e + 1) (U \<union> set (uuids_of [r])) rs = Ok ()"
  by (auto simp: result_simps check_fields_Ok_iff check_uuid_Ok_iff check_processes_Ok_iff
      resource_ok_def uuids_single_iff)

lemma check_resources_Ok_iff:
  "check_resources e U rs = Ok () \<longleftrightarrow>
     unat e + length rs \<le> 255 \<and> map (unat \<circ> nr_index) rs = [unat e ..< unat e + length rs]
     \<and> list_all resource_ok rs \<and> distinct (uuids_of rs) \<and> set (uuids_of rs) \<inter> U = {}"
proof (induction rs arbitrary: e U)
  case Nil
  have "unat e < 2 ^ LENGTH(8)" by (rule unsigned_less)
  then show ?case by (simp add: uuids_of_def)
next
  case (Cons r rs)
  show ?case
  proof (cases "e = 255")
    case True
    then show ?thesis by (simp add: check_resources_Cons del: check_resources.simps)
  next
    case False
    have up: "[unat e ..< unat e + length (r # rs)] = unat e # [Suc (unat e) ..< Suc (unat e) + length rs]"
      by (subst upt_conv_Cons) simp_all
    show ?thesis
      unfolding check_resources_Cons Cons.IH up uuids_of_Cons [of r rs] u8_next [OF False]
      using False by (auto simp: word_unat_eq_iff comp_def simp del: upt_Suc)
  qed
qed

lemma contract_iff: "validate_gres_node_snapshot_contract s = Ok () \<longleftrightarrow> contract_spec s"
  by (auto simp: validate_gres_node_snapshot_contract_def contract_spec_def check_resources_Ok_iff
      split: option.splits)

section \<open>What a client may rely on\<close>

text \<open>The interface between a collector and the cache and transports: a successful collection
  from a ready collector has pairwise distinct resource indices. From this alone follows
  that the metadata and runtime split of the protocol loses nothing.\<close>

locale gres_collector =
  fixes collect :: "'c \<Rightarrow> ErrorCode + GresNodeSnapshot"
    and ready :: "'c \<Rightarrow> bool"
  assumes distinct_indices:
    "ready c \<Longrightarrow> collect c = Ok n \<Longrightarrow> distinct (map nr_index (ns_resources n))"
begin

lemma no_commands:
  "collect_gres_snapshot (collect c) = Ok s \<Longrightarrow> omit_process_commands s = s"
  by (auto simp: collect_gres_snapshot_def result_simps into_gres_snapshot_def gres_of_resource_def
      omit_process_commands_def)

lemma distinct_gres:
  "ready c \<Longrightarrow> collect_gres_snapshot (collect c) = Ok s \<Longrightarrow> distinct (map gi_index (ss_gres s))"
  using distinct_indices
  by (fastforce simp: collect_gres_snapshot_def result_simps into_gres_snapshot_def
      gres_of_resource_def comp_def)

lemma split_exact:
  "ready c \<Longrightarrow> collect_gres_snapshot (collect c) = Ok s \<Longrightarrow>
     to_snapshot (runtime_from_snapshot s) (metadata_from_snapshot s) = s"
  using to_snapshot_split [OF distinct_gres] no_commands by metis

end

lemma contract_distinct:
  "contract_spec s \<Longrightarrow> distinct (map nr_index (ns_resources s))"
  using distinct_map [of unat "map nr_index (ns_resources s)"]
  by (metis contract_spec_def distinct_upt map_map)

lemma collect_devices_indices:
  "collect_devices rf n is = Ok gs \<Longrightarrow> map gi_index gs = map word_of_nat is"
  by (induction "is" arbitrary: gs)
    (auto simp: result_simps collect_device_def split: prod.splits)

lemma word_of_nat_u8_distinct: "k \<le> 256 \<Longrightarrow> distinct (map (word_of_nat :: nat \<Rightarrow> u8) [0 ..< k])"
  by (auto simp: distinct_map inj_on_def dest!: arg_cong [where f = unat] simp: unat_of_nat)

lemma nvml_distinct:
  assumes "nvml_collect_gres rf h n = Ok s"
  shows "distinct (map nr_index (ns_resources s))"
proof -
  from assms obtain count :: u32 and gs where "collect_devices rf n [0 ..< unat (min count 255)] = Ok gs"
    and s: "map nr_index (ns_resources s) = map gi_index gs"
    by (auto simp: nvml_collect_gres_def nvml_collect_gres_snapshot_def result_simps
        from_gres_snapshot_def resource_of_gres_def comp_def)
  moreover have "unat (min count 255) \<le> 256"
    by (simp add: min_def word_le_nat_alt)
  ultimately show ?thesis
    using collect_devices_indices word_of_nat_u8_distinct by (metis s)
qed

interpretation nvml: gres_collector "\<lambda>(hostname, n). nvml_collect_gres read_file hostname n" "\<lambda>_. True"
  for read_file
  by unfold_locales (auto intro: nvml_distinct)

lemma read_inventory_file_valid:
  "read_inventory_file rts fs path = Ok v \<Longrightarrow> validate_inventory v = Ok ()"
  by (auto simp: read_inventory_file_def result_simps)

lemma validate_inventory_contract:
  "validate_inventory v = Ok () \<Longrightarrow>
     contract_spec (snapshot_from_inventory_runtime v (initial_runtime v))"
  by (auto simp: validate_inventory_def contract_iff split: if_splits)

lemma snapshot_indices:
  "map nr_index (ns_resources (snapshot_from_inventory_runtime v st)) = map ti_index (tv_gres v)"
  by (simp add: snapshot_from_inventory_runtime_def resource_from_runtime_def comp_def)

lemma validate_inventory_distinct:
  "validate_inventory v = Ok () \<Longrightarrow> distinct (map ti_index (tv_gres v))"
  using contract_distinct [OF validate_inventory_contract] by (simp add: snapshot_indices)

interpretation simulated: gres_collector
  "test_collect_gres (read_inventory_file read_to_string from_str) read_runtime"
  "\<lambda>c. validate_inventory (tc_inventory c) = Ok ()"
  for read_to_string from_str read_runtime
proof
  fix c n
  assume valid: "validate_inventory (tc_inventory c) = Ok ()"
    and "test_collect_gres (read_inventory_file read_to_string from_str) read_runtime c = Ok n"
  then obtain v st where v: "v = tc_inventory c \<or> (\<exists>p. read_inventory_file read_to_string from_str p = Ok v)"
    and n: "n = snapshot_from_inventory_runtime v st"
    by (auto simp: test_collect_gres_def result_simps Let_def split: if_splits option.splits)
  from v valid have "validate_inventory v = Ok ()"
    using read_inventory_file_valid by blast
  then show "distinct (map nr_index (ns_resources n))"
    by (simp add: n snapshot_indices validate_inventory_distinct)
qed

section \<open>The simulated data\<close>

lemma max_used_pos: "(1::u64) \<le> max x 1"
  by simp

lemma word_mod_less: "(b :: 'a::len word) \<noteq> 0 \<Longrightarrow> a mod b < b"
  by (simp add: word_less_nat_alt unat_mod word_unat_eq_iff)

lemma runtime_resource_bounds:
  fixes r tick
  defines "x \<equiv> runtime_resource_for_tick tick r"
  shows "tr_memory_used_mb x \<le> max (ti_memory_total_mb r) 1" "1 \<le> tr_memory_used_mb x"
    "tr_utilization_gres_percent x \<le> 100" "1 \<le> tr_utilization_gres_percent x"
    "tr_utilization_memory_percent x \<le> 100"
proof -
  have pred: "saturating_sub m 1 \<le> m" for m :: u64
    by (simp add: saturating_sub_def word_le_nat_alt word_less_nat_alt unat_sub_if')
  show "tr_memory_used_mb x \<le> max (ti_memory_total_mb r) 1" "1 \<le> tr_memory_used_mb x"
    using pred [of "ti_memory_total_mb r"]
    by (auto simp: x_def runtime_resource_for_tick_def Let_def min_def max_def)
  let ?u = "max ((max (saturating_sub 87 (ucast (ti_index r) * 7)) 1 + tick * 13) mod 101) (1 :: u64)"
  have "?u < 101" "1 \<le> ?u" using word_mod_less [of "101 :: u64"] by simp_all
  then have u: "unat ?u < 101" "1 \<le> unat ?u" by (simp_all add: word_less_nat_alt word_le_nat_alt)
  then have "unat (ucast ?u :: u8) = unat ?u"
    by (simp only: unsigned_ucast_eq) (simp add: take_bit_nat_eq_self)
  with u show "tr_utilization_gres_percent x \<le> 100" "1 \<le> tr_utilization_gres_percent x"
    by (simp_all add: x_def runtime_resource_for_tick_def Let_def word_le_nat_alt)
  have "unat (min y 100 :: u64) \<le> 100" for y by (simp add: min_def word_le_nat_alt)
  then have "unat (ucast (min y 100 :: u64) :: u8) \<le> 100" for y
    by (simp only: unsigned_ucast_eq) (meson order.trans take_bit_nat_less_eq_self)
  then show "tr_utilization_memory_percent x \<le> 100"
    by (simp add: x_def runtime_resource_for_tick_def Let_def word_le_nat_alt)
qed

lemma find_rev_distinct:
  "distinct (map f xs) \<Longrightarrow> x \<in> set xs \<Longrightarrow> find (\<lambda>y. f y = f x) (rev xs) = Some x"
proof (induction xs rule: rev_induct)
  case Nil
  then show ?case by simp
next
  case (snoc y xs)
  then show ?case by (cases "x = y") (auto simp: image_iff)
qed

lemma runtime_lookup:
  assumes "distinct (map ti_index (tv_gres v))" "r \<in> set (tv_gres v)"
  shows "runtime_by_index (runtime_for_tick v tick) (ti_index r) = Some (runtime_resource_for_tick tick r)"
proof -
  have idx: "tr_index (runtime_resource_for_tick tick x) = ti_index x" for x
    by (simp add: runtime_resource_for_tick_def Let_def)
  have "distinct (map tr_index (map (runtime_resource_for_tick tick) (tv_gres v)))"
    using assms(1) by (simp add: comp_def idx)
  from find_rev_distinct [OF this, of "runtime_resource_for_tick tick r"] assms(2) show ?thesis
    by (simp add: runtime_by_index_def runtime_for_tick_def idx)
qed

definition default_resource :: "string \<Rightarrow> nat \<Rightarrow> TestGresInventoryResource" where
  "default_resource hostname i =
     \<lparr>ti_index = word_of_nat i, ti_name = ''NVIDIA Test GPU '' @ nat_to_string i,
      ti_uuid = Some (test_uuid hostname i), ti_memory_total_mb = 16384 + word_of_nat i * 1024\<rparr>"

lemma default_inventory_gres:
  "tv_gres (default_inventory h n) = map (default_resource h) [0 ..< unat n]"
  by (simp add: default_inventory_def default_resource_def [abs_def])

lemma default_memory:
  assumes "i < 256"
  shows "unat (ti_memory_total_mb (default_resource h i)) = 16384 + i * 1024"
  using assms by (simp add: default_resource_def unat_word_ariths unat_of_nat take_bit_nat_eq_self)

lemma ucast_u8_of_nat: "i < 256 \<Longrightarrow> 8 \<le> LENGTH('b::len) \<Longrightarrow>
    (ucast (word_of_nat i :: u8) :: 'b word) = word_of_nat i"
  by (simp add: word_unat_eq_iff unsigned_ucast_eq unat_of_nat take_bit_eq_mod)

lemma default_process_memory:
  assumes i: "i < 256"
  shows "(768 + ucast (word_of_nat i :: u8) * 128 + tick mod 64 :: u64) \<le> 16384 + word_of_nat i * 1024"
proof -
  have "unat (tick mod 64) < 64" by (simp add: unat_mod)
  with i have "unat (768 + word_of_nat i * 128 + tick mod 64 :: u64) = 768 + i * 128 + unat (tick mod 64)"
    by (simp add: unat_word_ariths unat_of_nat take_bit_nat_eq_self)
  with \<open>unat (tick mod 64) < 64\<close> i show ?thesis
    by (simp add: ucast_u8_of_nat word_le_nat_alt)
      (simp add: unat_word_ariths unat_of_nat take_bit_nat_eq_self)
qed

lemma small_word_nonzero: "0 < k \<Longrightarrow> k < 2 ^ LENGTH('a::len) \<Longrightarrow> (word_of_nat k :: 'a word) \<noteq> 0"
  by (simp add: word_unat_eq_iff unat_word_of_length)

lemma test_uuid_ok: "trim (test_uuid h i) \<noteq> []"
  by (rule trim_nonempty [of "CHR ''G''"]) (simp_all add: test_uuid_def ws_free_ascii)

lemma default_resource_ok:
  assumes i: "i < 255"
  shows "resource_ok (resource_from_runtime (default_resource h i)
    (Some (runtime_resource_for_tick tick (default_resource h i))))" (is "resource_ok ?r")
proof -
  let ?d = "default_resource h i"
  have "unat (ti_memory_total_mb ?d) \<noteq> 0" using i by (simp add: default_memory)
  then have tot: "ti_memory_total_mb ?d \<noteq> 0" by auto
  have pid: "(4242 + ucast (ti_index ?d) * 10 :: u32) \<noteq> 0" "(4243 + ucast (ti_index ?d) * 10 :: u32) \<noteq> 0"
    using i small_word_nonzero [of "4242 + i * 10", where 'a = 32]
      small_word_nonzero [of "4243 + i * 10", where 'a = 32]
    by (simp_all add: default_resource_def ucast_u8_of_nat)
  have mem: "768 + ucast (ti_index ?d) * 128 + tick mod 64 \<le> ti_memory_total_mb ?d"
    using i default_process_memory [of i tick] by (simp add: default_resource_def)
  have mem2: "128 \<le> ti_memory_total_mb ?d"
    using i by (simp add: word_le_nat_alt default_memory)
  have name: "trim (ti_name ?d) \<noteq> []"
    by (rule trim_nonempty [of "CHR ''N''"]) (simp_all add: default_resource_def ws_free_ascii)
  have uuid: "\<forall>u. ti_uuid ?d = Some u \<longrightarrow> trim u \<noteq> []"
    by (simp add: default_resource_def test_uuid_ok)
  have ps: "tr_processes (runtime_resource_for_tick tick ?d) =
      [\<lparr>tp_pid = 4242 + ucast (ti_index ?d) * 10, tp_uid = 1000 + ucast (ti_index ?d),
        tp_used_memory_mb = 768 + ucast (ti_index ?d) * 128 + tick mod 64\<rparr>,
       \<lparr>tp_pid = 4243 + ucast (ti_index ?d) * 10, tp_uid = 2000 + ucast (ti_index ?d),
        tp_used_memory_mb = 128\<rparr>]"
    by (simp add: runtime_resource_for_tick_def Let_def)
  show ?thesis unfolding resource_ok_def
    using name tot uuid pid mem mem2 by (simp add: resource_from_runtime_def ps)
qed

lemma digits_value_zeros: "digits_value (replicate k (CHR ''0'') @ s) = digits_value s"
  by (induction k) (simp_all add: digits_value_def)

lemma test_uuid_inject: "test_uuid h i = test_uuid h j \<Longrightarrow> i = j"
proof -
  assume "test_uuid h i = test_uuid h j"
  then have "digits_value (pad_left (CHR ''0'') 4 (nat_to_string i)) =
      digits_value (pad_left (CHR ''0'') 4 (nat_to_string j))"
    by (simp add: test_uuid_def)
  then show ?thesis by (simp add: pad_left_def digits_value_zeros)
qed

lemma default_snapshot_resources:
  assumes "unat n < 256"
  shows "ns_resources (snapshot_from_inventory_runtime (default_inventory h n)
      (runtime_for_tick (default_inventory h n) tick)) =
    map (\<lambda>i. resource_from_runtime (default_resource h i)
      (Some (runtime_resource_for_tick tick (default_resource h i)))) [0 ..< unat n]"
proof -
  have "distinct (map ti_index (tv_gres (default_inventory h n)))"
    using word_of_nat_u8_distinct [of "unat n"] assms
    by (simp add: default_inventory_gres default_resource_def comp_def)
  from runtime_lookup [OF this] show ?thesis
    by (simp add: snapshot_from_inventory_runtime_def default_inventory_gres)
qed

lemma default_contract:
  assumes "trim h \<noteq> []" and n: "unat n < 256"
  shows "contract_spec (snapshot_from_inventory_runtime (default_inventory h n)
    (runtime_for_tick (default_inventory h n) tick))" (is "contract_spec ?s")
proof -
  note rs = default_snapshot_resources [OF n, of h tick]
  have u: "nr_uuid (resource_from_runtime (default_resource h i) x) = Some (test_uuid h i)" for i x
    by (simp add: resource_from_runtime_def default_resource_def)
  have "uuids_of (ns_resources ?s) = map (test_uuid h) [0 ..< unat n]"
    unfolding rs uuids_of_def by (simp add: u comp_def concat_map_singleton)
  then have "distinct (uuids_of (ns_resources ?s))"
    using test_uuid_inject by (auto simp: distinct_map inj_on_def)
  moreover have "map (unat \<circ> nr_index) (ns_resources ?s) = [0 ..< length (ns_resources ?s)]"
    unfolding rs using n
    by (auto simp: resource_from_runtime_def default_resource_def comp_def unat_of_nat
        take_bit_nat_eq_self intro!: map_idI)
  moreover have "list_all resource_ok (ns_resources ?s)"
    unfolding rs using n by (auto simp: list_all_iff intro!: default_resource_ok)
  moreover have "trim ''test-driver'' \<noteq> []"
    by (rule trim_nonempty [of "CHR ''t''"]) (simp_all add: ws_free_ascii)
  ultimately show ?thesis
    using assms rs by (simp add: contract_spec_def) (simp add: snapshot_from_inventory_runtime_def
      default_inventory_def)
qed

section \<open>The runtime file and the process list\<close>

lemma runtime_file_roundtrip:
  assumes "write_runtime_bytes to_vec path st mmap = Ok mmap'"
    and "\<And>bs. to_vec st = Ok bs \<Longrightarrow> bs \<noteq> [] \<and> from_slice bs = Ok st"
    and "length mmap < 2 ^ 64"
  shows "read_runtime_bytes from_slice path mmap' = Some (Ok st) \<and> length mmap' = length mmap"
proof -
  from assms(1) obtain bs where bs: "to_vec st = Ok bs" "RUNTIME_HEADER_LEN + length bs \<le> length mmap"
    and m: "mmap' = u64_to_le_bytes (word_of_nat (length bs)) @ bs @ drop (RUNTIME_HEADER_LEN + length bs) mmap"
    by (auto simp: write_runtime_bytes_def result_simps not_less split: if_splits)
  have "unat (word_of_nat (length bs) :: u64) = length bs"
    using assms(3) bs(2) by (simp add: unat_word_of_length)
  with assms(2) [OF bs(1)] assms(3) bs(2) show ?thesis
    by (simp add: read_runtime_bytes_def m RUNTIME_HEADER_LEN_def slice_def Let_def)
qed

lemma collect_processes_from_pids:
  "distinct (map gp_pid (collect_processes_from rf seen ps))
   \<and> set (map gp_pid (collect_processes_from rf seen ps)) = set (map nv_pid ps) - seen"
  by (induction ps arbitrary: seen) (auto simp del: set_map simp: set_map [symmetric])

section \<open>Properties\<close>


text \<open>The simulated collector keeps the contract at every tick of its runtime generator, for
  every host name that is not blank and any number of resources.\<close>

theorem simulated_contract:
  assumes "trim h \<noteq> []"
  shows "validate_gres_node_snapshot_contract (snapshot_from_inventory_runtime (default_inventory h n)
    (runtime_for_tick (default_inventory h n) tick)) = Ok ()"
  using default_contract [OF assms, of n tick] unsigned_less [of n] by (simp add: contract_iff)

theorem simulated_contract_witness:
  "trim ''node'' \<noteq> [] \<and> validate_gres_node_snapshot_contract
    (snapshot_from_inventory_runtime (default_inventory ''node'' 2)
      (runtime_for_tick (default_inventory ''node'' 2) 99)) = Ok ()"
proof -
  have "trim ''node'' \<noteq> []"
    by (rule trim_nonempty [of "CHR ''n''"]) (simp_all add: ws_free_ascii)
  with simulated_contract show ?thesis by blast
qed

text \<open>Whatever NVML answers, a snapshot that the NVML collector produces carries no command
  line, has distinct resource indices, and is rebuilt exactly by a client from its
  metadata and runtime parts.\<close>

theorem nvml_snapshot_rebuilds:
  assumes "collect_gres_snapshot (nvml_collect_gres read_file hostname n) = Ok s"
  shows "omit_process_commands s = s \<and> distinct (map gi_index (ss_gres s))
    \<and> to_snapshot (runtime_from_snapshot s) (metadata_from_snapshot s) = s"
  using nvml.no_commands [of read_file "(hostname, n)"] nvml.distinct_gres [of read_file "(hostname, n)"]
    nvml.split_exact [of read_file "(hostname, n)"] assms
  by simp

definition one_device :: "unit nvml" where
  "one_device = \<lparr>nv_device_count = Ok 1, nv_device_by_index = (\<lambda>_. Ok ()),
     nv_utilization_rates = (\<lambda>_. Ok (130, 40)), nv_memory_info = (\<lambda>_. Ok (1048576, 4194304)),
     nv_temperature = (\<lambda>_. Err ''no sensor''), nv_name = (\<lambda>_. Ok ''A100''), nv_uuid = (\<lambda>_. Ok ''u0''),
     nv_compute_processes = (\<lambda>_. Ok [\<lparr>nv_pid = 7, nv_used_gpu_memory = Used 2097152\<rparr>]),
     nv_graphics_processes = (\<lambda>_. Ok [\<lparr>nv_pid = 7, nv_used_gpu_memory = Unavailable\<rparr>]),
     nv_sys_driver_version = Ok ''550''\<rparr>"

theorem nvml_snapshot_rebuilds_witness:
  "\<exists>s. collect_gres_snapshot (nvml_collect_gres (\<lambda>_. None) ''node'' one_device) = Ok s
    \<and> map (map gp_pid \<circ> gi_processes) (ss_gres s) = [[7]]
    \<and> to_snapshot (runtime_from_snapshot s) (metadata_from_snapshot s) = s"
proof -
  have "\<exists>s. collect_gres_snapshot (nvml_collect_gres (\<lambda>_. None) ''node'' one_device) = Ok s
      \<and> map (map gp_pid \<circ> gi_processes) (ss_gres s) = [[7]]"
    by (simp add: collect_gres_snapshot_def nvml_collect_gres_def nvml_collect_gres_snapshot_def
        one_device_def collect_device_def collect_processes_def unwrap_or_def from_gres_snapshot_def
        into_gres_snapshot_def resource_of_gres_def gres_of_resource_def)
  then obtain s where s: "collect_gres_snapshot (nvml_collect_gres (\<lambda>_. None) ''node'' one_device) = Ok s"
    "map (map gp_pid \<circ> gi_processes) (ss_gres s) = [[7]]"
    by (elim exE conjE) (rule that)
  from nvml_snapshot_rebuilds [OF s(1)]
  have "to_snapshot (runtime_from_snapshot s) (metadata_from_snapshot s) = s" by (elim conjE)
  then show ?thesis by (intro exI [of _ s] conjI s)
qed

text \<open>The process list of a device names every process that NVML reports as computing or
  drawing, and each exactly once.\<close>

theorem collected_processes_exact:
  "distinct (map gp_pid (collect_processes read_file n d))
   \<and> set (map gp_pid (collect_processes read_file n d)) =
     nv_pid ` (set (unwrap_or [] (nv_compute_processes n d))
       \<union> set (unwrap_or [] (nv_graphics_processes n d)))"
  unfolding collect_processes_def
  using collect_processes_from_pids [of read_file "{}"
    "unwrap_or [] (nv_compute_processes n d) @ unwrap_or [] (nv_graphics_processes n d)"]
  by (simp add: image_Un)

end
