(* ===== verification/Server_Startup.thy ===== *)
theory Server_Startup
  imports Net_Addr Collector Server_Cache
begin

text \<open>
  Start-up and discovery of the server: the configuration of \<^verbatim>\<open>crates/common/src/config.rs\<close>
  and, from \<^verbatim>\<open>crates/server/src/main.rs\<close>, its validation, the choice of the ports, the
  choice of the collector, host name detection, the start-up announcement with its retries
  and the answers to discovery queries. Name resolution, socket binding, sending, TOML and
  JSON are parameters.
\<close>

section \<open>Configuration\<close>

record ConnectingConfig =
  cc_port_range :: "u16 \<times> u16"
  cc_multicast_addr :: string
  cc_tcp_port :: u16
  cc_udp_port :: u16
  cc_udp_mtu :: u16
  cc_protocol :: string
  cc_heartbeat_interval :: u64
  cc_connection_idle_timeout :: u64
  cc_max_connections :: usize
  cc_discover_wait_secs :: u64
  cc_multicast_retry_limit :: u32
  cc_multicast_outbound_ip :: "string list"

record LogConfig =
  lc_max_size :: string

record ServicesConfig =
  sv_cache_ttl_ms :: u64
  sv_collector_interval_ms :: u64
  sv_latency_display :: bool
  sv_uds_path :: "string option"

record RuntimeConfig =
  rc_nvml_lib_path :: "string option"
  rc_test_inventory_path :: "string option"
  rc_test_runtime_path :: "string option"
  rc_test_inventory_reload :: bool

record Config =
  cf_connecting :: ConnectingConfig
  cf_log :: LogConfig
  cf_services :: ServicesConfig
  cf_runtime :: RuntimeConfig

text \<open>The defaults that serde fills in.\<close>

definition default_heartbeat_interval_secs :: u64 where "default_heartbeat_interval_secs = 5"
definition default_connection_idle_timeout_secs :: u64 where "default_connection_idle_timeout_secs = 10"
definition default_max_connections :: usize where "default_max_connections = 64"
definition default_protocol :: string where "default_protocol = ''udp''"
definition default_tcp_port :: u16 where "default_tcp_port = 0"
definition default_udp_port :: u16 where "default_udp_port = 0"
definition default_udp_mtu :: u16 where "default_udp_mtu = 0"
definition default_discover_wait_secs :: u64 where "default_discover_wait_secs = 5"
definition default_multicast_retry_limit :: u32 where "default_multicast_retry_limit = 5"
definition default_log_max_size :: string where "default_log_max_size = ''5mb''"
definition default_cache_ttl_ms :: u64 where "default_cache_ttl_ms = 40"
definition default_collector_interval_ms :: u64 where "default_collector_interval_ms = 25"
definition default_latency_display :: bool where "default_latency_display = True"

section \<open>Validation\<close>

record StartupError =
  se_code :: ErrorCode
  se_message :: string
  se_hint :: "string option"

definition startup_error :: "ErrorCode \<Rightarrow> string \<Rightarrow> StartupError" where
  "startup_error c m = \<lparr>se_code = c, se_message = m, se_hint = None\<rparr>"

definition with_hint :: "StartupError \<Rightarrow> string \<Rightarrow> StartupError" where
  "with_hint e hint = e\<lparr>se_hint := Some hint\<rparr>"

definition config_error :: "string \<Rightarrow> StartupError + 'a" where
  "config_error m = Err (startup_error ConfigInvalid m)"

definition quote :: "string \<Rightarrow> string" where
  "quote s = [CHR 0x27] @ s @ [CHR 0x27]"

definition validate_protocol :: "string \<Rightarrow> StartupError + unit" where
  "validate_protocol raw =
     (let p = to_ascii_lowercase (trim raw) in
      if p = ''udp'' \<or> p = ''tcp'' then Ok ()
      else config_error (''invalid connecting.protocol '' @ quote p @ '': expected '' @ quote ''udp''
             @ '' or '' @ quote ''tcp''))"

definition validate_positive :: "string \<Rightarrow> u64 \<Rightarrow> StartupError + unit" where
  "validate_positive name v =
     (if v = 0 then config_error (''invalid '' @ name @ '': must be > 0'') else Ok ())"

definition unit_multiplier :: "string \<Rightarrow> u64 option" where
  "unit_multiplier u =
     (if u = '''' \<or> u = ''b'' then Some 1
      else if u = ''kb'' \<or> u = ''kib'' then Some 1024
      else if u = ''mb'' \<or> u = ''mib'' then Some (1024 * 1024)
      else if u = ''gb'' \<or> u = ''gib'' then Some (1024 * 1024 * 1024)
      else None)"

definition parse_log_size_bytes :: "string \<Rightarrow> StartupError + u64" where
  "parse_log_size_bytes raw =
     (let trimmed = trim raw in
      if trimmed = [] then config_error ''invalid log.max_size: empty value''
      else let number = takeWhile is_ascii_digit trimmed; unit = dropWhile is_ascii_digit trimmed in
      if number = [] then config_error (''invalid log.max_size '' @ quote raw @ '': missing number'')
      else case parse_uint (2 ^ 64 - 1) number of
        None \<Rightarrow> config_error (''invalid log.max_size '' @ quote raw
                  @ '': number too large to fit in target type'')
      | Some v \<Rightarrow>
          if v = 0 then config_error ''invalid log.max_size: must be > 0''
          else let u = to_ascii_lowercase (trim unit) in
          case unit_multiplier u of
            None \<Rightarrow> config_error (''invalid log.max_size '' @ quote raw @ '': unsupported unit '' @ quote u)
          | Some m \<Rightarrow>
              if v * unat m \<ge> 2 ^ 64 then config_error (''invalid log.max_size '' @ quote raw @ '': value too large'')
              else Ok (word_of_nat v * m))"

definition validate_port_range :: "u16 \<times> u16 \<Rightarrow> StartupError + unit" where
  "validate_port_range r =
     (if fst r = 0 \<or> snd r = 0 \<or> fst r > snd r
      then config_error (''invalid port_range ['' @ nat_to_string (unat (fst r)) @ '', ''
             @ nat_to_string (unat (snd r)) @ '']'')
      else Ok ())"

text \<open>\<open>resolve\<close> is \<open>to_socket_addrs\<close>: the addresses of a name, or the resolver's message.\<close>

definition validate_multicast_addr ::
    "(string \<Rightarrow> string + SocketAddr list) \<Rightarrow> string \<Rightarrow> StartupError + SocketAddr" where
  "validate_multicast_addr resolve raw =
     (let prefix = ''invalid multicast_addr '' @ quote raw in
      case resolve raw of
        Err e \<Rightarrow> Err (startup_error MulticastFailed (prefix @ '': '' @ e))
      | Ok [] \<Rightarrow> Err (startup_error MulticastFailed (prefix @ '': no resolved address''))
      | Ok (addr # _) \<Rightarrow>
          if \<not> is_multicast addr
          then Err (startup_error MulticastFailed (prefix @ '': IP is not multicast''))
          else Ok addr)"

definition parse_outbound_ip :: "string \<Rightarrow> StartupError + u32" where
  "parse_outbound_ip item =
     (case parse_ipv4 item of
        Some ip \<Rightarrow> Ok ip
      | None \<Rightarrow> config_error (''invalid connecting.multicast_outbound_ip entry '' @ quote item
                  @ '': expected IPv4 address, got invalid IPv4 address syntax''))"

text \<open>Collecting an iterator of results stops at the first error.\<close>

fun collect_results :: "('e + 'a) list \<Rightarrow> 'e + 'a list" where
  "collect_results [] = Ok []"
| "collect_results (r # rs) = and_then r (\<lambda>x. map_ok (\<lambda>xs. x # xs) (collect_results rs))"

definition validate_multicast_outbound_ips :: "string list \<Rightarrow> StartupError + u32 list" where
  "validate_multicast_outbound_ips raw =
     collect_results (map parse_outbound_ip (filter (\<lambda>i. i \<noteq> []) (map trim raw)))"

definition validate_config :: "(string \<Rightarrow> string + SocketAddr list) \<Rightarrow> Config \<Rightarrow> StartupError + unit" where
  "validate_config resolve cfg =
     (let c = cf_connecting cfg; s = cf_services cfg in
      and_then (validate_port_range (cc_port_range c)) (\<lambda>_.
      and_then (validate_multicast_addr resolve (cc_multicast_addr c)) (\<lambda>_.
      and_then (validate_protocol (cc_protocol c)) (\<lambda>_.
      and_then (validate_positive ''cache_ttl_ms'' (sv_cache_ttl_ms s)) (\<lambda>_.
      and_then (validate_positive ''collector_interval_ms'' (sv_collector_interval_ms s)) (\<lambda>_.
      and_then (validate_positive ''heartbeat_interval'' (cc_heartbeat_interval c)) (\<lambda>_.
      and_then (validate_positive ''connection_idle_timeout'' (cc_connection_idle_timeout c)) (\<lambda>_.
      and_then (validate_positive ''max_connections'' (word_of_nat (cc_max_connections c))) (\<lambda>_.
      and_then (validate_positive ''discover_wait_secs'' (cc_discover_wait_secs c)) (\<lambda>_.
      and_then (validate_positive ''multicast_retry_limit'' (ucast (cc_multicast_retry_limit c))) (\<lambda>_.
      and_then (validate_multicast_outbound_ips (cc_multicast_outbound_ip c)) (\<lambda>_.
      and_then (parse_log_size_bytes (lc_max_size (cf_log cfg))) (\<lambda>_.
      Ok ())))))))))))))"

definition load_config ::
    "(string \<Rightarrow> string + string) \<Rightarrow> (string \<Rightarrow> string + Config) \<Rightarrow> (string \<Rightarrow> string + SocketAddr list)
      \<Rightarrow> string \<Rightarrow> StartupError + Config" where
  "load_config read_to_string from_toml resolve path =
     and_then (map_err (\<lambda>e. startup_error ConfigInvalid (''read config failed at '' @ path @ '': '' @ e))
       (read_to_string path)) (\<lambda>raw.
     and_then (map_err (\<lambda>e. startup_error ConfigInvalid (''parse config failed at '' @ path @ '': '' @ e))
       (from_toml raw)) (\<lambda>config.
     and_then (validate_config resolve config) (\<lambda>_. Ok config)))"

section \<open>Ports\<close>

text \<open>\<open>nanos\<close> is the sub-second part of the clock; the arithmetic is that of \<open>u32\<close> and \<open>u16\<close>, which
  does not overflow on a valid range.\<close>

definition port_candidates :: "nat \<Rightarrow> u16 \<times> u16 \<Rightarrow> u16 list" where
  "port_candidates nanos r =
     (let count = unat (snd r - fst r) + 1; offset = nanos mod count
      in map (\<lambda>idx. fst r + word_of_nat ((offset + idx) mod count)) [0 ..< count])"

fun first_free :: "(u16 \<Rightarrow> bool) \<Rightarrow> u16 option \<Rightarrow> u16 list \<Rightarrow> u16 option" where
  "first_free bind_ok exclude [] = None"
| "first_free bind_ok exclude (p # ps) =
     (if Some p = exclude then first_free bind_ok exclude ps
      else if bind_ok p then Some p else first_free bind_ok exclude ps)"

definition range_text :: "u16 \<times> u16 \<Rightarrow> string" where
  "range_text r = ''['' @ nat_to_string (unat (fst r)) @ '', '' @ nat_to_string (unat (snd r)) @ '']''"

definition pick_udp_port_excluding ::
    "(u16 \<Rightarrow> bool) \<Rightarrow> nat \<Rightarrow> u16 \<times> u16 \<Rightarrow> u16 \<Rightarrow> u16 option \<Rightarrow> StartupError + u16" where
  "pick_udp_port_excluding bind_ok nanos rg requested exclude =
     (if requested \<noteq> 0 then
        if Some requested = exclude
        then Err (startup_error PortExhausted (''configured udp_port '' @ nat_to_string (unat requested)
               @ '' conflicts with another UDP port''))
        else if bind_ok requested then Ok requested
        else Err (startup_error PortExhausted (''configured udp_port '' @ nat_to_string (unat requested)
               @ '' is not available''))
      else case first_free bind_ok exclude (port_candidates nanos rg) of
        Some p \<Rightarrow> Ok p
      | None \<Rightarrow> Err (startup_error PortExhausted (''all UDP ports exhausted in range '' @ range_text rg)))"

definition pick_udp_port :: "(u16 \<Rightarrow> bool) \<Rightarrow> nat \<Rightarrow> u16 \<times> u16 \<Rightarrow> u16 \<Rightarrow> StartupError + u16" where
  "pick_udp_port bind_ok nanos rg requested = pick_udp_port_excluding bind_ok nanos rg requested None"

definition pick_tcp_port ::
    "(u16 \<Rightarrow> bool) \<Rightarrow> nat \<Rightarrow> u16 \<times> u16 \<Rightarrow> u16 \<Rightarrow> u16 option \<Rightarrow> StartupError + u16" where
  "pick_tcp_port bind_ok nanos rg requested exclude =
     (if requested \<noteq> 0 then
        if Some requested = exclude
        then Err (startup_error PortExhausted (''configured tcp_port '' @ nat_to_string (unat requested)
               @ '' conflicts with udp_port''))
        else if bind_ok requested then Ok requested
        else Err (startup_error PortExhausted (''configured tcp_port '' @ nat_to_string (unat requested)
               @ '' is not available''))
      else case first_free bind_ok exclude (port_candidates nanos rg) of
        Some p \<Rightarrow> Ok p
      | None \<Rightarrow> Err (startup_error PortExhausted (''all TCP ports exhausted in range '' @ range_text rg)))"

text \<open>The two choices as \<open>run\<close> makes them.\<close>

definition pick_ports ::
    "(u16 \<Rightarrow> bool) \<Rightarrow> (u16 \<Rightarrow> bool) \<Rightarrow> nat \<Rightarrow> nat \<Rightarrow> ConnectingConfig \<Rightarrow> StartupError + (u16 \<times> u16)" where
  "pick_ports udp_ok tcp_ok nanos nanos' c =
     and_then (pick_udp_port udp_ok nanos (cc_port_range c) (cc_udp_port c)) (\<lambda>udp_port.
     and_then (pick_tcp_port tcp_ok nanos' (cc_port_range c) (cc_tcp_port c) (Some udp_port)) (\<lambda>tcp_port.
       Ok (udp_port, tcp_port)))"

section \<open>Collector and host name\<close>

definition nonblank :: "string option \<Rightarrow> string option" where
  "nonblank p = (case map_option trim p of Some s \<Rightarrow> if s = [] then None else Some s | None \<Rightarrow> None)"

definition nvml_startup_error_message :: "string option \<Rightarrow> string" where
  "nvml_startup_error_message p =
     (case nonblank p of
        Some path \<Rightarrow> ''NVML collector init failed while loading configured runtime.nvml_lib_path='' @ quote path
      | None \<Rightarrow> ''NVML collector init failed while loading default libnvidia-ml.so; configure [runtime].nvml_lib_path if this host only provides a versioned NVML library'')"

definition nvml_startup_hint :: "string option \<Rightarrow> string" where
  "nvml_startup_hint p =
     (case nonblank p of
        Some _ \<Rightarrow> ''Verify the configured NVML library path exists, is readable by the clustat service user, and is a real NVIDIA runtime library, not the CUDA stubs library.''
      | None \<Rightarrow> ''This host may only provide a versioned NVML library such as /usr/lib/x86_64-linux-gnu/libnvidia-ml.so.1. Set [runtime].nvml_lib_path in /etc/clustat/server.toml, then run: systemctl reset-failed clustat-server && systemctl restart clustat-server. Do not use CUDA stubs/libnvidia-ml.so.'')"

text \<open>Which collector a release build (without the feature \<open>debug\<close>) starts with.\<close>

definition build_collector ::
    "(string \<Rightarrow> string option) \<Rightarrow> (string option \<Rightarrow> string + 'd nvml) \<Rightarrow> string \<Rightarrow> Config
      \<Rightarrow> StartupError + ((string \<times> 'd nvml) \<times> bool \<times> string)" where
  "build_collector var init hostname config =
     (let rt = cf_runtime config in
      if rc_test_inventory_path rt \<noteq> None \<or> rc_test_runtime_path rt \<noteq> None
      then config_error ''runtime.test_inventory_path/runtime.test_runtime_path require building the server with --features debug''
      else map_err (\<lambda>e. with_hint (startup_error e (nvml_startup_error_message (rc_nvml_lib_path rt)))
                     (nvml_startup_hint (rc_nvml_lib_path rt)))
             (map_ok (\<lambda>c. (c, False, ''nvml'')) (nvml_collector_new var init hostname (rc_nvml_lib_path rt))))"

definition DEFAULT_CONFIG_PATH :: string where
  "DEFAULT_CONFIG_PATH = ''/etc/clustat/server.toml''"

definition get_config_path :: "(string \<Rightarrow> string option) \<Rightarrow> string" where
  "get_config_path var = (case var ''CLUSTAT_CONFIG'' of Some p \<Rightarrow> p | None \<Rightarrow> DEFAULT_CONFIG_PATH)"

definition read_hostname_file :: "(string \<Rightarrow> string option) \<Rightarrow> string \<Rightarrow> string option" where
  "read_hostname_file read_file path = nonblank (read_file path)"

fun or_else :: "'a option \<Rightarrow> 'a option \<Rightarrow> 'a option" where
  "or_else (Some x) y = Some x"
| "or_else None y = y"

definition detect_hostname :: "(string \<Rightarrow> string option) \<Rightarrow> (string \<Rightarrow> string option) \<Rightarrow> string" where
  "detect_hostname var read_file =
     (case or_else (nonblank (var ''HOSTNAME''))
             (or_else (read_hostname_file read_file ''/proc/sys/kernel/hostname'')
                (read_hostname_file read_file ''/etc/hostname'')) of
        Some h \<Rightarrow> h | None \<Rightarrow> ''unknown-host'')"

section \<open>Discovery\<close>

definition discovery_announce :: "string \<Rightarrow> string \<Rightarrow> u16 \<Rightarrow> u16 \<Rightarrow> DiscoveryAnnounce" where
  "discovery_announce hostname ip udp_port tcp_port =
     \<lparr>da_version = PROTOCOL_VERSION, da_hostname = hostname, da_ip = ip, da_port = udp_port,
      da_tcp_port = Some tcp_port, da_kcp_port = None, da_udp_port = Some udp_port, da_ttl = None,
      da_load = None, da_degraded = Some False\<rparr>"

definition multicast_route_hint :: "string \<Rightarrow> nat option \<Rightarrow> string" where
  "multicast_route_hint message os_error =
     (if os_error = Some 101 \<or> os_error = Some 19
      then message @ ''; multicast route/interface is unavailable, configure [connecting].multicast_outbound_ip with one or more local IPv4 addresses''
      else message)"

text \<open>The start-up announcement. \<open>to_vec\<close> is the JSON encoder; \<open>socket_ok attempt interface\<close> and
  \<open>send_ok attempt interface msg\<close> say whether a socket could be made and the send succeeded.
  The result is the list of messages sent, with their attempt and interface, and whether
  the retry limit was reached.\<close>

definition announce_interfaces :: "u32 list \<Rightarrow> u32 option list" where
  "announce_interfaces ips = (if ips = [] then [None] else map Some ips)"

definition announce_ip :: "string \<Rightarrow> u32 option \<Rightarrow> string" where
  "announce_ip ip interface = (case interface of Some a \<Rightarrow> ipv4_to_string a | None \<Rightarrow> ip)"

type_synonym sent_message = "nat \<times> u32 option \<times> bytes"

fun announce_on ::
    "(DiscoveryAnnounce \<Rightarrow> string + bytes) \<Rightarrow> (nat \<Rightarrow> u32 option \<Rightarrow> bool) \<Rightarrow> (nat \<Rightarrow> u32 option \<Rightarrow> bytes \<Rightarrow> bool)
      \<Rightarrow> string \<Rightarrow> string \<Rightarrow> u16 \<Rightarrow> u16 \<Rightarrow> nat \<Rightarrow> u32 option list \<Rightarrow> sent_message list \<times> bool" where
  "announce_on to_vec socket_ok send_ok hostname ip udp tcp attempt [] = ([], True)"
| "announce_on to_vec socket_ok send_ok hostname ip udp tcp attempt (i # is) =
     (case to_vec (discovery_announce hostname (announce_ip ip i) udp tcp) of
        Err _ \<Rightarrow> ([], False)
      | Ok msg \<Rightarrow>
          let (out, complete) = announce_on to_vec socket_ok send_ok hostname ip udp tcp attempt is
          in (if socket_ok attempt i \<and> send_ok attempt i msg then ((attempt, i, msg) # out, complete)
              else (out, complete)))"

fun announce_attempts ::
    "(nat \<Rightarrow> sent_message list \<times> bool) \<Rightarrow> nat list \<Rightarrow> sent_message list \<times> bool" where
  "announce_attempts attempt_once [] = ([], True)"
| "announce_attempts attempt_once (a # as) =
     (case attempt_once a of
        (out, False) \<Rightarrow> (out, False)
      | (out, True) \<Rightarrow> if out \<noteq> [] then (out, False) else announce_attempts attempt_once as)"

definition announce_startup_once ::
    "(DiscoveryAnnounce \<Rightarrow> string + bytes) \<Rightarrow> (nat \<Rightarrow> u32 option \<Rightarrow> bool) \<Rightarrow> (nat \<Rightarrow> u32 option \<Rightarrow> bytes \<Rightarrow> bool)
      \<Rightarrow> string \<Rightarrow> string \<Rightarrow> u16 \<Rightarrow> u16 \<Rightarrow> u32 \<Rightarrow> u32 list \<Rightarrow> sent_message list \<times> bool" where
  "announce_startup_once to_vec socket_ok send_ok hostname ip udp tcp retry_limit outbound =
     announce_attempts (\<lambda>attempt. announce_on to_vec socket_ok send_ok hostname ip udp tcp attempt
       (announce_interfaces outbound)) [1 ..< Suc (unat retry_limit)]"

text \<open>The answer of the discovery loop to one received datagram.\<close>

definition discovery_answer ::
    "(bytes \<Rightarrow> string + DiscoveryQuery) \<Rightarrow> (DiscoveryAnnounce \<Rightarrow> string + bytes)
      \<Rightarrow> string \<Rightarrow> string \<Rightarrow> u16 \<Rightarrow> u16 \<Rightarrow> bytes \<Rightarrow> bytes option" where
  "discovery_answer query_from_slice to_vec hostname ip udp tcp datagram =
     (case query_from_slice datagram of
        Err _ \<Rightarrow> None
      | Ok _ \<Rightarrow> result_ok (to_vec (discovery_announce hostname ip udp tcp)))"

text \<open>The discovery loop: the socket, the joining of the group on the interfaces (an IPv6 group is not
  joined), then one answer per readable query, to its sender. A received datagram is cut to
  the buffer of 2048 bytes; an event \<open>None\<close> is a failed receive.\<close>

definition discovery_join :: "(u32 \<Rightarrow> u32 \<Rightarrow> bool) \<Rightarrow> SocketAddr \<Rightarrow> u32 list \<Rightarrow> bool" where
  "discovery_join join_ok multicast outbound =
     (case multicast of
        V4 grp _ \<Rightarrow> (\<exists>i \<in> set (if outbound = [] then [0] else outbound). join_ok grp i)
      | _ \<Rightarrow> True)"

fun discovery_answers ::
    "(bytes \<Rightarrow> bytes option) \<Rightarrow> (bytes \<times> SocketAddr) option list \<Rightarrow> (bytes \<times> SocketAddr) list" where
  "discovery_answers answer [] = []"
| "discovery_answers answer (None # evs) = discovery_answers answer evs"
| "discovery_answers answer (Some (d, src) # evs) =
     (case answer (take 2048 d) of
        Some msg \<Rightarrow> (msg, src) # discovery_answers answer evs
      | None \<Rightarrow> discovery_answers answer evs)"

definition discovery_query_loop ::
    "bool \<Rightarrow> (u32 \<Rightarrow> u32 \<Rightarrow> bool) \<Rightarrow> (bytes \<Rightarrow> string + DiscoveryQuery) \<Rightarrow> (DiscoveryAnnounce \<Rightarrow> string + bytes)
      \<Rightarrow> SocketAddr \<Rightarrow> string \<Rightarrow> string \<Rightarrow> u16 \<Rightarrow> u16 \<Rightarrow> u32 list \<Rightarrow> (bytes \<times> SocketAddr) option list
      \<Rightarrow> (bytes \<times> SocketAddr) list" where
  "discovery_query_loop socket_ok join_ok query_from_slice to_vec multicast hostname ip udp tcp outbound events =
     (if \<not> socket_ok then []
      else if \<not> discovery_join join_ok multicast outbound then []
      else discovery_answers (discovery_answer query_from_slice to_vec hostname ip udp tcp) events)"

section \<open>Start-up as a whole\<close>

text \<open>\<open>local_addr\<close> is the address of a socket connected to a public address, if that worked.\<close>

definition infer_local_ip :: "bool \<Rightarrow> bool \<Rightarrow> string option \<Rightarrow> string" where
  "infer_local_ip bind_ok connect_ok local_addr =
     (if \<not> bind_ok then ''127.0.0.1''
      else if connect_ok then (case local_addr of Some a \<Rightarrow> a | None \<Rightarrow> ''127.0.0.1'')
      else ''127.0.0.1'')"

definition local_ip :: "u32 list \<Rightarrow> string \<Rightarrow> string" where
  "local_ip outbound inferred = (case outbound of ip # _ \<Rightarrow> ipv4_to_string ip | [] \<Rightarrow> inferred)"

text \<open>What the environment contributes to a start: files, variables, the resolver, the free ports
  at the two searches and the NVML library.\<close>

record 'd startup_env =
  en_var :: "string \<Rightarrow> string option"
  en_read_to_string :: "string \<Rightarrow> string + string"
  en_from_toml :: "string \<Rightarrow> string + Config"
  en_resolve :: "string \<Rightarrow> string + SocketAddr list"
  en_udp_ok :: "u16 \<Rightarrow> bool"
  en_tcp_ok :: "u16 \<Rightarrow> bool"
  en_nanos :: "nat \<times> nat"
  en_nvml_init :: "string option \<Rightarrow> string + 'd nvml"

text \<open>What \<open>run\<close> hands to \<open>start_runtime_loops\<close>.\<close>

record 'd runtime_loops =
  rl_udp_port :: u16
  rl_tcp_port :: u16
  rl_multicast :: SocketAddr
  rl_hostname :: string
  rl_collector :: "string \<times> 'd nvml"
  rl_cache :: GresCache
  rl_ttl_ms :: u64
  rl_collector_interval_ms :: u64
  rl_multicast_retry_limit :: u32
  rl_connection_idle_timeout :: u64
  rl_multicast_outbound_ip :: "u32 list"
  rl_udp_mtu :: u16

definition run_server :: "'d startup_env \<Rightarrow> StartupError + 'd runtime_loops" where
  "run_server env =
     and_then (load_config (en_read_to_string env) (en_from_toml env) (en_resolve env)
       (get_config_path (en_var env))) (\<lambda>config.
     let c = cf_connecting config in
     and_then (validate_multicast_addr (en_resolve env) (cc_multicast_addr c)) (\<lambda>multicast.
     and_then (validate_multicast_outbound_ips (cc_multicast_outbound_ip c)) (\<lambda>outbound.
     and_then (pick_ports (en_udp_ok env) (en_tcp_ok env) (fst (en_nanos env)) (snd (en_nanos env)) c) (\<lambda>(udp, tcp).
     let hostname = detect_hostname (en_var env) (\<lambda>p. result_ok (en_read_to_string env p)) in
     and_then (build_collector (en_var env) (en_nvml_init env) hostname config) (\<lambda>(collector, degraded, mode).
     Ok \<lparr>rl_udp_port = udp, rl_tcp_port = tcp, rl_multicast = multicast, rl_hostname = hostname,
       rl_collector = collector, rl_cache = gres_cache_new, rl_ttl_ms = sv_cache_ttl_ms (cf_services config),
       rl_collector_interval_ms = sv_collector_interval_ms (cf_services config),
       rl_multicast_retry_limit = cc_multicast_retry_limit c,
       rl_connection_idle_timeout = cc_connection_idle_timeout c,
       rl_multicast_outbound_ip = outbound, rl_udp_mtu = cc_udp_mtu c\<rparr>)))))"

text \<open>How long the background refresh sleeps after an iteration, in nanoseconds.\<close>

definition refresh_pause :: "u64 \<Rightarrow> nat \<Rightarrow> nat" where
  "refresh_pause collector_interval_ms elapsed =
     (let interval = unat (max collector_interval_ms 1) * 1000000
      in if elapsed < interval then interval - elapsed else 0)"

section \<open>Accepted configurations\<close>

lemma config_error_not_Ok [simp]: "config_error m \<noteq> Ok x"
  by (simp add: config_error_def)

definition config_ok :: "(string \<Rightarrow> string + SocketAddr list) \<Rightarrow> Config \<Rightarrow> bool" where
  "config_ok resolve cfg \<longleftrightarrow>
     (let c = cf_connecting cfg; s = cf_services cfg in
      0 < fst (cc_port_range c) \<and> fst (cc_port_range c) \<le> snd (cc_port_range c)
      \<and> (\<exists>a as. resolve (cc_multicast_addr c) = Ok (a # as) \<and> is_multicast a)
      \<and> to_ascii_lowercase (trim (cc_protocol c)) \<in> {''udp'', ''tcp''}
      \<and> sv_cache_ttl_ms s > 0 \<and> sv_collector_interval_ms s > 0
      \<and> cc_heartbeat_interval c > 0 \<and> cc_connection_idle_timeout c > 0
      \<and> (word_of_nat (cc_max_connections c) :: u64) > 0 \<and> cc_discover_wait_secs c > 0
      \<and> cc_multicast_retry_limit c > 0
      \<and> (\<forall>i \<in> set (cc_multicast_outbound_ip c). trim i = [] \<or> parse_ipv4 (trim i) \<noteq> None)
      \<and> (\<exists>n. parse_log_size_bytes (lc_max_size (cf_log cfg)) = Ok n))"

lemma validate_port_range_iff:
  "validate_port_range r = Ok () \<longleftrightarrow> 0 < fst r \<and> fst r \<le> snd r"
  by (auto simp: validate_port_range_def not_less word_gt_0)

lemma validate_positive_iff: "validate_positive n v = Ok () \<longleftrightarrow> 0 < v"
  by (simp add: validate_positive_def word_gt_0)

lemma validate_protocol_iff:
  "validate_protocol p = Ok () \<longleftrightarrow> to_ascii_lowercase (trim p) \<in> {''udp'', ''tcp''}"
  by (simp add: validate_protocol_def Let_def)

lemma validate_multicast_iff:
  "validate_multicast_addr resolve raw = Ok a \<longleftrightarrow> (\<exists>as. resolve raw = Ok (a # as) \<and> is_multicast a)"
  by (auto simp: validate_multicast_addr_def Let_def split: sum.splits list.splits)

lemma collect_results_Ok_iff:
  "(\<exists>xs. collect_results rs = Ok xs) \<longleftrightarrow> (\<forall>r \<in> set rs. \<exists>x. r = Ok x)"
  by (induction rs) (auto simp: result_simps)

lemma validate_outbound_iff:
  "(\<exists>ips. validate_multicast_outbound_ips raw = Ok ips) \<longleftrightarrow>
     (\<forall>i \<in> set raw. trim i = [] \<or> parse_ipv4 (trim i) \<noteq> None)"
  by (auto simp: validate_multicast_outbound_ips_def collect_results_Ok_iff parse_outbound_ip_def
      config_error_def split: option.splits)

lemma validate_config_iff: "validate_config resolve cfg = Ok () \<longleftrightarrow> config_ok resolve cfg"
proof -
  have retry: "(0 :: u64) < ucast (x :: u32) \<longleftrightarrow> 0 < x" for x
    by (simp add: word_less_nat_alt unsigned_ucast_eq take_bit_nat_eq_self
        order.strict_trans2 [OF unsigned_less])
  show ?thesis
    unfolding config_ok_def Let_def validate_outbound_iff [symmetric]
    by (auto simp: validate_config_def Let_def and_then_Ok_iff validate_port_range_iff
        validate_positive_iff validate_protocol_iff validate_multicast_iff retry)
qed

definition startup_codes :: "ErrorCode set" where
  "startup_codes = {ConfigInvalid, MulticastFailed}"

lemma config_error_Err_iff: "config_error m = Err e \<longleftrightarrow> e = startup_error ConfigInvalid m"
  by (auto simp: config_error_def)

lemma startup_error_code [simp]: "se_code (startup_error c m) = c"
  by (simp add: startup_error_def)

lemmas validate_defs = validate_port_range_def validate_positive_def validate_protocol_def
  validate_multicast_addr_def parse_outbound_ip_def parse_log_size_bytes_def

lemma collect_results_Err: "collect_results rs = Err e \<Longrightarrow> \<exists>r \<in> set rs. r = Err e"
  by (induction rs) (auto simp: result_simps)

lemma validate_codes:
  "validate_port_range r = Err e \<Longrightarrow> se_code e \<in> startup_codes"
  "validate_positive n v = Err e \<Longrightarrow> se_code e \<in> startup_codes"
  "validate_protocol p = Err e \<Longrightarrow> se_code e \<in> startup_codes"
  "validate_multicast_addr resolve a = Err e \<Longrightarrow> se_code e \<in> startup_codes"
  "parse_log_size_bytes p = Err e \<Longrightarrow> se_code e \<in> startup_codes"
  "parse_outbound_ip p = Err e \<Longrightarrow> se_code e \<in> startup_codes"
  by (auto simp: validate_defs Let_def config_error_Err_iff startup_codes_def
      split: if_splits option.splits sum.splits list.splits)

lemma validate_outbound_code:
  "validate_multicast_outbound_ips raw = Err e \<Longrightarrow> se_code e \<in> startup_codes"
  unfolding validate_multicast_outbound_ips_def by (drule collect_results_Err) (auto dest: validate_codes sym [of "Err _"])

lemma validate_config_code: "validate_config resolve cfg = Err e \<Longrightarrow> se_code e \<in> startup_codes"
  by (auto simp: validate_config_def Let_def and_then_Err_iff
      dest: validate_codes validate_outbound_code)

section \<open>Log sizes\<close>

lemma takeWhile_digits:
  "list_all is_ascii_digit d \<Longrightarrow> u = [] \<or> \<not> is_ascii_digit (hd u) \<Longrightarrow>
     takeWhile is_ascii_digit (d @ u) = d \<and> dropWhile is_ascii_digit (d @ u) = u"
  by (induction d) (auto simp: takeWhile_eq_Nil_iff dropWhile_eq_self_iff)

definition letters :: "string \<Rightarrow> bool" where
  "letters u \<longleftrightarrow> list_all (\<lambda>c. ws_free c \<and> \<not> is_ascii_digit c) u"

lemma parse_log_size_value:
  assumes n: "0 < n" "n < 2 ^ 64" and u: "letters u" "unit_multiplier (to_ascii_lowercase u) = Some m"
  shows "parse_log_size_bytes (nat_to_string n @ u) =
    (if n * unat m < 2 ^ 64 then Ok (word_of_nat n * m)
     else config_error (''invalid log.max_size '' @ quote (nat_to_string n @ u) @ '': value too large''))"
proof -
  let ?s = "nat_to_string n @ u"
  have d: "list_all is_ascii_digit (nat_to_string n)" by (rule nat_to_string_digits)
  have ends: "ws_free (hd ?s)" "ws_free (last ?s)"
    using d u(1) digit_ws_free by (auto simp: list_all_iff letters_def hd_append last_append)
  then have t: "trim ?s = ?s" by (intro trim_same) simp_all
  have tu: "trim u = u"
    using u(1) by (cases "u = []") (auto intro!: trim_same simp: letters_def list_all_iff)
  have tw: "takeWhile is_ascii_digit ?s = nat_to_string n" "dropWhile is_ascii_digit ?s = u"
    using takeWhile_digits [OF d, of u] u(1) by (cases u; auto simp: letters_def)+
  show ?thesis
    using n u(2) by (simp add: parse_log_size_bytes_def t tw tu Let_def parse_nat_to_string not_less)
qed

lemma parse_log_size_unat:
  assumes "n * unat (m :: u64) < 2 ^ 64" "0 < unat m"
  shows "unat (word_of_nat n * m) = n * unat m"
proof -
  have "n \<le> n * unat m" using assms(2) by simp
  with assms have "n < 2 ^ 64" by linarith
  with assms show ?thesis by (simp add: unat_word_ariths unat_word_of_length)
qed

section \<open>Port selection\<close>

lemma rotate_index_le: "i \<le> j \<Longrightarrow> j < n \<Longrightarrow> (k + i) mod n = (k + j) mod n \<Longrightarrow> i = (j :: nat)"
proof -
  assume "i \<le> j" "j < n" "(k + i) mod n = (k + j) mod n"
  then have "n dvd (k + j) - (k + i)" using mod_eq_dvd_iff_nat [of "k + i" "k + j" n] by simp
  then have "n dvd j - i" by simp
  with \<open>j < n\<close> have "j - i = 0" by (meson dvd_imp_le less_imp_diff_less not_less not_gr_zero)
  with \<open>i \<le> j\<close> show ?thesis by simp
qed

lemma rotate_index_inj: "inj_on (\<lambda>i. (k + i) mod n) {0 ..< n :: nat}"
  using rotate_index_le by (intro inj_onI) (metis atLeastLessThan_iff nat_le_linear)

lemma port_candidates_unat:
  assumes "fst r \<le> snd r"
  shows "map unat (port_candidates nanos r) =
    map (\<lambda>i. unat (fst r) + (nanos mod Suc (unat (snd r) - unat (fst r)) + i) mod Suc (unat (snd r) - unat (fst r)))
      [0 ..< Suc (unat (snd r) - unat (fst r))]"
proof -
  let ?n = "Suc (unat (snd r) - unat (fst r))"
  have le: "unat (fst r) \<le> unat (snd r)" using assms by (simp add: word_le_nat_alt)
  have count: "unat (snd r - fst r) = unat (snd r) - unat (fst r)"
    using le by (simp add: unat_sub_if')
  have top: "unat (snd r) < 65536" using unsigned_less [of "snd r"] by simp
  have v: "unat (fst r + word_of_nat (k mod ?n)) = unat (fst r) + k mod ?n" for k
  proof -
    have "k mod ?n < ?n" by (rule mod_less_divisor) simp
    then have "unat (fst r) + k mod ?n < 65536" using le top by linarith
    then show ?thesis by (simp add: unat_word_ariths unat_of_nat take_bit_nat_eq_self)
  qed
  show ?thesis by (simp add: port_candidates_def Let_def count v comp_def del: upt_Suc)
qed

lemma port_candidates_distinct_unat:
  assumes r: "fst r \<le> snd r"
  shows "distinct (map unat (port_candidates nanos r))"
proof -
  define n where "n = Suc (unat (snd r) - unat (fst r))"
  define k where "k = nanos mod n"
  have "inj_on (\<lambda>i. unat (fst r) + (k + i) mod n) (set [0 ..< n])"
  proof (rule inj_onI)
    fix i j
    assume "i \<in> set [0 ..< n]" "j \<in> set [0 ..< n]"
      and "unat (fst r) + (k + i) mod n = unat (fst r) + (k + j) mod n"
    then show "i = j"
      using inj_onD [OF rotate_index_inj, of k i n j] add_left_imp_eq by (metis set_upt)
  qed
  then have "distinct (map (\<lambda>i. unat (fst r) + (k + i) mod n) [0 ..< n])"
    by (simp only: distinct_map distinct_upt simp_thms)
  then show ?thesis by (simp only: port_candidates_unat [OF r] k_def n_def)
qed

lemma port_candidates_distinct: "fst r \<le> snd r \<Longrightarrow> distinct (port_candidates nanos r)"
  using port_candidates_distinct_unat [of r nanos] by (simp only: distinct_map)

lemma port_candidates_set:
  assumes "fst r \<le> snd r"
  shows "set (port_candidates nanos r) = {fst r .. snd r}"
proof -
  let ?n = "Suc (unat (snd r) - unat (fst r))" and ?P = "port_candidates nanos r"
  have le: "unat (fst r) \<le> unat (snd r)" using assms by (simp add: word_le_nat_alt)
  have sub: "unat ` set ?P \<subseteq> {unat (fst r) .. unat (snd r)}"
  proof
    fix x
    assume "x \<in> unat ` set ?P"
    then have "x \<in> set (map unat ?P)" by simp
    then obtain k where "x = unat (fst r) + k mod ?n"
      unfolding port_candidates_unat [OF assms] by auto
    moreover have "k mod ?n < ?n" by (rule mod_less_divisor) simp
    ultimately show "x \<in> {unat (fst r) .. unat (snd r)}"
      using le by (simp only: atLeastAtMost_iff) linarith
  qed
  have "card (unat ` set ?P) = length (map unat ?P)"
    using distinct_card [OF port_candidates_distinct_unat [OF assms, of nanos]] by simp
  also have "\<dots> = card {unat (fst r) .. unat (snd r)}"
    unfolding port_candidates_unat [OF assms] using le by simp
  finally have eq: "unat ` set ?P = {unat (fst r) .. unat (snd r)}"
    using sub by (simp add: card_subset_eq)
  show ?thesis
  proof (intro set_eqI)
    fix p
    have "p \<in> set ?P \<longleftrightarrow> unat p \<in> unat ` set ?P"
    proof
      assume "unat p \<in> unat ` set ?P"
      then obtain q where "q \<in> set ?P" "unat p = unat q" by (rule imageE)
      from this(2) have "p = q" by (simp only: word_unat_eq_iff)
      with \<open>q \<in> set ?P\<close> show "p \<in> set ?P" by simp
    qed (rule imageI)
    then show "p \<in> set ?P \<longleftrightarrow> p \<in> {fst r .. snd r}" by (simp add: eq word_le_nat_alt)
  qed
qed

lemma first_free_Some: "first_free ok ex ps = Some p \<Longrightarrow> p \<in> set ps \<and> ok p \<and> Some p \<noteq> ex"
  by (induction ps) (auto split: if_splits)

lemma first_free_None: "first_free ok ex ps = None \<longleftrightarrow> (\<forall>p \<in> set ps. Some p \<noteq> ex \<longrightarrow> \<not> ok p)"
  by (induction ps) auto

definition eligible :: "(u16 \<Rightarrow> bool) \<Rightarrow> u16 \<times> u16 \<Rightarrow> u16 \<Rightarrow> u16 option \<Rightarrow> u16 \<Rightarrow> bool" where
  "eligible ok rg requested exclude p \<longleftrightarrow> ok p \<and> Some p \<noteq> exclude
     \<and> (if requested = 0 then fst rg \<le> p \<and> p \<le> snd rg else p = requested)"

lemma pick_udp_spec:
  assumes "fst rg \<le> snd rg"
  shows "(\<forall>p. pick_udp_port_excluding ok nanos rg req ex = Ok p \<longrightarrow> eligible ok rg req ex p)
    \<and> ((\<exists>p. pick_udp_port_excluding ok nanos rg req ex = Ok p) \<longleftrightarrow> (\<exists>p. eligible ok rg req ex p))"
  using port_candidates_set [OF assms, of nanos] first_free_None [of ok ex "port_candidates nanos rg"]
  by (auto simp: pick_udp_port_excluding_def eligible_def split: option.splits dest: first_free_Some)

lemma pick_tcp_spec:
  assumes "fst rg \<le> snd rg"
  shows "(\<forall>p. pick_tcp_port ok nanos rg req ex = Ok p \<longrightarrow> eligible ok rg req ex p)
    \<and> ((\<exists>p. pick_tcp_port ok nanos rg req ex = Ok p) \<longleftrightarrow> (\<exists>p. eligible ok rg req ex p))"
  using port_candidates_set [OF assms, of nanos] first_free_None [of ok ex "port_candidates nanos rg"]
  by (auto simp: pick_tcp_port_def eligible_def split: option.splits dest: first_free_Some)


lemma pick_udp_code: "pick_udp_port_excluding ok nanos rg req ex = Err e \<Longrightarrow> se_code e = PortExhausted"
  by (auto simp: pick_udp_port_excluding_def split: if_splits option.splits)

lemma pick_tcp_code: "pick_tcp_port ok nanos rg req ex = Err e \<Longrightarrow> se_code e = PortExhausted"
  by (auto simp: pick_tcp_port_def split: if_splits option.splits)

lemma pick_ports_eligible:
  assumes "validate_port_range (cc_port_range c) = Ok ()" "pick_ports udp_ok tcp_ok nanos nanos' c = Ok (u, t)"
  shows "u \<noteq> t \<and> eligible udp_ok (cc_port_range c) (cc_udp_port c) None u
    \<and> eligible tcp_ok (cc_port_range c) (cc_tcp_port c) (Some u) t"
proof -
  have le: "fst (cc_port_range c) \<le> snd (cc_port_range c)" using assms by (simp add: validate_port_range_iff)
  from assms(2) have "pick_udp_port udp_ok nanos (cc_port_range c) (cc_udp_port c) = Ok u"
    "pick_tcp_port tcp_ok nanos' (cc_port_range c) (cc_tcp_port c) (Some u) = Ok t"
    by (auto simp: pick_ports_def and_then_Ok_iff)
  then have "eligible udp_ok (cc_port_range c) (cc_udp_port c) None u"
    "eligible tcp_ok (cc_port_range c) (cc_tcp_port c) (Some u) t"
    using pick_udp_spec [OF le] pick_tcp_spec [OF le] by (auto simp: pick_udp_port_def)
  then show ?thesis by (auto simp: eligible_def)
qed

section \<open>The announcement\<close>

definition announced ::
    "(DiscoveryAnnounce \<Rightarrow> string + bytes) \<Rightarrow> string \<Rightarrow> string \<Rightarrow> u16 \<Rightarrow> u16 \<Rightarrow> u32 option \<Rightarrow> string + bytes" where
  "announced to_vec hostname ip udp tcp i = to_vec (discovery_announce hostname (announce_ip ip i) udp tcp)"

definition delivered ::
    "(DiscoveryAnnounce \<Rightarrow> string + bytes) \<Rightarrow> (nat \<Rightarrow> u32 option \<Rightarrow> bool) \<Rightarrow> (nat \<Rightarrow> u32 option \<Rightarrow> bytes \<Rightarrow> bool)
      \<Rightarrow> string \<Rightarrow> string \<Rightarrow> u16 \<Rightarrow> u16 \<Rightarrow> nat \<Rightarrow> u32 option \<Rightarrow> bytes \<Rightarrow> bool" where
  "delivered to_vec socket_ok send_ok hostname ip udp tcp a i msg \<longleftrightarrow>
     announced to_vec hostname ip udp tcp i = Ok msg \<and> socket_ok a i \<and> send_ok a i msg"

lemma announce_on_encodable:
  assumes "\<forall>i \<in> set is. \<exists>msg. announced to_vec hostname ip udp tcp i = Ok msg"
  shows "snd (announce_on to_vec socket_ok send_ok hostname ip udp tcp a is)
    \<and> set (fst (announce_on to_vec socket_ok send_ok hostname ip udp tcp a is)) =
        {(a, i, msg) | i msg. i \<in> set is \<and> delivered to_vec socket_ok send_ok hostname ip udp tcp a i msg}"
  using assms
  by (induction "is") (auto simp: delivered_def announced_def split: prod.splits if_splits)

lemma announce_attempts_spec:
  assumes "\<And>a. snd (once a)"
  shows "announce_attempts once as =
    (case dropWhile (\<lambda>a. fst (once a) = []) as of [] \<Rightarrow> ([], True) | a # _ \<Rightarrow> (fst (once a), False))"
  using assms by (induction as) (auto split: prod.splits bool.splits, metis snd_conv)

lemma dropWhile_upt_first:
  assumes "dropWhile P [m ..< n] = a # rest"
  shows "m \<le> a \<and> a < n \<and> \<not> P a \<and> (\<forall>b. m \<le> b \<and> b < a \<longrightarrow> P b)"
  using assms
proof (induction "n - m" arbitrary: m)
  case (Suc k)
  then have m: "m < n" by simp
  have up: "[m ..< n] = m # [Suc m ..< n]" using m by (rule upt_conv_Cons)
  show ?case
  proof (cases "P m")
    case True
    then have "Suc m \<le> a \<and> a < n \<and> \<not> P a \<and> (\<forall>b. Suc m \<le> b \<and> b < a \<longrightarrow> P b)"
      using Suc up m by (intro Suc.hyps(1)) simp_all
    with True show ?thesis by (metis Suc_leD Suc_leI le_neq_implies_less)
  next
    case False
    then show ?thesis using Suc.prems up m by auto
  qed
qed simp

definition sample_connecting :: ConnectingConfig where
  "sample_connecting = \<lparr>cc_port_range = (10, 12), cc_multicast_addr = ''239.0.0.1:4000'', cc_tcp_port = 0,
     cc_udp_port = 0, cc_udp_mtu = 0, cc_protocol = ''udp'', cc_heartbeat_interval = 5,
     cc_connection_idle_timeout = 10, cc_max_connections = 64, cc_discover_wait_secs = 5,
     cc_multicast_retry_limit = 5, cc_multicast_outbound_ip = []\<rparr>"

definition sample_config :: Config where
  "sample_config = \<lparr>cf_connecting = sample_connecting, cf_log = \<lparr>lc_max_size = ''5mb''\<rparr>,
     cf_services = \<lparr>sv_cache_ttl_ms = 40, sv_collector_interval_ms = 25, sv_latency_display = True, sv_uds_path = None\<rparr>,
     cf_runtime = \<lparr>rc_nvml_lib_path = None, rc_test_inventory_path = None, rc_test_runtime_path = None,
       rc_test_inventory_reload = False\<rparr>\<rparr>"

definition sample_env :: "unit startup_env" where
  "sample_env = \<lparr>en_var = (\<lambda>_. None), en_read_to_string = (\<lambda>_. Ok ''...''),
     en_from_toml = (\<lambda>_. Ok sample_config),
     en_resolve = (\<lambda>_. Ok [V4 4009754625 4000]), en_udp_ok = (\<lambda>_. True), en_tcp_ok = (\<lambda>_. True),
     en_nanos = (0, 0), en_nvml_init = (\<lambda>_. Ok one_device)\<rparr>"

section \<open>Properties\<close>

text \<open>The server starts with exactly the configurations that can be read and parsed and
  that are sound: a non-empty port range, a multicast group that resolves to a multicast
  address, a known protocol, positive intervals and limits, well-formed outbound
  addresses and a readable log size. Every rejection carries \<open>ConfigInvalid\<close>, or
  \<open>MulticastFailed\<close> for the multicast group.\<close>

theorem load_config_exact:
  "(load_config read_to_string from_toml resolve path = Ok cfg \<longleftrightarrow>
      (\<exists>raw. read_to_string path = Ok raw \<and> from_toml raw = Ok cfg \<and> config_ok resolve cfg))
   \<and> (case load_config read_to_string from_toml resolve path of
        Ok c \<Rightarrow> True | Err e \<Rightarrow> se_code e \<in> startup_codes)"
proof
  show "load_config read_to_string from_toml resolve path = Ok cfg \<longleftrightarrow>
      (\<exists>raw. read_to_string path = Ok raw \<and> from_toml raw = Ok cfg \<and> config_ok resolve cfg)"
    by (auto simp: load_config_def and_then_Ok_iff map_err_Ok_iff validate_config_iff)
next
  show "case load_config read_to_string from_toml resolve path of
        Ok c \<Rightarrow> True | Err e \<Rightarrow> se_code e \<in> startup_codes"
    by (auto simp: load_config_def and_then_Err_iff map_err_Err_iff startup_codes_def [symmetric]
        dest: validate_config_code split: sum.splits)
      (simp_all add: startup_codes_def)
qed

text \<open>A log size written as a number and a unit is read as that many bytes whenever the
  product fits 64 bits, and is refused as too large, never wrapped around, when it does not.\<close>

theorem log_size_exact:
  assumes "0 < n" "n < 2 ^ 64" "letters u" "unit_multiplier (to_ascii_lowercase u) = Some m"
  shows "(n * unat m < 2 ^ 64 \<longrightarrow> (\<exists>w. parse_log_size_bytes (nat_to_string n @ u) = Ok w \<and> unat w = n * unat m))
    \<and> (n * unat m \<ge> 2 ^ 64 \<longrightarrow> (\<exists>e. parse_log_size_bytes (nat_to_string n @ u) = Err e \<and> se_code e = ConfigInvalid))"
  using parse_log_size_value [OF assms] parse_log_size_unat [of n m] assms(4)
  by (auto simp: config_error_def startup_error_def unit_multiplier_def split: if_splits)

theorem log_size_exact_witness:
  "\<exists>w. parse_log_size_bytes ''5mb'' = Ok w \<and> unat w = 5 * (1024 * 1024)"
proof -
  have "letters ''mb''" "unit_multiplier (to_ascii_lowercase ''mb'') = Some (1024 * 1024)"
    "nat_to_string 5 @ ''mb'' = ''5mb''" by code_simp+
  then show ?thesis using log_size_exact [of 5 "''mb''" "1024 * 1024"] by simp
qed

text \<open>On a valid port range the two ports the server announces are different, free and,
  unless configured, in the range; the search fails only when there is no free port at all,
  or when no TCP port is free beside the UDP port chosen, and then the error is \<open>PortExhausted\<close>.\<close>

theorem pick_ports_spec:
  assumes "validate_port_range (cc_port_range c) = Ok ()"
  shows "case pick_ports udp_ok tcp_ok nanos nanos' c of
      Ok (u, t) \<Rightarrow> u \<noteq> t \<and> eligible udp_ok (cc_port_range c) (cc_udp_port c) None u
        \<and> eligible tcp_ok (cc_port_range c) (cc_tcp_port c) (Some u) t
    | Err e \<Rightarrow> se_code e = PortExhausted
        \<and> ((\<nexists>u. eligible udp_ok (cc_port_range c) (cc_udp_port c) None u)
           \<or> (\<exists>u. pick_udp_port udp_ok nanos (cc_port_range c) (cc_udp_port c) = Ok u
                \<and> (\<nexists>t. eligible tcp_ok (cc_port_range c) (cc_tcp_port c) (Some u) t)))"
proof -
  have le: "fst (cc_port_range c) \<le> snd (cc_port_range c)" using assms by (simp add: validate_port_range_iff)
  note udp = pick_udp_spec [OF le, of udp_ok nanos "cc_udp_port c" None, folded pick_udp_port_def]
  note tcp = pick_tcp_spec [OF le, of tcp_ok nanos' "cc_tcp_port c"]
  show ?thesis
  proof (cases "pick_udp_port udp_ok nanos (cc_port_range c) (cc_udp_port c)")
    case (Inl e)
    then show ?thesis using udp by (auto simp: pick_ports_def pick_udp_port_def dest: pick_udp_code)
  next
    case (Inr u)
    then show ?thesis using udp tcp [of "Some u"]
      by (cases "pick_tcp_port tcp_ok nanos' (cc_port_range c) (cc_tcp_port c) (Some u)")
        (auto simp: pick_ports_def eligible_def dest: pick_tcp_code)
  qed
qed

theorem pick_ports_spec_witness:
  "validate_port_range (cc_port_range sample_connecting) = Ok ()
     \<and> pick_ports (\<lambda>p. p \<noteq> 10) (\<lambda>_. True) 0 0 sample_connecting = Ok (11, 10)
     \<and> eligible (\<lambda>p. p \<noteq> 10) (10, 12) 0 None 11 \<and> eligible (\<lambda>_. True) (10, 12) 0 (Some 11) 10"
proof -
  have v: "validate_port_range (cc_port_range sample_connecting) = Ok ()"
    by (simp add: validate_port_range_def sample_connecting_def)
  moreover have "pick_ports (\<lambda>p. p \<noteq> 10) (\<lambda>_. True) 0 0 sample_connecting = Ok (11, 10)"
    by code_simp
  ultimately show ?thesis
    using pick_ports_spec [OF v, where udp_ok = "\<lambda>p. p \<noteq> 10" and tcp_ok = "\<lambda>_. True" and nanos = 0 and nanos' = 0]
    by (simp add: sample_connecting_def)
qed

text \<open>When the announcement can be encoded, the start-up announcer sends in one attempt only,
  the first in which some interface works, and there to exactly the interfaces that work;
  it reports that the retry limit was reached exactly when every interface failed in
  every attempt up to the limit.\<close>

theorem announce_startup_exact:
  fixes to_vec socket_ok send_ok hostname ip udp tcp limit outbound
  defines "ok \<equiv> delivered to_vec socket_ok send_ok hostname ip udp tcp"
    and "ifs \<equiv> set (announce_interfaces outbound)"
    and "r \<equiv> announce_startup_once to_vec socket_ok send_ok hostname ip udp tcp limit outbound"
  assumes "\<forall>i \<in> ifs. \<exists>msg. announced to_vec hostname ip udp tcp i = Ok msg"
  shows "if snd r then fst r = [] \<and> (\<forall>a i msg. 1 \<le> a \<and> a \<le> unat limit \<and> i \<in> ifs \<longrightarrow> \<not> ok a i msg)
    else \<exists>a. 1 \<le> a \<and> a \<le> unat limit \<and> fst r \<noteq> [] \<and> set (fst r) = {(a, i, msg) | i msg. i \<in> ifs \<and> ok a i msg}
      \<and> (\<forall>b i msg. 1 \<le> b \<and> b < a \<and> i \<in> ifs \<longrightarrow> \<not> ok b i msg)"
proof -
  define once where "once a = announce_on to_vec socket_ok send_ok hostname ip udp tcp a (announce_interfaces outbound)" for a
  have on: "snd (once a)" "set (fst (once a)) = {(a, i, msg) | i msg. i \<in> ifs \<and> ok a i msg}" for a
    using announce_on_encodable assms(4) unfolding once_def ok_def ifs_def by blast+
  have empty: "fst (once a) = [] \<longleftrightarrow> (\<forall>i msg. i \<in> ifs \<longrightarrow> \<not> ok a i msg)" for a
    using on(2) [of a] by (auto simp flip: set_empty)
  define first where "first = dropWhile (\<lambda>a. fst (once a) = []) [1 ..< Suc (unat limit)]"
  have r: "r = (case first of [] \<Rightarrow> ([], True) | a # _ \<Rightarrow> (fst (once a), False))"
    unfolding r_def first_def announce_startup_once_def once_def [symmetric]
    by (rule announce_attempts_spec) (rule on)
  show ?thesis
  proof (cases first)
    case Nil
    then have "fst (once a) = []" if "1 \<le> a" "a \<le> unat limit" for a
      using that unfolding first_def dropWhile_eq_Nil_conv by (simp add: less_Suc_eq_le del: upt_Suc)
    then show ?thesis by (simp add: r Nil empty)
  next
    case (Cons a rest)
    from dropWhile_upt_first [OF this [unfolded first_def]] show ?thesis
      by (simp add: r Cons on(2) empty less_Suc_eq_le) blast
  qed
qed

theorem announce_startup_exact_witness:
  "snd (announce_startup_once (\<lambda>_. Ok [1]) (\<lambda>a i. False) (\<lambda>a i m. True) ''n'' ''ip'' 1 2 5 [])
   \<and> fst (announce_startup_once (\<lambda>_. Ok [1]) (\<lambda>a i. False) (\<lambda>a i m. True) ''n'' ''ip'' 1 2 5 []) = []"
  using announce_startup_exact [where outbound = "[]" and to_vec = "\<lambda>_. Ok [1]" and hostname = "''n''" and ip = "''ip''"
      and udp = 1 and tcp = 2 and socket_ok = "\<lambda>a i. False" and send_ok = "\<lambda>a i m. True" and limit = 5]
  by (simp add: announced_def delivered_def split: if_splits)

text \<open>C23: A server that starts runs with a sound set of parameters: two different free ports (in the
  configured range unless fixed by the configuration), a multicast group address, positive
  time-to-live, refresh interval, idle timeout and retry limit, and an empty cache.\<close>

theorem run_server_sound:
  assumes "run_server env = Ok r"
  shows "rl_udp_port r \<noteq> rl_tcp_port r \<and> en_udp_ok env (rl_udp_port r) \<and> en_tcp_ok env (rl_tcp_port r)
    \<and> is_multicast (rl_multicast r) \<and> 0 < rl_ttl_ms r \<and> 0 < rl_collector_interval_ms r
    \<and> 0 < rl_connection_idle_timeout r \<and> 0 < rl_multicast_retry_limit r \<and> rl_cache r = gres_cache_new"
proof -
  from assms obtain cfg multicast outbound udp tcp coll mode d where
    cfg: "load_config (en_read_to_string env) (en_from_toml env) (en_resolve env) (get_config_path (en_var env)) = Ok cfg"
    and m: "validate_multicast_addr (en_resolve env) (cc_multicast_addr (cf_connecting cfg)) = Ok multicast"
    and p: "pick_ports (en_udp_ok env) (en_tcp_ok env) (fst (en_nanos env)) (snd (en_nanos env)) (cf_connecting cfg) = Ok (udp, tcp)"
    and r: "rl_udp_port r = udp" "rl_tcp_port r = tcp" "rl_multicast r = multicast" "rl_cache r = gres_cache_new"
      "rl_ttl_ms r = sv_cache_ttl_ms (cf_services cfg)" "rl_collector_interval_ms r = sv_collector_interval_ms (cf_services cfg)"
      "rl_multicast_retry_limit r = cc_multicast_retry_limit (cf_connecting cfg)"
      "rl_connection_idle_timeout r = cc_connection_idle_timeout (cf_connecting cfg)"
    by (auto simp: run_server_def and_then_Ok_iff Let_def split: prod.splits)
  have ok: "config_ok (en_resolve env) cfg"
    using cfg by (auto simp: load_config_def and_then_Ok_iff validate_config_iff)
  then have "validate_port_range (cc_port_range (cf_connecting cfg)) = Ok ()"
    by (simp add: validate_port_range_iff config_ok_def Let_def)
  note ports = pick_ports_eligible [OF this p]
  show ?thesis using ports ok m
    by (simp add: r eligible_def config_ok_def Let_def validate_multicast_iff)
qed

theorem run_server_sound_witness:
  "\<exists>r. run_server sample_env = Ok r \<and> rl_udp_port r \<noteq> rl_tcp_port r \<and> rl_cache r = gres_cache_new"
proof -
  have "letters ''mb''" "unit_multiplier (to_ascii_lowercase ''mb'') = Some (1024 * 1024)"
    and digits: "nat_to_string 5 @ ''mb'' = ''5mb''" by code_simp+
  from parse_log_size_value [of 5, OF _ _ this(1,2)]
  have log: "parse_log_size_bytes ''5mb'' = Ok 5242880" unfolding digits by simp
  have protocol: "to_ascii_lowercase (trim ''udp'') = ''udp''" by code_simp
  have ports: "pick_ports (\<lambda>_. True) (\<lambda>_. True) 0 0 sample_connecting = Ok (10, 11)" by code_simp
  have "config_ok (en_resolve sample_env) (sample_config)"
    by (simp add: log config_ok_def sample_env_def sample_config_def sample_connecting_def protocol is_multicast_def)
  then have "\<not> isl (run_server sample_env)"
    using ports
    by (simp add: run_server_def load_config_def validate_config_iff [symmetric] sample_env_def sample_config_def
        validate_multicast_addr_def is_multicast_def sample_connecting_def validate_multicast_outbound_ips_def
        build_collector_def nvml_collector_new_def simulate_nvml_missing_def env_truthy_def Let_def)
  then obtain r where r: "run_server sample_env = Ok r" by (cases "run_server sample_env") simp_all
  from run_server_sound [OF this] show ?thesis by (intro exI [of _ r] conjI r) simp_all
qed

end
