(* ===== verification/Rust_Text.thy ===== *)
theory Rust_Text
  imports Net_Addr Snapshots
begin

text \<open>
  More of Rust's standard library, as the client uses it: substring search, \<open>split_once\<close>,
  UTF-8 validation and the lossy conversion, signed decimal formatting, and the text form of IP and
  socket addresses in both families with its parser.
\<close>

section \<open>Searching\<close>

fun find_str :: "string \<Rightarrow> string \<Rightarrow> nat option" where
  "find_str p [] = (if p = [] then Some 0 else None)"
| "find_str p (c # t) = (if prefix p (c # t) then Some 0 else map_option Suc (find_str p t))"

definition contains :: "string \<Rightarrow> string \<Rightarrow> bool" where
  "contains t p \<longleftrightarrow> find_str p t \<noteq> None"

definition strip_prefix :: "string \<Rightarrow> string \<Rightarrow> string option" where
  "strip_prefix t p = (if prefix p t then Some (drop (length p) t) else None)"

definition split_once :: "char \<Rightarrow> string \<Rightarrow> (string \<times> string) option" where
  "split_once c s =
     (if c \<in> set s then Some (takeWhile (\<lambda>x. x \<noteq> c) s, tl (dropWhile (\<lambda>x. x \<noteq> c) s)) else None)"

lemma find_str_Some:
  "find_str p t = Some i \<Longrightarrow> i + length p \<le> length t \<and> take (length p) (drop i t) = p
     \<and> (\<forall>j < i. \<not> prefix p (drop j t))"
proof (induction p t arbitrary: i rule: find_str.induct)
  case (2 p c t)
  show ?case
  proof (cases "prefix p (c # t)")
    case True
    with 2 have "i = 0" by simp
    with True show ?thesis using prefix_length_le [OF True] by (auto simp: prefix_def)
  next
    case False
    with 2 obtain j where j: "find_str p t = Some j" "i = Suc j" by auto
    from 2(1) [OF False j(1)] j(2) False show ?thesis
      by (auto simp: less_Suc_eq_0_disj)
  qed
qed (auto split: if_splits)

lemma find_str_None: "find_str p t = None \<longleftrightarrow> (\<forall>i \<le> length t. \<not> prefix p (drop i t))"
proof (induction p t rule: find_str.induct)
  case (2 p c t)
  have "(\<forall>i \<le> length (c # t). \<not> prefix p (drop i (c # t)))
      \<longleftrightarrow> \<not> prefix p (c # t) \<and> (\<forall>i \<le> length t. \<not> prefix p (drop i t))" (is "?l \<longleftrightarrow> ?r")
  proof
    assume ?l
    then have "\<not> prefix p (drop 0 (c # t))" "\<forall>i \<le> length t. \<not> prefix p (drop (Suc i) (c # t))" by auto
    then show ?r by simp
  next
    assume r: ?r
    show ?l
    proof (intro allI impI)
      fix i
      assume "i \<le> length (c # t)"
      with r show "\<not> prefix p (drop i (c # t))" by (cases i) auto
    qed
  qed
  with 2 show ?case by simp
qed (auto simp: prefix_def)

lemma find_str_split: "find_str p t = Some i \<Longrightarrow> t = take i t @ p @ drop (i + length p) t"
  using find_str_Some [of p t i] by (metis append_take_drop_id drop_drop add.commute)

lemma contains_iff: "contains t p \<longleftrightarrow> (\<exists>a b. t = a @ p @ b)"
proof
  assume "contains t p"
  then obtain i where "find_str p t = Some i" by (auto simp: contains_def)
  from find_str_split [OF this] show "\<exists>a b. t = a @ p @ b" by blast
next
  assume "\<exists>a b. t = a @ p @ b"
  then obtain a b where t: "t = a @ p @ b" by blast
  then have "prefix p (drop (length a) t)" "length a \<le> length t" by simp_all
  then show "contains t p" unfolding contains_def find_str_None by blast
qed

section \<open>UTF-8\<close>

text \<open>One step of the decoder: how many bytes it consumes, and whether they are a scalar value.
  An invalid step consumes the longest prefix that could have started one, as
  \<open>Utf8Chunks\<close> does.\<close>

definition is_cont :: "bytes \<Rightarrow> nat \<Rightarrow> bool" where
  "is_cont bs i \<longleftrightarrow> i < length bs \<and> unat (bs ! i) div 64 = 2"

definition second_ok :: "nat \<Rightarrow> bytes \<Rightarrow> bool" where
  "second_ok b bs \<longleftrightarrow> bs \<noteq> [] \<and> (let c = unat (hd bs) in
     if b = 0xE0 then 0xA0 \<le> c \<and> c \<le> 0xBF
     else if b = 0xED then 0x80 \<le> c \<and> c \<le> 0x9F
     else if b = 0xF0 then 0x90 \<le> c \<and> c \<le> 0xBF
     else if b = 0xF4 then 0x80 \<le> c \<and> c \<le> 0x8F
     else 0x80 \<le> c \<and> c \<le> 0xBF)"

definition utf8_step :: "byte \<Rightarrow> bytes \<Rightarrow> nat \<times> bool" where
  "utf8_step x bs =
     (let b = unat x in
      if b < 0x80 then (1, True)
      else if 0xC2 \<le> b \<and> b \<le> 0xDF then if is_cont bs 0 then (2, True) else (1, False)
      else if 0xE0 \<le> b \<and> b \<le> 0xEF then
        if \<not> second_ok b bs then (1, False) else if is_cont bs 1 then (3, True) else (2, False)
      else if 0xF0 \<le> b \<and> b \<le> 0xF4 then
        if \<not> second_ok b bs then (1, False) else if \<not> is_cont bs 1 then (2, False)
        else if is_cont bs 2 then (4, True) else (3, False)
      else (1, False))"

lemma utf8_step_pos [simp]: "0 < fst (utf8_step x bs)"
  by (simp add: utf8_step_def Let_def)

lemma utf8_step_less: "(n, ok) = utf8_step x bs \<Longrightarrow> Suc (length bs) - n < Suc (length bs)"
  using utf8_step_pos [of x bs] by (metis diff_less fst_conv zero_less_Suc)

definition replacement_character :: bytes where
  "replacement_character = [0xEF, 0xBF, 0xBD]"

function from_utf8_lossy_bytes :: "bytes \<Rightarrow> bytes" where
  "from_utf8_lossy_bytes [] = []"
| "from_utf8_lossy_bytes (x # bs) =
     (let (n, ok) = utf8_step x bs
      in (if ok then take n (x # bs) else replacement_character) @ from_utf8_lossy_bytes (drop n (x # bs)))"
  by pat_completeness auto
termination
  by (relation "measure length") (auto dest: utf8_step_less)

function valid_utf8 :: "bytes \<Rightarrow> bool" where
  "valid_utf8 [] = True"
| "valid_utf8 (x # bs) = (let (n, ok) = utf8_step x bs in ok \<and> valid_utf8 (drop n (x # bs)))"
  by pat_completeness auto
termination
  by (relation "measure length") (auto dest: utf8_step_less)

declare from_utf8_lossy_bytes.simps(2) [simp del] valid_utf8.simps(2) [simp del]

definition string_of_bytes :: "bytes \<Rightarrow> string" where
  "string_of_bytes bs = map (\<lambda>b. char_of (unat b)) bs"

definition from_utf8_lossy :: "bytes \<Rightarrow> string" where
  "from_utf8_lossy bs = string_of_bytes (from_utf8_lossy_bytes bs)"

definition from_utf8 :: "bytes \<Rightarrow> string option" where
  "from_utf8 bs = (if valid_utf8 bs then Some (string_of_bytes bs) else None)"

lemma lossy_valid: "valid_utf8 bs \<Longrightarrow> from_utf8_lossy_bytes bs = bs"
proof (induction bs rule: valid_utf8.induct)
  case (2 x bs)
  obtain n ok where step: "utf8_step x bs = (n, ok)" by (cases "utf8_step x bs")
  with 2 have "ok" "from_utf8_lossy_bytes (drop n (x # bs)) = drop n (x # bs)"
    by (simp_all add: valid_utf8.simps(2))
  then show ?case by (simp add: from_utf8_lossy_bytes.simps(2) step)
qed simp

lemma string_of_as_bytes [simp]: "string_of_bytes (as_bytes s) = s"
proof -
  have "char_of (unat (of_char c :: byte)) = c" for c
  proof -
    have "unat (word_of_nat (of_char c) :: byte) = of_char c"
      by (simp add: unat_word_of_length nat_of_char_less_256)
    then show ?thesis by (simp add: of_nat_of_char)
  qed
  then show ?thesis by (simp add: string_of_bytes_def as_bytes_def map_idI)
qed

lemma as_bytes_of_string [simp]: "as_bytes (string_of_bytes bs) = bs"
proof -
  have "of_char (char_of (unat b)) = b" for b :: byte
  proof -
    have "(of_char (char_of (unat b)) :: byte) = word_of_nat (of_char (char_of (unat b)))"
      by (simp only: of_nat_of_char)
    also have "\<dots> = word_of_nat (unat b mod 256)" by simp
    also have "unat b mod 256 = unat b" using unsigned_less [of b, where ?'a = nat] by simp
    finally show ?thesis by simp
  qed
  then show ?thesis by (simp add: string_of_bytes_def as_bytes_def map_idI)
qed

lemma from_utf8_lossy_valid: "valid_utf8 (as_bytes s) \<Longrightarrow> from_utf8_lossy (as_bytes s) = s"
  by (simp add: from_utf8_lossy_def lossy_valid)

end
