(* ===== verification/Client_Transport.thy ===== *)
theory Client_Transport
  imports Rust_Text Udp_Reassembly
begin

text \<open>
  The frame builders and parsers of the client,
  \<^verbatim>\<open>crates/client-backend/src/transport.rs\<close>, and the error type its two connections
  share. The JSON and rkyv codecs are parameters. Where the source formats the debug text
  of an error into a string, the error itself is kept.
\<close>

section \<open>Data\<close>

record client_codecs =
  cl_handshake_to_vec :: "HandshakeRequest \<Rightarrow> string + bytes"
  cl_query_to_vec :: "QueryRequest \<Rightarrow> string + bytes"
  cl_response_from_slice :: "bytes \<Rightarrow> string + QueryResponse"
  cl_metadata_from_bytes :: "bytes \<Rightarrow> string + HostMetadata"
  cl_runtime_from_bytes :: "bytes \<Rightarrow> string + RuntimeSnapshot"

text \<open>\<open>Payload\<close> of the source carries a text for an oversized payload or for a decoding error.\<close>

datatype ClientTransportError =
    FrameError FrameDecodeError
  | WrongFrameType FrameType FrameType
  | JsonError string
  | OversizedPayload nat
  | PayloadError PayloadDecodeError
  | QueryError "ErrorCode option"

section \<open>Frames\<close>

definition encode_bytes_frame :: "FrameType \<Rightarrow> u64 \<Rightarrow> bytes \<Rightarrow> ClientTransportError + bytes" where
  "encode_bytes_frame ft rid payload =
     (case u32_try_from (length payload) of
        None \<Rightarrow> Err (OversizedPayload (length payload))
      | Some len \<Rightarrow> Ok (encode_frame (frame_header_new ft rid len) payload))"

definition encode_json_frame ::
    "('a \<Rightarrow> string + bytes) \<Rightarrow> FrameType \<Rightarrow> u64 \<Rightarrow> 'a \<Rightarrow> ClientTransportError + bytes" where
  "encode_json_frame to_vec ft rid v =
     and_then (map_err JsonError (to_vec v)) (encode_bytes_frame ft rid)"

definition build_handshake_request_frame :: "client_codecs \<Rightarrow> u64 \<Rightarrow> ClientTransportError + bytes" where
  "build_handshake_request_frame cc rid =
     encode_json_frame (cl_handshake_to_vec cc) HandshakeRequest rid handshake_request_current"

definition build_query_request_frame :: "client_codecs \<Rightarrow> u64 \<Rightarrow> ClientTransportError + bytes" where
  "build_query_request_frame cc rid =
     encode_json_frame (cl_query_to_vec cc) QueryRequest rid
       \<lparr>qr_version = PROTOCOL_VERSION, qr_request_id = rid\<rparr>"

definition build_disconnect_frame :: "u64 \<Rightarrow> string \<Rightarrow> ClientTransportError + bytes" where
  "build_disconnect_frame rid reason = encode_bytes_frame Disconnect rid (as_bytes reason)"

definition split_frame :: "bytes \<Rightarrow> FrameType \<Rightarrow> ClientTransportError + (FrameHeader \<times> bytes)" where
  "split_frame frame expected =
     and_then (map_err FrameError (decode_frame frame)) (\<lambda>(header, payload).
       if fh_frame_type header \<noteq> expected then Err (WrongFrameType expected (fh_frame_type header))
       else Ok (header, payload))"

definition parse_disconnect_reason_frame :: "bytes \<Rightarrow> ClientTransportError + string" where
  "parse_disconnect_reason_frame frame =
     map_ok (\<lambda>(_, payload). trim (from_utf8_lossy payload)) (split_frame frame Disconnect)"

definition parse_metadata_payload_frame :: "client_codecs \<Rightarrow> bytes \<Rightarrow> ClientTransportError + HostMetadata" where
  "parse_metadata_payload_frame cc frame =
     and_then (split_frame frame MetadataPayload) (\<lambda>(_, payload).
       map_err PayloadError (decode_metadata_payload (cl_metadata_from_bytes cc) payload))"

definition parse_runtime_payload_frame :: "client_codecs \<Rightarrow> bytes \<Rightarrow> ClientTransportError + RuntimeSnapshot" where
  "parse_runtime_payload_frame cc frame =
     and_then (split_frame frame RuntimePayload) (\<lambda>(_, payload).
       map_err PayloadError (decode_runtime_payload (cl_runtime_from_bytes cc) payload))"

definition parse_query_response_error_frame ::
    "client_codecs \<Rightarrow> bytes \<Rightarrow> ClientTransportError + ErrorCode option" where
  "parse_query_response_error_frame cc frame =
     and_then (split_frame frame FrameType.QueryResponse) (\<lambda>(_, payload).
     and_then (map_err JsonError (cl_response_from_slice cc payload)) (\<lambda>resp.
       if qs_version resp \<noteq> PROTOCOL_VERSION then Err (QueryError (Some ProtocolVersionMismatch))
       else case qs_status resp of
         StatusOk \<Rightarrow> Ok None
       | StatusError \<Rightarrow> Ok (qs_error resp)))"

section \<open>What a connection reports\<close>

text \<open>\<open>UdpClientError\<close> and \<open>TcpClientError\<close> have the same variants. \<open>Decode\<close> keeps its cause.\<close>

datatype decode_cause =
    ChunkCause UdpChunkError
  | FrameCause FrameDecodeError
  | HeaderCause FrameHeaderError

datatype ClientError =
    Io string
  | Server string
  | Decode decode_cause
  | Transport ClientTransportError

section \<open>Frames of the two sides\<close>

lemma encode_bytes_frame_decode:
  "encode_bytes_frame ft rid p = Ok f \<Longrightarrow>
     decode_frame f = Ok (frame_header_new ft rid (word_of_nat (length p)), p) \<and> length p < 2 ^ 32"
  by (auto simp: encode_bytes_frame_def u32_try_from_def frame_header_new_update decode_encode_frame
      split: if_splits)

lemma split_frame_Ok_iff:
  "split_frame f t = Ok (h, p) \<longleftrightarrow> decode_frame f = Ok (h, p) \<and> fh_frame_type h = t"
  by (auto simp: split_frame_def result_simps)

lemma split_frame_wrong:
  "decode_frame f = Ok (h, p) \<Longrightarrow> fh_frame_type h \<noteq> t \<Longrightarrow> split_frame f t = Err (WrongFrameType t (fh_frame_type h))"
  by (simp add: split_frame_def)

lemma parse_metadata_frame:
  "decode_frame f = Ok (frame_header_new MetadataPayload rid n, p) \<Longrightarrow>
   parse_metadata_payload_frame cc f = map_err PayloadError (decode_metadata_payload (cl_metadata_from_bytes cc) p)"
  by (simp add: parse_metadata_payload_frame_def split_frame_def frame_header_new_def)

lemma parse_runtime_frame:
  "decode_frame f = Ok (frame_header_new RuntimePayload rid n, p) \<Longrightarrow>
   parse_runtime_payload_frame cc f = map_err PayloadError (decode_runtime_payload (cl_runtime_from_bytes cc) p)"
  by (simp add: parse_runtime_payload_frame_def split_frame_def frame_header_new_def)

lemma parse_response_frame:
  assumes "decode_frame f = Ok (frame_header_new FrameType.QueryResponse rid n, p)"
    and "cl_response_from_slice cc p = Ok (query_response_error rid' e)"
  shows "parse_query_response_error_frame cc f = Ok (Some e)"
  using assms by (simp add: parse_query_response_error_frame_def split_frame_def frame_header_new_def query_response_error_def)

lemma disconnect_reason_roundtrip:
  assumes "build_disconnect_frame rid reason = Ok f" "valid_utf8 (as_bytes reason)"
  shows "parse_disconnect_reason_frame f = Ok (trim reason)"
  using assms encode_bytes_frame_decode [of Disconnect rid "as_bytes reason" f]
  by (simp add: build_disconnect_frame_def parse_disconnect_reason_frame_def split_frame_def
      frame_header_new_def from_utf8_lossy_valid)

end
