(* ===== verification/Net_Text.thy ===== *)
theory Net_Text
  imports Rust_Text
begin

text \<open>
  The textual form of IP and socket addresses in Rust's standard library (\<open>Display\<close> and
  \<open>FromStr\<close>), for both families. The parser follows the recursive reader of
  \<^verbatim>\<open>core::net\<close>: every reader takes the text and gives what it read and the rest.
\<close>

datatype IpAddr = Ip4 u32 | Ip6 "u16 list"

primrec addr_ip :: "SocketAddr \<Rightarrow> IpAddr" where
  "addr_ip (V4 ip _) = Ip4 ip"
| "addr_ip (V6 segs _) = Ip6 segs"

primrec socket_addr_new :: "IpAddr \<Rightarrow> u16 \<Rightarrow> SocketAddr" where
  "socket_addr_new (Ip4 ip) p = V4 ip p"
| "socket_addr_new (Ip6 segs) p = V6 segs p"

section \<open>Display\<close>

definition hex_digit :: "nat \<Rightarrow> char" where
  "hex_digit d = (if d < 10 then char_of (48 + d) else char_of (87 + d))"

fun to_hex :: "nat \<Rightarrow> string" where
  "to_hex n = (if n < 16 then [hex_digit n] else to_hex (n div 16) @ [hex_digit (n mod 16)])"

declare to_hex.simps [simp del]

fun join_with :: "string \<Rightarrow> string list \<Rightarrow> string" where
  "join_with sep [] = []"
| "join_with sep [x] = x"
| "join_with sep (x # y # zs) = x @ sep @ join_with sep (y # zs)"

text \<open>The longest run of zero segments, the first one among equals, as start and length.\<close>

fun zero_span :: "nat \<Rightarrow> nat \<times> nat \<Rightarrow> nat \<times> nat \<Rightarrow> u16 list \<Rightarrow> nat \<times> nat" where
  "zero_span i cur best [] = best"
| "zero_span i cur best (s # ss) =
     (if s = 0 then
        let cur' = (if snd cur = 0 then i else fst cur, Suc (snd cur))
        in zero_span (Suc i) cur' (if snd cur' > snd best then cur' else best) ss
      else zero_span (Suc i) (0, 0) best ss)"

definition segments_text :: "u16 list \<Rightarrow> string" where
  "segments_text segs = join_with '':'' (map (\<lambda>s. to_hex (unat s)) segs)"

definition ipv6_to_string :: "u16 list \<Rightarrow> string" where
  "ipv6_to_string segs =
     (if length segs = 8 \<and> take 6 segs = [0, 0, 0, 0, 0, 0xffff]
      then ''::ffff:'' @ ipv4_to_string (word_of_nat (unat (segs ! 6) * 65536 + unat (segs ! 7)))
      else let (start, len) = zero_span 0 (0, 0) (0, 0) segs in
        if len > 1 then segments_text (take start segs) @ ''::'' @ segments_text (drop (start + len) segs)
        else segments_text segs)"

primrec ip_to_string :: "IpAddr \<Rightarrow> string" where
  "ip_to_string (Ip4 ip) = ipv4_to_string ip"
| "ip_to_string (Ip6 segs) = ipv6_to_string segs"

primrec addr_to_string :: "SocketAddr \<Rightarrow> string" where
  "addr_to_string (V4 ip p) = ipv4_to_string ip @ '':'' @ nat_to_string (unat p)"
| "addr_to_string (V6 segs p) = ''['' @ ipv6_to_string segs @ '']:'' @ nat_to_string (unat p)"

section \<open>FromStr\<close>

definition read_char :: "char \<Rightarrow> string \<Rightarrow> string option" where
  "read_char c s = (case s of x # r \<Rightarrow> if x = c then Some r else None | [] \<Rightarrow> None)"

definition is_hex :: "char \<Rightarrow> bool" where
  "is_hex c \<longleftrightarrow> (let n = of_char c :: nat in 48 \<le> n \<and> n \<le> 57 \<or> 65 \<le> n \<and> n \<le> 70 \<or> 97 \<le> n \<and> n \<le> 102)"

definition hex_value :: "string \<Rightarrow> nat" where
  "hex_value s = foldl (\<lambda>acc c. let n = of_char c :: nat in
     acc * 16 + (if n \<le> 57 then n - 48 else if n \<le> 70 then n - 55 else n - 87)) 0 s"

definition read_group :: "string \<Rightarrow> (nat \<times> string) option" where
  "read_group s = (let ds = takeWhile is_hex s in
     if ds = [] \<or> length ds > 4 then None else Some (hex_value ds, drop (length ds) s))"

definition read_octet :: "string \<Rightarrow> (nat \<times> string) option" where
  "read_octet s = (let ds = takeWhile is_ascii_digit s
     in map_option (\<lambda>v. (v, drop (length ds) s)) (parse_octet ds))"

definition read_dot_octet :: "string \<Rightarrow> (nat \<times> string) option" where
  "read_dot_octet s = Option.bind (read_char (CHR ''.'') s) read_octet"

definition read_ipv4 :: "string \<Rightarrow> ((nat \<times> nat \<times> nat \<times> nat) \<times> string) option" where
  "read_ipv4 s =
     Option.bind (read_octet s) (\<lambda>(a, s).
     Option.bind (read_dot_octet s) (\<lambda>(b, s).
     Option.bind (read_dot_octet s) (\<lambda>(c, s).
     Option.bind (read_dot_octet s) (\<lambda>(d, s). Some ((a, b, c, d), s)))))"

text \<open>Up to \<open>limit\<close> groups separated by colons, the last two perhaps an embedded IPv4 address.\<close>

fun read_groups :: "nat \<Rightarrow> bool \<Rightarrow> string \<Rightarrow> nat list \<times> bool \<times> string" where
  "read_groups 0 first s = ([], False, s)"
| "read_groups (Suc k) first s =
     (let body = (if first then Some s else read_char (CHR '':'') s) in
      case (if k \<ge> 1 then Option.bind body read_ipv4 else None) of
        Some ((a, b, c, d), r) \<Rightarrow> ([a * 256 + b, c * 256 + d], True, r)
      | None \<Rightarrow>
          (case Option.bind body read_group of
             None \<Rightarrow> ([], False, s)
           | Some (g, r) \<Rightarrow> (case read_groups k False r of (gs, v4, r') \<Rightarrow> (g # gs, v4, r'))))"

definition read_ipv6 :: "string \<Rightarrow> (u16 list \<times> string) option" where
  "read_ipv6 s =
     (case read_groups 8 True s of (head, v4, r) \<Rightarrow>
        if length head = 8 then Some (map word_of_nat head, r)
        else if v4 then None
        else Option.bind (Option.bind (read_char (CHR '':'') r) (read_char (CHR '':''))) (\<lambda>r.
          case read_groups (7 - length head) True r of (rear, _, r') \<Rightarrow>
            Some (map word_of_nat (head @ replicate (8 - length head - length rear) 0 @ rear), r')))"

definition parse_ip :: "string \<Rightarrow> IpAddr option" where
  "parse_ip s =
     (case read_ipv4 s of
        Some ((a, b, c, d), r) \<Rightarrow> if r = [] then Some (Ip4 (ipv4_of_octets a b c d)) else None
      | None \<Rightarrow> (case read_ipv6 s of Some (segs, []) \<Rightarrow> Some (Ip6 segs) | _ \<Rightarrow> None))"

definition read_number :: "nat \<Rightarrow> string \<Rightarrow> (nat \<times> string) option" where
  "read_number mx s = (let ds = takeWhile is_ascii_digit s in
     if ds = [] \<or> digits_value ds > mx then None else Some (digits_value ds, drop (length ds) s))"

definition read_port :: "string \<Rightarrow> (nat \<times> string) option" where
  "read_port s = Option.bind (read_char (CHR '':'') s) (read_number 65535)"

definition read_scope :: "string \<Rightarrow> (nat \<times> string)" where
  "read_scope s =
     (case Option.bind (read_char (CHR ''%'') s) (read_number (2 ^ 32 - 1)) of
        Some x \<Rightarrow> x | None \<Rightarrow> (0, s))"

text \<open>A parsed socket address with its IPv6 scope, which is 0 for every address the program builds.\<close>

definition parse_socket_addr :: "string \<Rightarrow> (SocketAddr \<times> nat) option" where
  "parse_socket_addr s =
     (case Option.bind (read_ipv4 s) (\<lambda>(ip, r). map_option (Pair ip) (read_port r)) of
        Some ((a, b, c, d), p, r) \<Rightarrow>
          if r = [] then Some (V4 (ipv4_of_octets a b c d) (word_of_nat p), 0) else None
      | None \<Rightarrow>
          Option.bind (read_char (CHR ''['') s) (\<lambda>s.
          Option.bind (read_ipv6 s) (\<lambda>(segs, s).
          case read_scope s of (scope, s) \<Rightarrow>
          Option.bind (read_char (CHR '']'') s) (\<lambda>s.
          Option.bind (read_port s) (\<lambda>(p, s).
          if s = [] then Some (V6 segs (word_of_nat p), scope) else None)))))"

section \<open>Printed addresses are read back\<close>

lemma takeWhile_digits_append:
  "list_all is_ascii_digit d \<Longrightarrow> u = [] \<or> \<not> is_ascii_digit (hd u) \<Longrightarrow>
     takeWhile is_ascii_digit (d @ u) = d"
  by (induction d) (auto simp: takeWhile_eq_Nil_iff)

lemma read_octet_print:
  assumes "n < 256" "u = [] \<or> \<not> is_ascii_digit (hd u)"
  shows "read_octet (nat_to_string n @ u) = Some (n, u)"
  using takeWhile_digits_append [OF nat_to_string_digits assms(2), of n] assms(1)
  by (simp add: read_octet_def parse_octet_nat_to_string)

lemma dot_colon_no_digit [simp]: "\<not> is_ascii_digit (CHR ''.'')" "\<not> is_ascii_digit (CHR '':'')"
  by (simp_all add: is_ascii_digit_def)

lemma read_ipv4_print:
  assumes "u = [] \<or> \<not> is_ascii_digit (hd u)"
  shows "read_ipv4 (ipv4_to_string ip @ u) = Some ((unat ip div 2 ^ 24, unat ip div 2 ^ 16 mod 256,
    unat ip div 2 ^ 8 mod 256, unat ip mod 256), u)"
proof -
  have "unat ip < 2 ^ LENGTH(32)" by (rule unsigned_less)
  then have a: "unat ip div 2 ^ 24 < 256" by simp
  have b: "unat ip div 2 ^ 16 mod 256 < 256" "unat ip div 2 ^ 8 mod 256 < 256" "unat ip mod 256 < 256"
    by simp_all
  show ?thesis
    unfolding ipv4_to_string_def octets_def list.case read_ipv4_def append_assoc
    by (simp only: read_octet_print [OF a] read_octet_print [OF b(1)] read_octet_print [OF b(2)]
        read_octet_print [OF b(3) assms] read_dot_octet_def read_char_def append_Cons append_Nil list.case
        list.sel dot_colon_no_digit simp_thms if_True bind.bind_lunit prod.case)
qed

lemma parse_ip_print: "parse_ip (ipv4_to_string ip) = Some (Ip4 ip)"
  using read_ipv4_print [of "[]" ip] octets_recompose [of ip] by (simp add: parse_ip_def)

lemma parse_socket_addr_print: "parse_socket_addr (addr_to_string (V4 ip p)) = Some (V4 ip p, 0)"
proof -
  have "unat p < 2 ^ LENGTH(16)" by (rule unsigned_less)
  then have "read_port ('':'' @ nat_to_string (unat p)) = Some (unat p, [])"
    using nat_to_string_digits [of "unat p"]
    by (simp add: read_port_def read_char_def read_number_def Let_def list_all_iff takeWhile_eq_all_conv [THEN iffD2])
  then show ?thesis
    using read_ipv4_print [of "'':'' @ nat_to_string (unat p)" ip] octets_recompose [of ip]
    by (simp add: parse_socket_addr_def)
qed

end
