(* ===== verification/Udp_Client.thy ===== *)
theory Udp_Client
  imports Client_Transport Udp_Server Net_Text
begin

text \<open>
  The UDP connection of the client, \<^verbatim>\<open>crates/client-backend/src/udp_client.rs\<close>. A socket is
  what it will receive, a list of receive steps with the clock readings of the loop, and
  \<open>send\<close>, which gives the error of sending a datagram, if any. A receive that is still
  waiting at the end of the list is the result \<open>None\<close>. Lock poisoning is outside the model.
\<close>

section \<open>Data\<close>

datatype recv_event = Datagram bytes | TimedOut | RecvFailed string

record recv_step =
  rv_checked :: instant
  rv_event :: recv_event
  rv_received :: instant

record ConnectedUdpNode =
  un_addr :: SocketAddr
  un_metadata :: HostMetadata
  un_max_payload :: nat
  un_next_request_id :: u64

definition udp_hostname :: "ConnectedUdpNode \<Rightarrow> string" where
  "udp_hostname n = hm_hostname (un_metadata n)"

definition gres_count :: "HostMetadata \<Rightarrow> u8" where
  "gres_count m = word_of_nat (min (length (hm_gres m)) 255)"

definition udp_gres_num :: "ConnectedUdpNode \<Rightarrow> u8" where
  "udp_gres_num n = gres_count (un_metadata n)"

definition next_id :: "ConnectedUdpNode \<Rightarrow> ConnectedUdpNode \<times> u64" where
  "next_id n = (n\<lparr>un_next_request_id := un_next_request_id n + 1\<rparr>, un_next_request_id n)"

section \<open>Sending\<close>

fun send_all :: "(bytes \<Rightarrow> string option) \<Rightarrow> bytes list \<Rightarrow> bytes list \<times> (string + unit)" where
  "send_all send [] = ([], Ok ())"
| "send_all send (d # ds) =
     (case send d of
        Some e \<Rightarrow> ([], Err e)
      | None \<Rightarrow> (case send_all send ds of (out, r) \<Rightarrow> (d # out, r)))"

definition send_empty_query ::
    "'h crc32 \<Rightarrow> (bytes \<Rightarrow> string option) \<Rightarrow> u64 \<Rightarrow> bytes list \<times> (ClientError + unit)" where
  "send_empty_query crc send rid =
     (case encode_udp_single_chunk_from_parts crc QueryRequest rid [] of
        Err e \<Rightarrow> ([], Err (Decode (ChunkCause e)))
      | Ok d \<Rightarrow> map_prod id (map_err (\<lambda>e. Io (''send UDP query failed: '' @ e))) (send_all send [d]))"

definition send_frame ::
    "'h crc32 \<Rightarrow> (bytes \<Rightarrow> string option) \<Rightarrow> bytes \<Rightarrow> nat \<Rightarrow> bytes list \<times> (ClientError + unit)" where
  "send_frame crc send frame max_payload =
     (case (if length frame \<le> max_payload then map_ok (\<lambda>d. [d]) (encode_udp_single_chunk crc frame)
            else encode_udp_chunks crc frame max_payload) of
        Err e \<Rightarrow> ([], Err (Decode (ChunkCause e)))
      | Ok ds \<Rightarrow> map_prod id (map_err (\<lambda>e. Io (''send UDP chunk failed: '' @ e))) (send_all send ds))"

section \<open>Receiving\<close>

definition RECV_BUF_LEN :: nat where
  "RECV_BUF_LEN = 65535"

definition keep_waiting :: "instant \<Rightarrow> instant \<Rightarrow> UdpFrameReassembler option \<Rightarrow> bool" where
  "keep_waiting now deadline ra \<longleftrightarrow>
     now < deadline \<and> (case ra of None \<Rightarrow> True | Some r \<Rightarrow> \<not> reassembler_is_expired now r)"

text \<open>A complete frame ends the loop when it answers this request.\<close>

definition answers :: "u64 \<Rightarrow> bytes \<Rightarrow> ClientError + bool" where
  "answers rid frame =
     map_ok (\<lambda>(h, _). fh_request_id h = rid) (map_err (\<lambda>e. Decode (FrameCause e)) (decode_frame frame))"

fun recv_loop ::
    "'h crc32 \<Rightarrow> u64 \<Rightarrow> nat \<Rightarrow> instant \<Rightarrow> UdpFrameReassembler option \<Rightarrow> recv_step list
      \<Rightarrow> (ClientError + bytes) option \<times> recv_step list" where
  "recv_loop crc rid timeout deadline ra [] = (None, [])"
| "recv_loop crc rid timeout deadline ra (s # ss) =
     (if \<not> keep_waiting (rv_checked s) deadline ra
      then (Some (Err (Io ''timeout while reassembling UDP frame'')), s # ss)
      else case rv_event s of
        TimedOut \<Rightarrow> (Some (Err (Io ''timeout while waiting for UDP frame'')), ss)
      | RecvFailed e \<Rightarrow> (Some (Err (Io (''recv UDP chunk failed: '' @ e))), ss)
      | Datagram whole \<Rightarrow>
          let d = take RECV_BUF_LEN whole in
          (case decode_udp_single_chunk crc d of
             Err e \<Rightarrow> (Some (Err (Decode (ChunkCause e))), ss)
           | Ok (Some frame) \<Rightarrow>
               (case answers rid frame of
                  Err e \<Rightarrow> (Some (Err e), ss)
                | Ok True \<Rightarrow> (Some (Ok frame), ss)
                | Ok False \<Rightarrow> recv_loop crc rid timeout deadline ra ss)
           | Ok None \<Rightarrow>
               let r = (case ra of Some r \<Rightarrow> r | None \<Rightarrow> reassembler_new (rv_received s) timeout) in
               (case reassembler_insert crc r d of
                  (r', Ok (Some frame)) \<Rightarrow>
                    (case answers rid frame of
                       Err e \<Rightarrow> (Some (Err e), ss)
                     | Ok True \<Rightarrow> (Some (Ok frame), ss)
                     | Ok False \<Rightarrow> recv_loop crc rid timeout deadline (Some r') ss)
                | (r', Ok None) \<Rightarrow> recv_loop crc rid timeout deadline (Some r') ss
                | (r', Err e) \<Rightarrow> (Some (Err (Decode (ChunkCause e))), ss))))"

definition recv_frame ::
    "'h crc32 \<Rightarrow> u64 \<Rightarrow> nat \<Rightarrow> instant \<Rightarrow> recv_step list \<Rightarrow> (ClientError + bytes) option \<times> recv_step list" where
  "recv_frame crc rid timeout now steps = recv_loop crc rid timeout (now + timeout) None steps"

section \<open>Replies\<close>

definition parse_handshake_reply :: "client_codecs \<Rightarrow> bytes \<Rightarrow> ClientError + HostMetadata" where
  "parse_handshake_reply cc frame =
     (case parse_metadata_payload_frame cc frame of
        Ok metadata \<Rightarrow> Ok metadata
      | Err (WrongFrameType MetadataPayload FrameType.QueryResponse) \<Rightarrow>
          and_then (map_err Transport (parse_query_response_error_frame cc frame)) (\<lambda>c. case c of
            Some e \<Rightarrow> Err (Server (error_to_string e))
          | None \<Rightarrow> Err (Server ''server returned empty QueryResponse instead of MetadataPayload''))
      | Err e \<Rightarrow> Err (Transport e))"

definition parse_query_reply ::
    "client_codecs \<Rightarrow> bytes \<Rightarrow> HostMetadata \<Rightarrow> ClientError + ServerGresSnapshot" where
  "parse_query_reply cc frame metadata =
     (case parse_runtime_payload_frame cc frame of
        Ok runtime \<Rightarrow> Ok (to_snapshot runtime metadata)
      | Err (WrongFrameType RuntimePayload FrameType.QueryResponse) \<Rightarrow>
          and_then (map_err Transport (parse_query_response_error_frame cc frame)) (\<lambda>c. case c of
            Some e \<Rightarrow> Err (Server (error_to_string e))
          | None \<Rightarrow> Err (Server ''server returned empty QueryResponse instead of RuntimePayload''))
      | Err (WrongFrameType RuntimePayload Disconnect) \<Rightarrow>
          let reason = (case parse_disconnect_reason_frame frame of Ok r \<Rightarrow> r | Err _ \<Rightarrow> []) in
          if reason = [] then Err (Server ''peer disconnected'')
          else Err (Server (''peer disconnected: '' @ reason))
      | Err e \<Rightarrow> Err (Transport e))"

definition empty_metadata :: HostMetadata where
  "empty_metadata = \<lparr>hm_hostname = [], hm_driver_version = None, hm_gres = []\<rparr>"

definition query_runtime :: "client_codecs \<Rightarrow> bytes \<Rightarrow> ClientError + RuntimeSnapshot" where
  "query_runtime cc frame =
     (case parse_runtime_payload_frame cc frame of
        Ok runtime \<Rightarrow> Ok runtime
      | Err err \<Rightarrow>
          (case parse_query_reply cc frame empty_metadata of
             Ok _ \<Rightarrow> Err (Transport err)
           | Err e \<Rightarrow> Err e))"

definition recv_query_runtime ::
    "'h crc32 \<Rightarrow> client_codecs \<Rightarrow> u64 \<Rightarrow> nat \<Rightarrow> instant \<Rightarrow> recv_step list
      \<Rightarrow> (ClientError + RuntimeSnapshot) option \<times> recv_step list" where
  "recv_query_runtime crc cc rid timeout now steps =
     map_prod (map_option (\<lambda>r. and_then r (query_runtime cc))) id (recv_frame crc rid timeout now steps)"

definition exchange_handshake ::
    "'h crc32 \<Rightarrow> client_codecs \<Rightarrow> (bytes \<Rightarrow> string option) \<Rightarrow> u64 \<Rightarrow> nat \<Rightarrow> instant \<Rightarrow> nat \<Rightarrow> recv_step list
      \<Rightarrow> bytes list \<times> (ClientError + HostMetadata) option \<times> recv_step list" where
  "exchange_handshake crc cc send rid timeout now max_payload steps =
     (case build_handshake_request_frame cc rid of
        Err e \<Rightarrow> ([], Some (Err (Transport e)), steps)
      | Ok frame \<Rightarrow>
          (case send_frame crc send frame max_payload of
             (out, Err e) \<Rightarrow> (out, Some (Err e), steps)
           | (out, Ok _) \<Rightarrow>
               (case recv_frame crc rid timeout now steps of
                  (r, steps') \<Rightarrow> (out, map_option (\<lambda>r. and_then r (parse_handshake_reply cc)) r, steps'))))"

definition refresh_metadata ::
    "'h crc32 \<Rightarrow> client_codecs \<Rightarrow> (bytes \<Rightarrow> string option) \<Rightarrow> u64 \<Rightarrow> nat \<Rightarrow> instant \<Rightarrow> nat \<Rightarrow> recv_step list
      \<Rightarrow> bytes list \<times> (ClientError + HostMetadata) option \<times> recv_step list" where
  "refresh_metadata crc cc send rid timeout now max_payload steps =
     exchange_handshake crc cc send rid timeout now max_payload steps"

section \<open>Connecting and querying\<close>

text \<open>\<open>bind\<close> and \<open>connect\<close> are the errors of the two socket calls, if any.\<close>

definition connect_node ::
    "'h crc32 \<Rightarrow> client_codecs \<Rightarrow> (SocketAddr \<Rightarrow> nat option) \<Rightarrow> string option \<Rightarrow> string option \<Rightarrow> (bytes \<Rightarrow> string option)
      \<Rightarrow> SocketAddr \<Rightarrow> nat \<Rightarrow> u16 \<Rightarrow> instant \<Rightarrow> recv_step list
      \<Rightarrow> bytes list \<times> (ClientError + ConnectedUdpNode) option \<times> recv_step list" where
  "connect_node crc cc route_mtu bind connect send addr timeout configured_mtu now steps =
     (case bind of
        Some e \<Rightarrow> ([], Some (Err (Io (''bind local UDP socket failed: '' @ e))), steps)
      | None \<Rightarrow>
          (case connect of
             Some e \<Rightarrow> ([], Some (Err (Io (''connect '' @ addr_to_string addr @ '' failed: '' @ e))), steps)
           | None \<Rightarrow>
               let max_payload = effective_udp_payload_capacity route_mtu addr configured_mtu in
               (case exchange_handshake crc cc send 1 timeout now max_payload steps of
                  (out, r, steps') \<Rightarrow>
                    (out, map_option (map_ok (\<lambda>m. \<lparr>un_addr = addr, un_metadata = m,
                       un_max_payload = max_payload, un_next_request_id = 2\<rparr>)) r, steps'))))"

definition metadata_outdated :: "RuntimeSnapshot \<Rightarrow> HostMetadata \<Rightarrow> bool" where
  "metadata_outdated runtime m \<longleftrightarrow>
     rs_metadata_hash runtime \<noteq> 0 \<and> rs_metadata_hash runtime \<noteq> metadata_hash m"

definition query_connected ::
    "'h crc32 \<Rightarrow> client_codecs \<Rightarrow> (bytes \<Rightarrow> string option) \<Rightarrow> nat \<Rightarrow> instant \<Rightarrow> instant \<Rightarrow> ConnectedUdpNode \<Rightarrow> recv_step list
      \<Rightarrow> bytes list \<times> ConnectedUdpNode \<times> (ClientError + ServerGresSnapshot) option \<times> recv_step list" where
  "query_connected crc cc send timeout now now' node steps =
     (let (node, rid) = next_id node in
      case send_empty_query crc send rid of
        (out, Err e) \<Rightarrow> (out, node, Some (Err e), steps)
      | (out, Ok _) \<Rightarrow>
          (case recv_query_runtime crc cc rid timeout now steps of
             (None, steps') \<Rightarrow> (out, node, None, steps')
           | (Some (Err e), steps') \<Rightarrow> (out, node, Some (Err e), steps')
           | (Some (Ok runtime), steps') \<Rightarrow>
               if metadata_outdated runtime (un_metadata node) then
                 let (node, rid') = next_id node in
                 (case refresh_metadata crc cc send rid' timeout now' (un_max_payload node) steps' of
                    (out', r, steps'') \<Rightarrow>
                      (out @ out',
                       (case r of Some (Ok m) \<Rightarrow> node\<lparr>un_metadata := m\<rparr> | _ \<Rightarrow> node),
                       map_option (map_ok (\<lambda>m. to_snapshot runtime m)) r, steps''))
               else (out, node, Some (Ok (to_snapshot runtime (un_metadata node))), steps')))"

definition disconnect ::
    "'h crc32 \<Rightarrow> (bytes \<Rightarrow> string option) \<Rightarrow> ConnectedUdpNode \<Rightarrow> string
      \<Rightarrow> bytes list \<times> ConnectedUdpNode \<times> (ClientError + unit)" where
  "disconnect crc send node reason =
     (let (node, rid) = next_id node in
      case build_disconnect_frame rid reason of
        Err e \<Rightarrow> ([], node, Err (Transport e))
      | Ok frame \<Rightarrow>
          (case encode_udp_chunks crc frame (un_max_payload node) of
             Err e \<Rightarrow> ([], node, Err (Decode (ChunkCause e)))
           | Ok ds \<Rightarrow>
               (case send_all send ds of
                  (out, r) \<Rightarrow> (out, node, map_err (\<lambda>e. Io (''send disconnect failed: '' @ e)) r))))"

section \<open>What a client accepts as its reply\<close>

lemma answers_Ok_iff: "answers rid f = Ok b \<longleftrightarrow> (\<exists>h p. decode_frame f = Ok (h, p) \<and> b = (fh_request_id h = rid))"
  by (auto simp: answers_def result_simps)

lemma recv_loop_safe:
  "recv_loop crc rid timeout deadline ra steps = (Some (Ok f), rest) \<Longrightarrow>
     \<exists>h p. decode_frame f = Ok (h, p) \<and> fh_request_id h = rid"
  by (induction crc rid timeout deadline ra steps rule: recv_loop.induct)
    (auto simp: Let_def answers_Ok_iff split: if_splits recv_event.splits sum.splits option.splits bool.splits prod.splits)

section \<open>Delivery\<close>

text \<open>The datagrams that carry a frame, as both sides send them.\<close>

definition reply_datagrams :: "'h crc32 \<Rightarrow> bytes \<Rightarrow> nat \<Rightarrow> UdpChunkError + bytes list" where
  "reply_datagrams crc frame mp =
     (if length frame \<le> mp then map_ok (\<lambda>d. [d]) (encode_udp_single_chunk crc frame)
      else encode_udp_chunks crc frame mp)"

text \<open>A late reply to another request, in one datagram.\<close>

definition other_reply :: "'h crc32 \<Rightarrow> u64 \<Rightarrow> bytes \<Rightarrow> bool" where
  "other_reply crc rid d \<longleftrightarrow> length d \<le> RECV_BUF_LEN \<and>
     (\<exists>f h p. decode_udp_single_chunk crc d = Ok (Some f) \<and> decode_frame f = Ok (h, p) \<and> fh_request_id h \<noteq> rid)"

definition in_time :: "nat \<Rightarrow> instant \<Rightarrow> recv_step \<Rightarrow> bool" where
  "in_time timeout now s \<longleftrightarrow> now \<le> rv_received s \<and> rv_checked s < now + timeout"

definition arrives :: "'h crc32 \<Rightarrow> u64 \<Rightarrow> nat \<Rightarrow> instant \<Rightarrow> bytes list \<Rightarrow> recv_step list \<Rightarrow> bool" where
  "arrives crc rid timeout now ds steps \<longleftrightarrow>
     list_all (in_time timeout now) steps
     \<and> (\<forall>s \<in> set steps. \<exists>d. rv_event s = Datagram d \<and> (d \<in> set ds \<or> other_reply crc rid d))
     \<and> (\<forall>d \<in> set ds. \<exists>s \<in> set steps. rv_event s = Datagram d)"

lemma reply_chunk:
  assumes "encode_udp_chunks crc frame mp = Ok ds" "mp \<le> 65503" "mp < length frame" "d \<in> set ds"
  shows "take RECV_BUF_LEN d = d" and "decode_udp_single_chunk crc d = Ok None"
proof -
  let ?cs = "chunks_of mp frame"
  from assms(1) obtain fh p where n: "length ?cs \<le> 65535" and mp: "256 \<le> mp"
    and ds: "ds = map (datagram_of crc fh frame ?cs) [0 ..< length ?cs]"
    by (rule encode_udp_chunks_OkD)
  from assms(4) ds obtain i where i: "i < length ?cs" and d: "d = datagram_of crc fh frame ?cs i" by auto
  have li: "length (?cs ! i) \<le> mp" using i by (meson chunks_of_length_le nth_mem)
  then have len: "length (?cs ! i) \<le> 65535" using assms(2) by simp
  have "length d = 32 + length (?cs ! i)"
    by (simp add: d datagram_of_def UDP_CHUNK_HEADER_LEN_def)
  then show "take RECV_BUF_LEN d = d" using li assms(2) by (simp add: RECV_BUF_LEN_def)
  have "length frame \<le> mp * length ?cs" using mp by (intro length_chunks_of_ge) simp
  then have "\<not> length ?cs \<le> 1" using assms(3) by (auto simp: le_Suc_eq)
  then have "(word_of_nat (length ?cs) :: u16) \<noteq> 1"
    using n unat_word_of_length [of "length ?cs", where ?'a = 16] by (auto simp del: unat_of_nat)
  with datagram_decode [OF i n len, of crc fh frame] show "decode_udp_single_chunk crc d = Ok None"
    by (simp add: d decode_udp_single_chunk_def decode_udp_single_chunk_ref_def chunk_header_fields)
qed

lemma recv_loop_collects:
  assumes enc: "encode_udp_chunks crc frame mp = Ok ds" "mp \<le> 65503" "mp < length frame"
    and dec: "decode_frame frame = Ok (fh, p)" and rid: "fh_request_id fh = rid"
  shows "list_all (in_time timeout now) steps \<Longrightarrow>
    \<forall>s \<in> set steps. \<exists>d. rv_event s = Datagram d \<and> (d \<in> set ds \<or> other_reply crc rid d) \<Longrightarrow>
    set xs \<subseteq> set ds \<Longrightarrow>
    \<forall>d \<in> set ds. d \<in> set xs \<or> (\<exists>s \<in> set steps. rv_event s = Datagram d) \<Longrightarrow> \<not> set ds \<subseteq> set xs \<Longrightarrow>
    ra = None \<and> xs = [] \<or> (\<exists>r. ra = Some (feed crc r xs) \<and> ra_groups r rid = None \<and> now + timeout \<le> ra_deadline (feed crc r xs)) \<Longrightarrow>
    \<exists>rest. recv_loop crc rid timeout (now + timeout) ra steps = (Some (Ok frame), rest)"
proof (induction steps arbitrary: ra xs)
  case Nil
  then show ?case by auto
next
  case (Cons s ss)
  from Cons.prems(1,6) have wait: "keep_waiting (rv_checked s) (now + timeout) ra"
    by (auto simp: keep_waiting_def in_time_def reassembler_is_expired_def)
  from Cons.prems(2) obtain d where d: "rv_event s = Datagram d" "d \<in> set ds \<or> other_reply crc rid d" by auto
  show ?case
  proof (cases "d \<in> set ds")
    case True
    note chunk = reply_chunk [OF enc True]
    obtain r where ra: "(case ra of Some r \<Rightarrow> r | None \<Rightarrow> reassembler_new (rv_received s) timeout) = feed crc r xs"
      and r: "ra_groups r rid = None" "now + timeout \<le> ra_deadline (feed crc r xs)"
    proof -
      from Cons.prems(6) show ?thesis
      proof
        assume "ra = None \<and> xs = []"
        then show ?thesis using Cons.prems(1) that [of "reassembler_new (rv_received s) timeout"]
          by (simp add: reassembler_new_def in_time_def)
      next
        assume "\<exists>r. ra = Some (feed crc r xs) \<and> ra_groups r rid = None \<and> now + timeout \<le> ra_deadline (feed crc r xs)"
        then show ?thesis using that by auto
      qed
    qed
    have "mp \<le> 65535" using enc(2) by simp
    moreover have "\<forall>x \<in> set xs. \<forall>h. udp_header_decode x = Ok h \<longrightarrow> uh_request_id h = fh_request_id fh \<longrightarrow> x \<in> set ds"
      using Cons.prems(3) by auto
    ultimately have ins: "snd (reassembler_insert crc (feed crc r xs) d) =
        Ok (if set ds \<subseteq> insert d (set xs) then Some frame else None)"
      using feed_then_insert [OF enc(1) _ dec _ _ True] r(1) rid by blast
    have acc: "answers rid frame = Ok True" using dec rid by (simp add: answers_def)
    show ?thesis
    proof (cases "set ds \<subseteq> insert d (set xs)")
      case True
      with ins obtain r' where step: "reassembler_insert crc (feed crc r xs) d = (r', Ok (Some frame))"
        by (cases "reassembler_insert crc (feed crc r xs) d") simp
      show ?thesis using wait d(1) chunk ra acc step by simp
    next
      case False
      with ins have step: "reassembler_insert crc (feed crc r xs) d = (feed crc r (xs @ [d]), Ok None)"
        by (simp add: prod_eq_iff)
      have "recv_loop crc rid timeout (now + timeout) ra (s # ss) =
          recv_loop crc rid timeout (now + timeout) (Some (feed crc r (xs @ [d]))) ss"
        using wait d(1) chunk ra step by (simp del: feed_snoc)
      moreover have "\<exists>rest. recv_loop crc rid timeout (now + timeout) (Some (feed crc r (xs @ [d]))) ss = (Some (Ok frame), rest)"
      proof (rule Cons.IH [of "xs @ [d]"])
        show "list_all (in_time timeout now) ss" using Cons.prems(1) by simp
        show "\<forall>s \<in> set ss. \<exists>d. rv_event s = Datagram d \<and> (d \<in> set ds \<or> other_reply crc rid d)"
          using Cons.prems(2) by simp
        show "set (xs @ [d]) \<subseteq> set ds" using Cons.prems(3) \<open>d \<in> set ds\<close> by simp
        show "\<forall>d' \<in> set ds. d' \<in> set (xs @ [d]) \<or> (\<exists>s \<in> set ss. rv_event s = Datagram d')"
          using Cons.prems(4) d(1) by fastforce
        show "\<not> set ds \<subseteq> set (xs @ [d])" using False by simp
        have "now + timeout \<le> ra_deadline (feed crc r (xs @ [d]))" using r(2) by simp
        then show "Some (feed crc r (xs @ [d])) = None \<and> xs @ [d] = [] \<or>
            (\<exists>r'. Some (feed crc r (xs @ [d])) = Some (feed crc r' (xs @ [d])) \<and> ra_groups r' rid = None
              \<and> now + timeout \<le> ra_deadline (feed crc r' (xs @ [d])))"
          using r(1) by blast
      qed
      ultimately show ?thesis by simp
    qed
  next
    case False
    with d(2) obtain f h q where "take RECV_BUF_LEN d = d" "decode_udp_single_chunk crc d = Ok (Some f)"
      "decode_frame f = Ok (h, q)" "fh_request_id h \<noteq> rid"
      by (auto simp: other_reply_def)
    then have "recv_loop crc rid timeout (now + timeout) ra (s # ss) = recv_loop crc rid timeout (now + timeout) ra ss"
      using wait d(1) by (simp add: answers_def)
    moreover have "\<exists>rest. recv_loop crc rid timeout (now + timeout) ra ss = (Some (Ok frame), rest)"
      using Cons.prems False d(1) by (intro Cons.IH [of xs]) auto
    ultimately show ?thesis by simp
  qed
qed

lemma recv_loop_single:
  assumes enc: "encode_udp_single_chunk crc frame = Ok d0" "length d0 \<le> RECV_BUF_LEN"
    and dec: "decode_frame frame = Ok (fh, p)" and rid: "fh_request_id fh = rid"
  shows "list_all (in_time timeout now) steps \<Longrightarrow>
    \<forall>s \<in> set steps. \<exists>d. rv_event s = Datagram d \<and> (d = d0 \<or> other_reply crc rid d) \<Longrightarrow>
    \<exists>s \<in> set steps. rv_event s = Datagram d0 \<Longrightarrow>
    \<exists>rest. recv_loop crc rid timeout (now + timeout) None steps = (Some (Ok frame), rest)"
proof (induction steps)
  case (Cons s ss)
  from Cons.prems(1) have wait: "keep_waiting (rv_checked s) (now + timeout) None"
    by (auto simp: keep_waiting_def in_time_def)
  from Cons.prems(2) obtain d where d: "rv_event s = Datagram d" "d = d0 \<or> other_reply crc rid d" by auto
  show ?case
  proof (cases "d = d0")
    case True
    then show ?thesis
      using wait d(1) enc(2) decode_encode_single [OF enc(1)] dec rid
      by (simp add: decode_udp_single_chunk_def answers_def)
  next
    case False
    with d(2) have "recv_loop crc rid timeout (now + timeout) None (s # ss) = recv_loop crc rid timeout (now + timeout) None ss"
      using wait d(1) by (auto simp: other_reply_def answers_def)
    with Cons False d(1) show ?thesis by auto
  qed
qed simp

lemma recv_frame_arrives:
  assumes "reply_datagrams crc frame mp = Ok ds" "mp \<le> 65503"
    and "decode_frame frame = Ok (fh, p)" "fh_request_id fh = rid" "arrives crc rid timeout now ds steps"
  shows "\<exists>rest. recv_frame crc rid timeout now steps = (Some (Ok frame), rest)"
proof (cases "length frame \<le> mp")
  case True
  with assms(1) obtain d where d: "encode_udp_single_chunk crc frame = Ok d" "ds = [d]"
    by (auto simp: reply_datagrams_def result_simps)
  from d(1) have "length d = 32 + length frame"
    by (rule encode_single_OkD) (simp add: UDP_CHUNK_HEADER_LEN_def)
  with True assms(2) have "length d \<le> RECV_BUF_LEN" by (simp add: RECV_BUF_LEN_def)
  from recv_loop_single [OF d(1) this assms(3,4)] assms(5) d(2) show ?thesis
    by (auto simp: arrives_def recv_frame_def)
next
  case False
  with assms(1) have enc: "encode_udp_chunks crc frame mp = Ok ds" by (simp add: reply_datagrams_def)
  from enc have "ds \<noteq> []" by (rule encode_udp_chunks_OkD) auto
  with recv_loop_collects [OF enc assms(2) _ assms(3,4), of timeout now steps "[]" None] False assms(5)
  show ?thesis by (simp add: arrives_def recv_frame_def)
qed

section \<open>Queries\<close>

lemma empty_query_datagram: "\<exists>d. encode_udp_single_chunk_from_parts crc QueryRequest rid [] = Ok d"
  by (simp add: encode_udp_single_chunk_from_parts_def u32_try_from_def Let_def FRAME_HEADER_LEN_def)

lemma send_empty_query_ok:
  "\<forall>d. send d = None \<Longrightarrow> \<exists>d. send_empty_query crc send rid = ([d], Ok ())
     \<and> encode_udp_single_chunk_from_parts crc QueryRequest rid [] = Ok d"
  using empty_query_datagram [of crc rid] by (auto simp: send_empty_query_def)

lemma query_connected_current:
  assumes "\<forall>d. send d = None"
    and "recv_frame crc (un_next_request_id node) timeout now steps = (Some (Ok f), rest)"
    and "parse_runtime_payload_frame cc f = Ok rt" "\<not> metadata_outdated rt (un_metadata node)"
  shows "\<exists>d. encode_udp_single_chunk_from_parts crc QueryRequest (un_next_request_id node) [] = Ok d
    \<and> query_connected crc cc send timeout now now' node steps =
    ([d], node\<lparr>un_next_request_id := un_next_request_id node + 1\<rparr>, Some (Ok (to_snapshot rt (un_metadata node))), rest)"
  using send_empty_query_ok [OF assms(1), where crc = crc and rid = "un_next_request_id node"] assms(2-4)
  by (auto simp: query_connected_def next_id_def recv_query_runtime_def query_runtime_def)

lemma query_connected_refreshes:
  assumes "\<forall>d. send d = None"
    and "recv_frame crc (un_next_request_id node) timeout now steps = (Some (Ok f), rest)"
    and "parse_runtime_payload_frame cc f = Ok rt" "metadata_outdated rt (un_metadata node)"
    and "exchange_handshake crc cc send (un_next_request_id node + 1) timeout now' (un_max_payload node) rest
      = (out', Some (Ok m), rest')"
  shows "\<exists>out. query_connected crc cc send timeout now now' node steps =
    (out, node\<lparr>un_next_request_id := un_next_request_id node + 2, un_metadata := m\<rparr>,
     Some (Ok (to_snapshot rt m)), rest')"
  using send_empty_query_ok [OF assms(1), where crc = crc and rid = "un_next_request_id node"] assms(2-5)
  by (auto simp: query_connected_def next_id_def recv_query_runtime_def query_runtime_def refresh_metadata_def add.commute)

lemma send_all_ok: "\<forall>d. send d = None \<Longrightarrow> send_all send ds = (ds, Ok ())"
  by (induction ds) simp_all

lemma exchange_handshake_ok:
  assumes "\<forall>d. send d = None" "build_handshake_request_frame cc rid = Ok req"
    and "reply_datagrams crc req mp = Ok ds"
    and "recv_frame crc rid timeout now steps = (Some (Ok f), rest)" "parse_handshake_reply cc f = Ok m"
  shows "exchange_handshake crc cc send rid timeout now mp steps = (ds, Some (Ok m), rest)"
  using assms(2-5) by (simp add: exchange_handshake_def send_frame_def send_all_ok [OF assms(1)]
      reply_datagrams_def split: if_splits)

lemma parse_handshake_reply_metadata:
  "parse_metadata_payload_frame cc f = Ok m \<Longrightarrow> parse_handshake_reply cc f = Ok m"
  by (simp add: parse_handshake_reply_def)

text \<open>A query never reports a snapshot that is built from anything but a runtime payload.\<close>

lemma query_connected_Ok:
  assumes "query_connected crc cc send timeout now now' node steps = (out, node', Some (Ok s), rest)"
  shows "\<exists>f h p rt. decode_frame f = Ok (h, p) \<and> fh_request_id h = un_next_request_id node
    \<and> parse_runtime_payload_frame cc f = Ok rt \<and> s = to_snapshot rt (un_metadata node')
    \<and> (metadata_outdated rt (un_metadata node) \<or> un_metadata node' = un_metadata node)"
proof -
  from assms obtain rt mid where r: "recv_query_runtime crc cc (un_next_request_id node) timeout now steps = (Some (Ok rt), mid)"
    and s: "s = to_snapshot rt (un_metadata node')"
    and m: "metadata_outdated rt (un_metadata node) \<or> un_metadata node' = un_metadata node"
    by (auto simp: query_connected_def next_id_def Let_def map_option_eq_Some result_simps
        split: prod.splits sum.splits option.splits if_splits)
  from r obtain f where f: "recv_frame crc (un_next_request_id node) timeout now steps = (Some (Ok f), mid)"
    and q: "query_runtime cc f = Ok rt"
    by (cases "recv_frame crc (un_next_request_id node) timeout now steps")
      (auto simp: recv_query_runtime_def and_then_Ok_iff)
  from q have "parse_runtime_payload_frame cc f = Ok rt"
    by (auto simp: query_runtime_def split: sum.splits)
  with recv_loop_safe [OF f [unfolded recv_frame_def]] s m show ?thesis by blast
qed

section \<open>Properties\<close>




definition demo_client :: client_codecs where
  "demo_client = \<lparr>cl_handshake_to_vec = (\<lambda>r. Ok [hr_version r]),
     cl_query_to_vec = (\<lambda>r. Ok [qr_version r]), cl_response_from_slice = (\<lambda>_. Err ''none''),
     cl_metadata_from_bytes = (\<lambda>_. Ok (metadata_from_snapshot sample_snapshot)),
     cl_runtime_from_bytes = (\<lambda>_. Ok (runtime_from_snapshot sample_snapshot))\<rparr>"

definition demo_node :: ConnectedUdpNode where
  "demo_node = \<lparr>un_addr = V4 0x7f000001 30000, un_metadata = metadata_from_snapshot sample_snapshot,
     un_max_payload = 1140, un_next_request_id = 9\<rparr>"

lemma demo_reply:
  "\<exists>d. reply_datagrams sum_crc (encode_transport_frame RuntimePayload 9 [3, 4]) 1140 = Ok [d]"
proof -
  let ?f = "encode_transport_frame RuntimePayload 9 [3, 4]"
  have "length ?f = 20" by (simp add: length_encode_transport_frame FRAME_HEADER_LEN_def)
  with encode_single_Ok [OF decode_encode_transport_frame, of "[3, 4]" RuntimePayload 9 sum_crc]
  show ?thesis by (simp add: reply_datagrams_def)
qed

lemma demo_runtime_frame:
  "parse_runtime_payload_frame demo_client (encode_transport_frame RuntimePayload 9 [3, 4]) =
    Ok (runtime_from_snapshot sample_snapshot)"
  using parse_runtime_frame [OF decode_encode_transport_frame, of "[3, 4]" demo_client 9]
  by (simp add: demo_client_def decode_runtime_payload_def decode_rkyv_payload_def)

lemma demo_current: "\<not> metadata_outdated (runtime_from_snapshot s) (metadata_from_snapshot s)"
  by (simp add: metadata_outdated_def runtime_from_snapshot_def)


end
