(* ===== verification/Tcp_Client.thy ===== *)
theory Tcp_Client
  imports Client_Transport Tcp_Server Net_Text
begin

text \<open>
  The TCP connection of the client, \<^verbatim>\<open>crates/client-backend/src/tcp_client.rs\<close>. The stream is
  what the server will send and how the connection ends, as in the server's theory;
  \<open>write\<close> gives the error of writing a frame, if any (\<open>write_all\<close> or \<open>flush\<close>). Lock
  poisoning is outside the model.
\<close>

section \<open>Data\<close>

record ConnectedTcpNode =
  tn_addr :: SocketAddr
  tn_metadata :: HostMetadata

definition tcp_hostname :: "ConnectedTcpNode \<Rightarrow> string" where
  "tcp_hostname n = hm_hostname (tn_metadata n)"

definition tcp_gres_num :: "ConnectedTcpNode \<Rightarrow> u8" where
  "tcp_gres_num n = word_of_nat (min (length (hm_gres (tn_metadata n))) 255)"

primrec io_error_text :: "io_error \<Rightarrow> string" where
  "io_error_text UnexpectedEof = ''failed to fill whole buffer''"
| "io_error_text ResetByPeer = ''Connection reset by peer (os error 104)''"
| "io_error_text (IoFailed e) = e"
| "io_error_text (InvalidData e) = ''invalid data''"

section \<open>Frames\<close>

definition read_frame :: "tcp_stream \<Rightarrow> ClientError + (bytes \<times> tcp_stream)" where
  "read_frame s =
     and_then (map_err (\<lambda>e. Io (''read frame header failed: '' @ io_error_text e)) (read_exact FRAME_HEADER_LEN s))
       (\<lambda>(header_bytes, s).
     and_then (map_err (\<lambda>e. Decode (HeaderCause e)) (frame_header_decode header_bytes)) (\<lambda>header.
       let payload_len = unat (fh_payload_len header) in
       if payload_len > 0
       then map_ok (\<lambda>(payload, s). (header_bytes @ payload, s))
              (map_err (\<lambda>e. Io (''read frame payload failed: '' @ io_error_text e)) (read_exact payload_len s))
       else Ok (header_bytes, s)))"

definition parse_handshake_reply :: "client_codecs \<Rightarrow> bytes \<Rightarrow> ClientError + HostMetadata" where
  "parse_handshake_reply cc frame =
     (case parse_metadata_payload_frame cc frame of
        Ok metadata \<Rightarrow> Ok metadata
      | Err (WrongFrameType MetadataPayload FrameType.QueryResponse) \<Rightarrow>
          and_then (map_err Transport (parse_query_response_error_frame cc frame)) (\<lambda>c. case c of
            Some e \<Rightarrow> Err (Server (error_to_string e))
          | None \<Rightarrow> Err (Server ''server returned empty QueryResponse instead of MetadataPayload''))
      | Err e \<Rightarrow> Err (Transport e))"

definition parse_query_reply ::
    "client_codecs \<Rightarrow> bytes \<Rightarrow> HostMetadata \<Rightarrow> ClientError + ServerGresSnapshot" where
  "parse_query_reply cc frame metadata =
     (case parse_runtime_payload_frame cc frame of
        Ok runtime \<Rightarrow> Ok (to_snapshot runtime metadata)
      | Err (WrongFrameType RuntimePayload FrameType.QueryResponse) \<Rightarrow>
          and_then (map_err Transport (parse_query_response_error_frame cc frame)) (\<lambda>c. case c of
            Some e \<Rightarrow> Err (Server (error_to_string e))
          | None \<Rightarrow> Err (Server ''server returned empty QueryResponse instead of RuntimePayload''))
      | Err (WrongFrameType RuntimePayload Disconnect) \<Rightarrow>
          let reason = (case parse_disconnect_reason_frame frame of Ok r \<Rightarrow> r | Err _ \<Rightarrow> []) in
          if reason = [] then Err (Server ''peer disconnected'')
          else Err (Server (''peer disconnected: '' @ reason))
      | Err e \<Rightarrow> Err (Transport e))"

section \<open>Connecting and querying\<close>

definition write_frame ::
    "(bytes \<Rightarrow> string option) \<Rightarrow> string \<Rightarrow> bytes \<Rightarrow> ClientError + unit" where
  "write_frame write what frame =
     (case write frame of Some e \<Rightarrow> Err (Io (''send '' @ what @ '' failed: '' @ e)) | None \<Rightarrow> Ok ())"

definition exchange_handshake ::
    "client_codecs \<Rightarrow> (bytes \<Rightarrow> string option) \<Rightarrow> string \<Rightarrow> u64 \<Rightarrow> tcp_stream
      \<Rightarrow> bytes list \<times> (ClientError + (HostMetadata \<times> tcp_stream))" where
  "exchange_handshake cc write what rid s =
     (case build_handshake_request_frame cc rid of
        Err e \<Rightarrow> ([], Err (Transport e))
      | Ok frame \<Rightarrow>
          ([frame], and_then (write_frame write what frame) (\<lambda>_.
             and_then (read_frame s) (\<lambda>(response, s).
               map_ok (\<lambda>m. (m, s)) (parse_handshake_reply cc response)))))"

definition refresh_metadata ::
    "client_codecs \<Rightarrow> (bytes \<Rightarrow> string option) \<Rightarrow> tcp_stream
      \<Rightarrow> bytes list \<times> (ClientError + (HostMetadata \<times> tcp_stream))" where
  "refresh_metadata cc write s = exchange_handshake cc write ''metadata refresh'' 3 s"

definition connect_node ::
    "client_codecs \<Rightarrow> string option \<Rightarrow> (bytes \<Rightarrow> string option) \<Rightarrow> SocketAddr \<Rightarrow> tcp_stream
      \<Rightarrow> bytes list \<times> (ClientError + (ConnectedTcpNode \<times> tcp_stream))" where
  "connect_node cc connect write addr s =
     (case connect of
        Some e \<Rightarrow> ([], Err (Io (''connect '' @ addr_to_string addr @ '' failed: '' @ e)))
      | None \<Rightarrow>
          map_prod id (map_ok (\<lambda>(m, s). (\<lparr>tn_addr = addr, tn_metadata = m\<rparr>, s)))
            (exchange_handshake cc write ''handshake'' 1 s))"

text \<open>An answer that is not a runtime payload ends the query with what \<open>parse_query_reply\<close> makes
  of it. The result carries the rest of the stream, which only a successful query leaves in
  a usable state.\<close>

definition query_connected ::
    "client_codecs \<Rightarrow> (bytes \<Rightarrow> string option) \<Rightarrow> ConnectedTcpNode \<Rightarrow> tcp_stream
      \<Rightarrow> bytes list \<times> ConnectedTcpNode \<times> (ClientError + (ServerGresSnapshot \<times> tcp_stream))" where
  "query_connected cc write node s =
     (case build_query_request_frame cc 2 of
        Err e \<Rightarrow> ([], node, Err (Transport e))
      | Ok frame \<Rightarrow>
          (case and_then (write_frame write ''query'' frame) (\<lambda>_. read_frame s) of
             Err e \<Rightarrow> ([frame], node, Err e)
           | Ok (response, s) \<Rightarrow>
               (case parse_runtime_payload_frame cc response of
                  Err _ \<Rightarrow>
                    ([frame], node, map_ok (\<lambda>x. (x, s)) (parse_query_reply cc response (tn_metadata node)))
                | Ok runtime \<Rightarrow>
                    if rs_metadata_hash runtime \<noteq> 0 \<and> rs_metadata_hash runtime \<noteq> metadata_hash (tn_metadata node)
                    then (case refresh_metadata cc write s of
                        (out, Err e) \<Rightarrow> (frame # out, node, Err e)
                      | (out, Ok (m, s)) \<Rightarrow>
                          (frame # out, node\<lparr>tn_metadata := m\<rparr>, Ok (to_snapshot runtime m, s)))
                    else ([frame], node, Ok (to_snapshot runtime (tn_metadata node), s)))))"

definition disconnect :: "(bytes \<Rightarrow> string option) \<Rightarrow> string \<Rightarrow> bytes list \<times> (ClientError + unit)" where
  "disconnect write reason =
     (case build_disconnect_frame 0 reason of
        Err e \<Rightarrow> ([], Err (Transport e))
      | Ok frame \<Rightarrow> ([frame], write_frame write ''disconnect'' frame))"

section \<open>Reading replies\<close>

lemma read_frame_append:
  assumes "decode_frame f = Ok (h, p)"
  shows "read_frame \<lparr>st_data = f @ rest, st_end = e\<rparr> = Ok (f, \<lparr>st_data = rest, st_end = e\<rparr>)"
proof -
  from assms have f: "f = frame_header_encode h @ p" and len: "unat (fh_payload_len h) = length p"
    and v: "fh_version h = PROTOCOL_VERSION"
    by (simp_all add: decode_frame_Ok_iff)
  have "frame_header_decode (frame_header_encode h) = Ok h"
    using frame_header_decode_encode [of h "[]"] v by simp
  then show ?thesis
    by (cases "p = []") (simp_all add: read_frame_def read_exact_def f len)
qed

text \<open>What the client reads, the server's frame reader reads too, and conversely, up to the
  treatment of a connection that ends between two frames.\<close>

lemma read_frame_server: "read_frame s = Ok (f, s') \<longleftrightarrow> read_tcp_frame s = Ok (Some (f, s'))"
  by (auto simp: read_frame_def read_tcp_frame_def read_exact_def result_simps Let_def
      split: if_splits stream_end.splits io_error.splits)

lemma read_frame_valid: "read_frame s = Ok (f, s') \<Longrightarrow> \<exists>h p. decode_frame f = Ok (h, p) \<and> st_data s = f @ st_data s'"
  using read_tcp_frame_valid by (auto simp: read_frame_server)

end
