(* ===== verification/End_To_End.thy ===== *)
theory End_To_End
  imports Udp_Client Tcp_Client
begin

text \<open>
  The two halves of the system put together: the client's builders and parsers against the
  server's handlers, over a TCP stream and over UDP datagrams. The codecs of both sides are
  parameters; \<open>codecs_agree\<close> says that what one side writes the other reads back, as serde
  and rkyv document.
\<close>

section \<open>Codecs of the two sides\<close>

definition codecs_agree :: "server_codecs \<Rightarrow> client_codecs \<Rightarrow> bool" where
  "codecs_agree sc cc \<longleftrightarrow>
     (\<forall>r bs. cl_handshake_to_vec cc r = Ok bs \<longrightarrow> sc_handshake_from_slice sc bs = Ok r)
     \<and> (\<forall>r bs. cl_query_to_vec cc r = Ok bs \<longrightarrow> sc_query_from_slice sc bs = Ok r)
     \<and> (\<forall>r bs. sc_response_to_vec sc r = Ok bs \<longrightarrow> cl_response_from_slice cc bs = Ok r)
     \<and> rkyv_codec (sc_metadata_to_bytes sc) (cl_metadata_from_bytes cc)
     \<and> rkyv_codec (sc_runtime_to_bytes sc) (cl_runtime_from_bytes cc)"

lemma client_handshake_accepted:
  assumes "codecs_agree (tx_codecs ctx) cc" "build_handshake_request_frame cc rid = Ok req"
  shows "\<exists>p. handle_frame ctx env c req = handle_handshake ctx env c rid p \<and> check_handshake ctx p = Ok ()"
proof -
  from assms(2) obtain p where p: "cl_handshake_to_vec cc handshake_request_current = Ok p"
    and f: "encode_bytes_frame HandshakeRequest rid p = Ok req"
    by (auto simp: build_handshake_request_frame_def encode_json_frame_def result_simps)
  from encode_bytes_frame_decode [OF f] have "handle_frame ctx env c req = handle_handshake ctx env c rid p"
    by (simp add: handle_frame_def decode_transport_frame_def handle_decoded_frame_def frame_header_new_def)
  moreover have "check_handshake ctx p = Ok ()"
    using assms(1) p by (auto simp: codecs_agree_def check_handshake_def handshake_request_validate_def
        handshake_request_current_def validate_protocol_version_def check_version_def)
  ultimately show ?thesis by blast
qed

lemma client_query_accepted:
  assumes "codecs_agree (tx_codecs ctx) cc" "build_query_request_frame cc rid = Ok req"
  shows "\<exists>p. handle_frame ctx env c req = handle_query ctx env c rid p \<and> query_request_id ctx rid p = Ok rid"
proof -
  from assms(2) obtain p where p: "cl_query_to_vec cc \<lparr>qr_version = PROTOCOL_VERSION, qr_request_id = rid\<rparr> = Ok p"
    and f: "encode_bytes_frame QueryRequest rid p = Ok req"
    by (auto simp: build_query_request_frame_def encode_json_frame_def result_simps)
  from encode_bytes_frame_decode [OF f] have "handle_frame ctx env c req = handle_query ctx env c rid p"
    by (simp add: handle_frame_def decode_transport_frame_def handle_decoded_frame_def frame_header_new_def)
  moreover have "query_request_id ctx rid p = Ok rid"
    using assms(1) p by (auto simp: codecs_agree_def query_request_id_def
        validate_protocol_version_def check_version_def)
  ultimately show ?thesis by blast
qed

text \<open>\<open>replies ctx env c req entry response\<close>: the server, with cache \<open>c\<close>, finds \<open>entry\<close> and answers
  the frame \<open>req\<close> with \<open>response\<close>.\<close>

definition replies ::
    "TransportContext \<Rightarrow> lookup_env \<Rightarrow> GresCache \<Rightarrow> bytes \<Rightarrow> CacheEntry \<Rightarrow> bytes \<Rightarrow> bool" where
  "replies ctx env c req entry response \<longleftrightarrow> cache_wf c
     \<and> (\<exists>c'. cache_lookup ctx env c = (c', Some (Ok entry)) \<and> handle_frame ctx env c req = (c', Some (Ok response)))"

lemma handshake_reply_read:
  assumes "codecs_agree (tx_codecs ctx) cc" "build_handshake_request_frame cc rid = Ok req"
    and "replies ctx env c req entry response"
  shows "\<exists>n p. decode_frame response = Ok (frame_header_new MetadataPayload rid n, p)
    \<and> parse_metadata_payload_frame cc response = Ok (metadata_from_snapshot (ce_snapshot entry))"
proof -
  from client_handshake_accepted [OF assms(1,2)] obtain q
    where h: "handle_frame ctx env c req = handle_handshake ctx env c rid q" "check_handshake ctx q = Ok ()" by blast
  have rk: "rkyv_codec (sc_metadata_to_bytes (tx_codecs ctx)) (cl_metadata_from_bytes cc)"
    using assms(1) by (simp add: codecs_agree_def)
  from assms(3) obtain c' where l: "cache_lookup ctx env c = (c', Some (Ok entry))"
    and "handle_handshake ctx env c rid q = (c', Some (Ok response))" by (auto simp: replies_def h)
  from handshake_answer_decodes [OF h(2) l rk this(2)] show ?thesis
    by (auto simp: parse_metadata_frame)
qed

lemma query_reply_read:
  assumes "codecs_agree (tx_codecs ctx) cc" "build_query_request_frame cc rid = Ok req"
    and "replies ctx env c req entry response"
  shows "\<exists>n p. decode_frame response = Ok (frame_header_new RuntimePayload rid n, p)
    \<and> parse_runtime_payload_frame cc response = Ok (runtime_from_snapshot (ce_snapshot entry))"
proof -
  from client_query_accepted [OF assms(1,2)] obtain q
    where h: "handle_frame ctx env c req = handle_query ctx env c rid q" "query_request_id ctx rid q = Ok rid" by blast
  have rk: "rkyv_codec (sc_runtime_to_bytes (tx_codecs ctx)) (cl_runtime_from_bytes cc)"
    using assms(1) by (simp add: codecs_agree_def)
  from assms(3) obtain c' where l: "cache_lookup ctx env c = (c', Some (Ok entry))"
    and "handle_query ctx env c rid q = (c', Some (Ok response))" by (auto simp: replies_def h)
  from query_answer_decodes [OF h(2) l rk this(2)] show ?thesis
    by (auto simp: parse_runtime_frame)
qed

lemma entry_rebuilt:
  assumes "replies ctx env c req entry response" "distinct (map gi_index (ss_gres (ce_snapshot entry)))"
  shows "to_snapshot (runtime_from_snapshot (ce_snapshot entry)) (metadata_from_snapshot (ce_snapshot entry)) = ce_snapshot entry"
proof -
  from assms(1) have "clean_entry entry" by (auto simp: replies_def dest: lookup_entry(2))
  with to_snapshot_split [OF assms(2)] show ?thesis by (simp add: clean_entry_def)
qed

lemma handshake_exchange_read:
  assumes "codecs_agree (tx_codecs ctx) cc" "build_handshake_request_frame cc rid = Ok req"
    and "replies ctx env c req entry response"
  shows "Tcp_Client.exchange_handshake cc (\<lambda>_. None) what rid \<lparr>st_data = response @ rest, st_end = e\<rparr> =
    ([req], Ok (metadata_from_snapshot (ce_snapshot entry), \<lparr>st_data = rest, st_end = e\<rparr>))"
  using handshake_reply_read [OF assms] assms(2)
  by (auto simp: Tcp_Client.exchange_handshake_def write_frame_def read_frame_append Tcp_Client.parse_handshake_reply_def)

section \<open>A pair of agreeing codecs\<close>

definition query_two :: QueryRequest where
  "query_two = \<lparr>qr_version = PROTOCOL_VERSION, qr_request_id = 2\<rparr>"

definition pair_ctx :: TransportContext where
  "pair_ctx = \<lparr>tx_codecs = demo_codecs\<lparr>sc_query_from_slice := (\<lambda>_. Ok query_two),
     sc_response_to_vec := (\<lambda>r. if r = query_response_error 2 Internal then Ok [6] else Err ''other'')\<rparr>, tx_ttl_ms = 40\<rparr>"

definition pair_client :: client_codecs where
  "pair_client = demo_client\<lparr>cl_query_to_vec := (\<lambda>r. if r = query_two then Ok [7] else Err ''other''),
     cl_response_from_slice := (\<lambda>_. Ok (query_response_error 2 Internal))\<rparr>"

lemma distinct_sample: "distinct (map gi_index (ss_gres (omit_process_commands sample_snapshot)))"
  by (simp add: sample_snapshot_def omit_process_commands_def)

lemma pair_agrees: "codecs_agree (tx_codecs pair_ctx) pair_client"
  by (simp add: codecs_agree_def pair_ctx_def pair_client_def demo_codecs_def demo_client_def rkyv_codec_def)

definition pair_entry :: CacheEntry where
  "pair_entry = \<lparr>ce_snapshot = omit_process_commands sample_snapshot, ce_collected_at = 4\<rparr>"

lemma pair_lookup:
  "cache_lookup pair_ctx demo_env gres_cache_new =
    (refreshed gres_cache_new (Ok sample_snapshot) (le_times demo_env), Some (Ok pair_entry))"
  using demo_lookup by (simp add: cache_lookup_def pair_ctx_def demo_ctx_def pair_entry_def)

lemma pair_request:
  "\<exists>req. build_query_request_frame pair_client 2 = Ok req"
  "\<exists>req. build_handshake_request_frame pair_client rid = Ok req"
  by (simp_all add: build_query_request_frame_def build_handshake_request_frame_def encode_json_frame_def
      encode_bytes_frame_def pair_client_def demo_client_def query_two_def u32_try_from_def)

lemma pair_replies:
  "build_query_request_frame pair_client 2 = Ok req \<Longrightarrow>
     \<exists>r. replies pair_ctx demo_env gres_cache_new req pair_entry r"
  "build_handshake_request_frame pair_client rid = Ok req \<Longrightarrow>
     \<exists>r. replies pair_ctx demo_env gres_cache_new req pair_entry r"
proof -
  have m: "metadata_from_snapshot (omit_process_commands sample_snapshot) = metadata_from_snapshot sample_snapshot"
    "runtime_from_snapshot (omit_process_commands sample_snapshot) = runtime_from_snapshot sample_snapshot"
    by simp_all
  assume "build_query_request_frame pair_client 2 = Ok req"
  from client_query_accepted [OF pair_agrees this] obtain q
    where "handle_frame pair_ctx demo_env gres_cache_new req = handle_query pair_ctx demo_env gres_cache_new 2 q"
      "query_request_id pair_ctx 2 q = Ok 2" by blast
  moreover have "\<exists>f. query_reply pair_ctx 2 (Ok pair_entry) = Ok f"
    by (simp add: query_reply_def runtime_payload_def encode_runtime_payload_def encode_rkyv_payload_def
        pair_ctx_def demo_codecs_def payload_len_from_archived_len_def MAX_PAYLOAD_LEN_def pair_entry_def m)
  ultimately show "\<exists>r. replies pair_ctx demo_env gres_cache_new req pair_entry r"
    using pair_lookup by (auto simp: replies_def gres_cache_new_wf handle_query_def with_entry_def cache_lookup_def)
next
  have m: "metadata_from_snapshot (omit_process_commands sample_snapshot) = metadata_from_snapshot sample_snapshot"
    by simp
  assume "build_handshake_request_frame pair_client rid = Ok req"
  from client_handshake_accepted [OF pair_agrees this] obtain q
    where "handle_frame pair_ctx demo_env gres_cache_new req = handle_handshake pair_ctx demo_env gres_cache_new rid q"
      "check_handshake pair_ctx q = Ok ()" by blast
  moreover have "\<exists>f. handshake_reply pair_ctx rid (Ok pair_entry) = Ok f"
    by (simp add: handshake_reply_def metadata_payload_def encode_metadata_payload_def encode_rkyv_payload_def
        pair_ctx_def demo_codecs_def payload_len_from_archived_len_def MAX_PAYLOAD_LEN_def pair_entry_def m)
  ultimately show "\<exists>r. replies pair_ctx demo_env gres_cache_new req pair_entry r"
    using pair_lookup by (auto simp: replies_def gres_cache_new_wf handle_handshake_def with_entry_def cache_lookup_def)
qed

section \<open>Properties\<close>

text \<open>C10: over TCP a client ends up with the server's snapshot. Whatever metadata the client has from
  an earlier handshake, its query returns exactly the snapshot that the server's cache
  holds when it answers: directly when the metadata is current, and after one more
  handshake, which the metadata hash in the reply triggers, when it is not. The hash must
  tell the two metadata apart and must not be the reserved value 0.\<close>

theorem tcp_query_end_to_end:
  fixes entry
  defines "meta \<equiv> metadata_from_snapshot (ce_snapshot entry)"
  assumes "codecs_agree (tx_codecs ctx) cc"
    and "build_query_request_frame cc 2 = Ok req2" "replies ctx env2 c2 req2 entry resp2"
    and "build_handshake_request_frame cc 3 = Ok req3" "replies ctx env3 c3 req3 entry3 resp3"
    and "metadata_from_snapshot (ce_snapshot entry3) = meta"
    and "metadata_hash meta \<noteq> 0" "metadata_hash (tn_metadata node) = metadata_hash meta \<longrightarrow> tn_metadata node = meta"
    and "distinct (map gi_index (ss_gres (ce_snapshot entry)))"
  shows "\<exists>out node'. Tcp_Client.query_connected cc (\<lambda>_. None) node
      \<lparr>st_data = resp2 @ (if tn_metadata node = meta then rest else resp3 @ rest), st_end = e\<rparr>
    = (out, node', Ok (ce_snapshot entry, \<lparr>st_data = rest, st_end = e\<rparr>)) \<and> tn_metadata node' = meta"
proof -
  from query_reply_read [OF assms(2-4)] obtain n p
    where dec: "decode_frame resp2 = Ok (frame_header_new RuntimePayload 2 n, p)"
      and rt: "parse_runtime_payload_frame cc resp2 = Ok (runtime_from_snapshot (ce_snapshot entry))" by blast
  have hash: "rs_metadata_hash (runtime_from_snapshot (ce_snapshot entry)) = metadata_hash meta"
    by (simp add: runtime_from_snapshot_def meta_def)
  have built: "to_snapshot (runtime_from_snapshot (ce_snapshot entry)) meta = ce_snapshot entry"
    unfolding meta_def using entry_rebuilt [OF assms(4,10)] .
  note third = handshake_exchange_read [OF assms(2,5,6), of "''metadata refresh''" rest e, unfolded assms(7)]
  show ?thesis
    using assms(3,8,9) third hash built
    by (auto simp: Tcp_Client.query_connected_def write_frame_def read_frame_append [OF dec] rt
        Tcp_Client.refresh_metadata_def)
qed

definition old_node :: ConnectedTcpNode where
  "old_node = \<lparr>tn_addr = V4 0x7f000001 30001,
     tn_metadata = \<lparr>hm_hostname = ''old'', hm_driver_version = None, hm_gres = []\<rparr>\<rparr>"

theorem tcp_query_end_to_end_witness:
  "\<exists>resp2 resp3 out node'. Tcp_Client.query_connected pair_client (\<lambda>_. None) old_node
      \<lparr>st_data = resp2 @ resp3, st_end = EndOfFile\<rparr>
    = (out, node', Ok (omit_process_commands sample_snapshot, \<lparr>st_data = [], st_end = EndOfFile\<rparr>))"
proof -
  obtain req2 resp2 where r2: "build_query_request_frame pair_client 2 = Ok req2"
    "replies pair_ctx demo_env gres_cache_new req2 pair_entry resp2"
    using pair_request(1) pair_replies(1) by blast
  obtain req3 resp3 where r3: "build_handshake_request_frame pair_client 3 = Ok req3"
    "replies pair_ctx demo_env gres_cache_new req3 pair_entry resp3"
    using pair_request(2) pair_replies(2) by blast
  have h: "metadata_hash (metadata_from_snapshot sample_snapshot) \<noteq> 0"
    "metadata_hash (tn_metadata old_node) \<noteq> metadata_hash (metadata_from_snapshot sample_snapshot)"
    by code_simp+
  then have "tn_metadata old_node \<noteq> metadata_from_snapshot sample_snapshot" by auto
  then show ?thesis
    using distinct_sample tcp_query_end_to_end [OF pair_agrees r2 r3, of old_node "[]" EndOfFile] h
    by (auto simp: pair_entry_def)
qed

lemma udp_query_delivered:
  assumes "codecs_agree (tx_codecs ctx) cc" "crc_streaming crc" "server_wf s" "cap_of env s peer \<le> 65503"
    and "encode_udp_single_chunk_from_parts crc QueryRequest (un_next_request_id node) [] = Ok d"
    and "cache_lookup ctx (ue_first_lookup env) (us_cache s) = (c', Some (Ok entry))"
    and "handle_query ctx (ue_first_lookup env) (us_cache s) (un_next_request_id node) [] = (c', Some (Ok response))"
    and "length response \<le> cap_of env s peer"
    and "udp_receive crc ctx env s peer d = Some (s', ds)"
    and "arrives crc (un_next_request_id node) timeout now ds steps"
    and "un_metadata node = metadata_from_snapshot (ce_snapshot entry)"
    and "distinct (map gi_index (ss_gres (ce_snapshot entry)))"
  shows "\<exists>node' rest. Udp_Client.query_connected crc cc (\<lambda>_. None) timeout now now' node steps =
    ([d], node', Some (Ok (ce_snapshot entry)), rest)"
proof -
  let ?rid = "un_next_request_id node" let ?cap = "cap_of env s peer"
  let ?q = "encode_transport_frame QueryRequest ?rid []"
  have q: "decode_frame ?q = Ok (frame_header_new QueryRequest ?rid 0, [])"
    by (simp add: decode_encode_transport_frame)
  have "encode_udp_single_chunk crc ?q = Ok d"
    using assms(5) encode_from_parts_eq [OF assms(2), of "[]" QueryRequest ?rid 0]
    by (simp add: encode_transport_frame_def FRAME_HEADER_LEN_def)
  then have serve: "udp_receive crc ctx env s peer d = serve_frame crc ctx env s peer ?q"
    by (simp add: udp_receive_def extract_frame_def decode_encode_single)
  have h: "handle_frame ctx (ue_first_lookup env) (us_cache s) ?q = (c', Some (Ok response))"
    using assms(7) handle_frame_fast(2) [OF q] by (simp add: frame_header_new_def)
  have "?cap \<le> 65535" using assms(4) by simp
  from serve_frame_sends [OF assms(2,3) this q _ h assms(8)]
  obtain s2 where "serve_frame crc ctx env s peer ?q = Some (s2, send_response crc env ?cap response)"
    by (auto simp: frame_header_new_def)
  with serve assms(9) have ds: "ds = send_response crc env ?cap response" by simp
  have wf: "cache_wf (us_cache s)" using assms(3) by (simp add: server_wf_def)
  have rk: "rkyv_codec (sc_runtime_to_bytes (tx_codecs ctx)) (cl_runtime_from_bytes cc)"
    using assms(1) by (simp add: codecs_agree_def)
  have "query_request_id ctx ?rid [] = Ok ?rid" by (simp add: query_request_id_def)
  from query_answer_decodes [OF this assms(6) rk assms(7)] obtain p n
    where dec: "decode_frame response = Ok (frame_header_new RuntimePayload ?rid n, p)"
      and rt: "parse_runtime_payload_frame cc response = Ok (runtime_from_snapshot (ce_snapshot entry))"
    by (auto simp: parse_runtime_frame)
  have "length response \<le> 65535" using assms(4,8) by simp
  from encode_single_Ok [OF dec this, of crc] ds assms(8) have "reply_datagrams crc response ?cap = Ok ds"
    by (simp add: reply_datagrams_def send_response_def)
  from recv_frame_arrives [OF this assms(4) dec _ assms(10)] obtain rest
    where "recv_frame crc ?rid timeout now steps = (Some (Ok response), rest)" by (auto simp: frame_header_new_def)
  moreover have "to_snapshot (runtime_from_snapshot (ce_snapshot entry)) (un_metadata node) = ce_snapshot entry"
    using lookup_entry(2) [OF wf assms(6)] to_snapshot_split [OF assms(12)] assms(11) by (simp add: clean_entry_def)
  ultimately show ?thesis
    using query_connected_current [where send = "\<lambda>_. None", OF _ _ rt] demo_current assms(5,11) by fastforce
qed


lemma pair_query:
  "handle_query pair_ctx demo_env gres_cache_new 9 [] =
    (refreshed gres_cache_new (Ok sample_snapshot) (le_times demo_env),
     Some (Ok (encode_transport_frame RuntimePayload 9 [3, 4])))"
proof -
  have "query_reply pair_ctx 9 (Ok pair_entry) = Ok (encode_transport_frame RuntimePayload 9 [3, 4])"
    by (simp add: query_reply_def runtime_payload_def encode_runtime_payload_def encode_rkyv_payload_def pair_entry_def
        pair_ctx_def demo_codecs_def payload_len_from_archived_len_def MAX_PAYLOAD_LEN_def)
  with pair_lookup show ?thesis
    by (simp add: handle_query_def query_request_id_def with_entry_def cache_lookup_def)
qed

definition pair_steps :: "bytes \<Rightarrow> recv_step list" where
  "pair_steps d' = [\<lparr>rv_checked = 1, rv_event = Datagram d', rv_received = 2\<rparr>]"

lemma pair_cap: "cap_of demo_udp_env (udp_server_new gres_cache_new) (V4 1 2) = 1440"
  by (simp add: cap_of_def payload_cap_def udp_server_new_def demo_udp_env_def
      effective_udp_payload_capacity_def ip_header_len_def is_ipv4_def UDP_CHUNK_HEADER_LEN_def UDP_MIN_PAYLOAD_def)

lemma pair_server:
  "cache_lookup pair_ctx (ue_first_lookup demo_udp_env) (us_cache (udp_server_new gres_cache_new)) =
    (refreshed gres_cache_new (Ok sample_snapshot) (le_times demo_env), Some (Ok pair_entry))"
  "handle_query pair_ctx (ue_first_lookup demo_udp_env) (us_cache (udp_server_new gres_cache_new)) (un_next_request_id demo_node) [] =
    (refreshed gres_cache_new (Ok sample_snapshot) (le_times demo_env), Some (Ok (encode_transport_frame RuntimePayload 9 [3, 4])))"
  using pair_lookup pair_query by (simp_all add: udp_server_new_def demo_udp_env_def demo_node_def)

lemma pair_exchange:
  "\<exists>d d' s'. encode_udp_single_chunk_from_parts sum_crc QueryRequest (un_next_request_id demo_node) [] = Ok d
     \<and> udp_receive sum_crc pair_ctx demo_udp_env (udp_server_new gres_cache_new) (V4 1 2) d = Some (s', [d'])
     \<and> arrives sum_crc (un_next_request_id demo_node) 50 0 [d'] (pair_steps d')"
proof -
  let ?s = "udp_server_new gres_cache_new" and ?r = "encode_transport_frame RuntimePayload 9 [3, 4]"
  let ?q = "encode_transport_frame QueryRequest 9 []"
  obtain d where d: "encode_udp_single_chunk_from_parts sum_crc QueryRequest (un_next_request_id demo_node) [] = Ok d"
    using empty_query_datagram by blast
  have q: "decode_frame ?q = Ok (frame_header_new QueryRequest 9 0, [])" by (simp add: decode_encode_transport_frame)
  have "encode_udp_single_chunk sum_crc ?q = Ok d"
    using d encode_from_parts_eq [OF sum_crc_streaming, of "[]" QueryRequest 9 0]
    by (simp add: encode_transport_frame_def FRAME_HEADER_LEN_def demo_node_def)
  then have serve: "udp_receive sum_crc pair_ctx demo_udp_env ?s (V4 1 2) d = serve_frame sum_crc pair_ctx demo_udp_env ?s (V4 1 2) ?q"
    by (simp add: udp_receive_def extract_frame_def decode_encode_single)
  have "handle_frame pair_ctx (ue_first_lookup demo_udp_env) (us_cache ?s) ?q =
      (refreshed gres_cache_new (Ok sample_snapshot) (le_times demo_env), Some (Ok ?r))"
    using handle_frame_fast(2) [OF q] by (simp add: frame_header_new_def pair_query udp_server_new_def demo_udp_env_def)
  from serve_frame_sends [OF sum_crc_streaming udp_server_new_wf [OF gres_cache_new_wf] _ q _ this, of "V4 1 2"]
  obtain s' where s': "serve_frame sum_crc pair_ctx demo_udp_env ?s (V4 1 2) ?q = Some (s', send_response sum_crc demo_udp_env 1440 ?r)"
    by (auto simp: pair_cap frame_header_new_def FRAME_HEADER_LEN_def)
  obtain d' where "encode_udp_single_chunk sum_crc ?r = Ok d'"
    using encode_single_Ok [OF decode_encode_transport_frame, of "[3, 4]" RuntimePayload 9 sum_crc]
    by (auto simp: FRAME_HEADER_LEN_def)
  with s' serve have "udp_receive sum_crc pair_ctx demo_udp_env ?s (V4 1 2) d = Some (s', [d'])"
    by (simp add: send_response_def FRAME_HEADER_LEN_def)
  moreover have "arrives sum_crc (un_next_request_id demo_node) 50 0 [d'] (pair_steps d')"
    by (simp add: arrives_def in_time_def pair_steps_def)
  ultimately show ?thesis using d by blast
qed


text \<open>An error of the collector reaches the client as such. When the server's lookup fails, the
  client's query over TCP reports the text of exactly that error code.\<close>

theorem server_error_reaches_client:
  assumes "codecs_agree (tx_codecs ctx) cc" "build_query_request_frame cc 2 = Ok req"
    and "cache_lookup ctx env c = (c', Some (Err ec))"
    and "sc_response_to_vec (tx_codecs ctx) (query_response_error 2 ec) = Ok bs" "length bs < 2 ^ 32"
  shows "\<exists>response out. handle_frame ctx env c req = (c', Some (Ok response))
    \<and> Tcp_Client.query_connected cc (\<lambda>_. None) node \<lparr>st_data = response @ rest, st_end = e\<rparr> =
      (out, node, Err (Server (error_to_string ec)))"
proof -
  from client_query_accepted [OF assms(1,2)] obtain q
    where h: "handle_frame ctx env c req = handle_query ctx env c 2 q" "query_request_id ctx 2 q = Ok 2" by blast
  from failed_lookup_answer(2) [OF assms(3-5) h(2)] obtain f n
    where f: "handle_query ctx env c 2 q = (c', Some (Ok f))"
      and dec: "decode_frame f = Ok (frame_header_new FrameType.QueryResponse 2 n, bs)" by blast
  have "cl_response_from_slice cc bs = Ok (query_response_error 2 ec)"
    using assms(1,4) by (simp add: codecs_agree_def)
  note err = parse_response_frame [OF dec this]
  have "parse_runtime_payload_frame cc f = Err (WrongFrameType RuntimePayload FrameType.QueryResponse)"
    using dec by (simp add: parse_runtime_payload_frame_def split_frame_def frame_header_new_def)
  with err h f assms(2) show ?thesis
    by (simp add: Tcp_Client.query_connected_def Tcp_Client.parse_query_reply_def write_frame_def read_frame_append [OF dec])
qed

theorem server_error_reaches_client_witness:
  "\<exists>c' req response out. handle_frame pair_ctx (demo_env\<lparr>le_collected := Err Internal\<rparr>) gres_cache_new req = (c', Some (Ok response))
    \<and> Tcp_Client.query_connected pair_client (\<lambda>_. None) old_node \<lparr>st_data = response, st_end = EndOfFile\<rparr> =
      (out, old_node, Err (Server (error_to_string Internal)))"
proof -
  obtain req where req: "build_query_request_frame pair_client 2 = Ok req" using pair_request(1) by blast
  have "\<exists>c'. cache_lookup pair_ctx (demo_env\<lparr>le_collected := Err Internal\<rparr>) gres_cache_new = (c', Some (Err Internal))"
    by (simp add: cache_lookup_def get_latest_or_refresh_def latest_def gres_cache_new_def get_or_refresh_miss
        get_fresh_def demo_env_def entry_of_collect_def)
  then obtain c' where c': "cache_lookup pair_ctx (demo_env\<lparr>le_collected := Err Internal\<rparr>) gres_cache_new = (c', Some (Err Internal))"
    by blast
  have "sc_response_to_vec (tx_codecs pair_ctx) (query_response_error 2 Internal) = Ok [6]" by (simp add: pair_ctx_def)
  from server_error_reaches_client [OF pair_agrees req c' this, of old_node "[]" EndOfFile] show ?thesis by auto
qed

end
