(* ===== verification/Node_Filter.thy ===== *)
theory Node_Filter
  imports Net_Text
begin

text \<open>
  The node filter of \<^verbatim>\<open>crates/client-backend/src/filter.rs\<close>: the comma-separated list with
  bracket expressions, its expansion into patterns, and the matching of a node by address,
  host name or connection id. \<open>glob\<close> is the meaning of a pattern with stars, against
  which the greedy matcher is compared.
\<close>

section \<open>Parsing\<close>

record NodeFilter =
  nf_patterns :: "string list"

definition push_char :: "char \<Rightarrow> string list \<Rightarrow> string list" where
  "push_char c ws = (case ws of [] \<Rightarrow> [[c]] | w # ws \<Rightarrow> (c # w) # ws)"

text \<open>Splitting at commas outside brackets; \<open>depth\<close> is \<open>bracket_depth\<close>.\<close>

fun split_items :: "nat \<Rightarrow> string \<Rightarrow> string list" where
  "split_items depth [] = [[]]"
| "split_items depth (c # s) =
     (if c = CHR ''['' then push_char c (split_items (Suc depth) s)
      else if c = CHR '']'' then push_char c (split_items (depth - 1) s)
      else if c = CHR '','' \<and> depth = 0 then [] # split_items 0 s
      else push_char c (split_items depth s))"

definition split_filter_items :: "string \<Rightarrow> string list" where
  "split_filter_items raw = split_items 0 raw"

definition expand_numeric_range ::
    "string \<Rightarrow> string \<Rightarrow> string \<Rightarrow> string \<Rightarrow> string \<Rightarrow> string list" where
  "expand_numeric_range raw pre suf start end_text =
     (case (parse_uint (2 ^ 32 - 1) start, parse_uint (2 ^ 32 - 1) end_text) of
        (Some a, Some b) \<Rightarrow>
          if a > b then [raw]
          else let width = max (length start) (length end_text)
            in map (\<lambda>n. pre @ pad_left (CHR ''0'') width (nat_to_string n) @ suf) [a ..< Suc b]
      | _ \<Rightarrow> [raw])"

definition expand_bracket_expression :: "string \<Rightarrow> string list" where
  "expand_bracket_expression raw =
     (case split_once (CHR ''['') raw of
        None \<Rightarrow> [raw]
      | Some (pre, after) \<Rightarrow>
          (case split_once (CHR '']'') after of
             None \<Rightarrow> [raw]
           | Some (expression, suf) \<Rightarrow>
               (case split_once (CHR ''-'') expression of
                  Some (start, end_text) \<Rightarrow> expand_numeric_range raw pre suf start end_text
                | None \<Rightarrow>
                    let items = map (\<lambda>item. pre @ item @ suf)
                      (filter (\<lambda>i. i \<noteq> []) (map trim (split_on (CHR '','') expression)))
                    in if items = [] then [raw] else items)))"

fun keep_first :: "string list \<Rightarrow> string list \<Rightarrow> string list" where
  "keep_first seen [] = []"
| "keep_first seen (x # xs) = (if x \<in> set seen then keep_first seen xs else x # keep_first (x # seen) xs)"

definition node_filter_parse :: "string option \<Rightarrow> NodeFilter" where
  "node_filter_parse raw =
     \<lparr>nf_patterns = (case raw of
        None \<Rightarrow> []
      | Some r \<Rightarrow> keep_first [] (concat (map expand_bracket_expression
          (filter (\<lambda>s. s \<noteq> []) (map trim (split_filter_items r))))))\<rparr>"

section \<open>Matching\<close>

definition exact_addr_match :: "string \<Rightarrow> SocketAddr \<Rightarrow> bool" where
  "exact_addr_match pattern addr =
     (case parse_socket_addr pattern of
        Some (a, scope) \<Rightarrow> a = addr \<and> scope = 0
      | None \<Rightarrow> (case parse_ip pattern of Some ip \<Rightarrow> ip = addr_ip addr | None \<Rightarrow> False))"

definition is_exact_addr_pattern :: "string \<Rightarrow> bool" where
  "is_exact_addr_pattern pattern \<longleftrightarrow>
     CHR ''*'' \<notin> set pattern \<and> (parse_socket_addr pattern \<noteq> None \<or> parse_ip pattern \<noteq> None)"

text \<open>The loop over the pieces between stars: the rest of the text, or \<open>None\<close> for \<open>return false\<close>.\<close>

fun wildcard_parts :: "bool \<Rightarrow> bool \<Rightarrow> string list \<Rightarrow> string \<Rightarrow> string option" where
  "wildcard_parts starts_star first [] rest = Some rest"
| "wildcard_parts starts_star first (part # parts) rest =
     (if part = [] then wildcard_parts starts_star False parts rest
      else if first \<and> \<not> starts_star then
        (case strip_prefix rest part of
           None \<Rightarrow> None
         | Some r \<Rightarrow> wildcard_parts starts_star False parts r)
      else
        (case find_str part rest of
           None \<Rightarrow> None
         | Some pos \<Rightarrow> wildcard_parts starts_star False parts (drop (pos + length part) rest)))"

definition wildcard_match :: "string \<Rightarrow> string \<Rightarrow> bool" where
  "wildcard_match pattern text =
     (if CHR ''*'' \<notin> set pattern then contains text pattern
      else case wildcard_parts (starts_with pattern ''*'') True (split_on (CHR ''*'') pattern) text of
        None \<Rightarrow> False
      | Some rest \<Rightarrow> ends_with pattern ''*'' \<or> rest = [])"

definition pattern_matches :: "string \<Rightarrow> string \<Rightarrow> SocketAddr \<Rightarrow> string \<Rightarrow> bool" where
  "pattern_matches pattern hostname addr connection_id =
     (if is_exact_addr_pattern pattern then exact_addr_match pattern addr
      else exact_addr_match pattern addr \<or> wildcard_match pattern hostname
        \<or> wildcard_match pattern (ip_to_string (addr_ip addr))
        \<or> wildcard_match pattern (addr_to_string addr)
        \<or> wildcard_match pattern connection_id)"

definition matches_target :: "NodeFilter \<Rightarrow> string \<Rightarrow> SocketAddr \<Rightarrow> string \<Rightarrow> bool" where
  "matches_target f hostname addr connection_id =
     (nf_patterns f = [] \<or> (\<exists>p \<in> set (nf_patterns f). pattern_matches p hostname addr connection_id))"

section \<open>The meaning of stars\<close>

text \<open>The texts a pattern stands for: a star is any text, every other character itself.\<close>

fun glob :: "string \<Rightarrow> string \<Rightarrow> bool" where
  "glob [] t = (t = [])"
| "glob (c # p) t =
     (if c = CHR ''*'' then (\<exists>k \<in> set [0 ..< Suc (length t)]. glob p (drop k t))
      else (case t of [] \<Rightarrow> False | x # t' \<Rightarrow> x = c \<and> glob p t'))"

lemma glob_star: "glob (CHR ''*'' # p) t \<longleftrightarrow> (\<exists>a b. t = a @ b \<and> glob p b)"
proof
  assume "glob (CHR ''*'' # p) t"
  then obtain k where "glob p (drop k t)" by (auto simp del: upt_Suc)
  then show "\<exists>a b. t = a @ b \<and> glob p b" by (metis append_take_drop_id)
next
  assume "\<exists>a b. t = a @ b \<and> glob p b"
  then obtain a b where "t = a @ b" "glob p b" by blast
  then show "glob (CHR ''*'' # p) t"
    by (auto simp del: upt_Suc intro!: bexI [of _ "length a"])
qed

declare glob.simps(2) [simp del]

lemma glob_literal: "CHR ''*'' \<notin> set w \<Longrightarrow> glob (w @ p) t \<longleftrightarrow> (\<exists>b. t = w @ b \<and> glob p b)"
proof (induction w arbitrary: t)
  case (Cons c w)
  then have "glob ((c # w) @ p) t \<longleftrightarrow> (\<exists>t'. t = c # t' \<and> glob (w @ p) t')"
    by (cases t) (auto simp: glob.simps(2))
  with Cons show ?case by auto
qed simp

text \<open>\<open>chain ps t r\<close>: the pieces \<open>ps\<close> occur in \<open>t\<close> one after the other, and \<open>r\<close> remains.\<close>

fun chain :: "string list \<Rightarrow> string \<Rightarrow> string \<Rightarrow> bool" where
  "chain [] t r = (t = r)"
| "chain (p # ps) t r = (\<exists>g t'. t = g @ p @ t' \<and> chain ps t' r)"

fun star_join :: "string list \<Rightarrow> string" where
  "star_join [] = []"
| "star_join (p # ps) = CHR ''*'' # p @ star_join ps"

lemma split_star:
  obtains p0 ps where "split_on (CHR ''*'') p = p0 # ps" "p = p0 @ star_join ps"
    "list_all (\<lambda>w. CHR ''*'' \<notin> set w) (p0 # ps)" "ps = [] \<longleftrightarrow> CHR ''*'' \<notin> set p"
proof -
  have "\<exists>p0 ps. split_on (CHR ''*'') p = p0 # ps \<and> p = p0 @ star_join ps
      \<and> list_all (\<lambda>w. CHR ''*'' \<notin> set w) (p0 # ps) \<and> (ps = [] \<longleftrightarrow> CHR ''*'' \<notin> set p)"
  proof (induction p)
    case (Cons c p)
    then obtain p0 ps where "split_on (CHR ''*'') p = p0 # ps" "p = p0 @ star_join ps"
      "list_all (\<lambda>w. CHR ''*'' \<notin> set w) (p0 # ps)" "ps = [] \<longleftrightarrow> CHR ''*'' \<notin> set p" by blast
    then show ?case by (cases "c = CHR ''*''") auto
  qed simp
  with that show thesis by blast
qed

lemma glob_star_join:
  "list_all (\<lambda>w. CHR ''*'' \<notin> set w) ps \<Longrightarrow> ps \<noteq> [] \<Longrightarrow>
     glob (star_join ps) t \<longleftrightarrow> (\<exists>r. chain (butlast ps) t r \<and> (\<exists>g. r = g @ last ps))"
proof (induction ps arbitrary: t)
  case (Cons p ps)
  show ?case
  proof (cases "ps = []")
    case True
    with Cons.prems show ?thesis
      using glob_literal [of p "[]"] by (auto simp: glob_star)
  next
    case False
    with Cons show ?thesis
      by (simp add: glob_star glob_literal) metis
  qed
qed simp

lemma chain_append: "chain (ps @ qs) t r \<longleftrightarrow> (\<exists>m. chain ps t m \<and> chain qs m r)"
  by (induction ps arbitrary: t) auto

lemma chain_suffix: "suffix t u \<Longrightarrow> chain ps t r \<Longrightarrow> \<exists>r'. chain ps u r' \<and> suffix r r'"
proof (cases ps)
  case (Cons p qs)
  assume "suffix t u" "chain ps t r"
  then obtain x g t' where "u = (x @ g) @ p @ t'" "chain qs t' r" by (auto simp: suffix_def Cons)
  then have "chain ps u r" unfolding Cons chain.simps by blast
  then show ?thesis by blast
qed simp

lemma star_join_snoc: "ps \<noteq> [] \<Longrightarrow> star_join ps = star_join (butlast ps) @ CHR ''*'' # last ps"
  by (induction ps) auto

lemma wildcard_parts_chain: "wildcard_parts ss False ps t = Some r \<Longrightarrow> chain ps t r"
proof (induction ps arbitrary: t)
  case (Cons p ps)
  show ?case
  proof (cases "p = []")
    case True
    with Cons show ?thesis by (auto intro: exI [of _ "[]"])
  next
    case False
    with Cons.prems obtain i where i: "find_str p t = Some i"
      and "wildcard_parts ss False ps (drop (i + length p) t) = Some r"
      by (auto split: option.splits)
    with Cons.IH find_str_split [OF i] show ?thesis by auto
  qed
qed simp

lemma wildcard_parts_greedy:
  "chain ps t r \<Longrightarrow> \<exists>r'. wildcard_parts ss False ps t = Some r' \<and> suffix r r'"
proof (induction ps arbitrary: t r)
  case (Cons p ps)
  then obtain g t' where t: "t = g @ p @ t'" and c: "chain ps t' r" by auto
  show ?case
  proof (cases "p = []")
    case True
    with t have "suffix t' t" by (simp add: suffix_def)
    from chain_suffix [OF this c] Cons.IH True show ?thesis by (fastforce intro: suffix_order.trans)
  next
    case False
    have "prefix p (drop (length g) t)" "length g \<le> length t" by (simp_all add: t)
    then obtain i where i: "find_str p t = Some i" unfolding find_str_None [symmetric] by (metis find_str_None not_Some_eq)
    with find_str_Some [OF i] \<open>prefix p (drop (length g) t)\<close> have "i \<le> length g" by (meson not_le)
    then have "suffix t' (drop (i + length p) t)" by (simp add: t suffix_drop suffix_def) 
    from chain_suffix [OF this c] Cons.IH False i show ?thesis by (fastforce intro: suffix_order.trans)
  qed
qed simp

lemma wildcard_match_cases:
  assumes "CHR ''*'' \<in> set p"
  obtains p0 ps where "ps \<noteq> []" "list_all (\<lambda>w. CHR ''*'' \<notin> set w) (p0 # ps)" "p = p0 @ star_join ps"
    "ends_with p ''*'' \<longleftrightarrow> last ps = []"
    "\<And>t. wildcard_match p t \<longleftrightarrow> (\<exists>b r. t = p0 @ b \<and> wildcard_parts (p0 = []) False ps b = Some r \<and> (last ps = [] \<or> r = []))"
proof -
  obtain p0 ps where sp: "split_on (CHR ''*'') p = p0 # ps" and p: "p = p0 @ star_join ps"
    and free: "list_all (\<lambda>w. CHR ''*'' \<notin> set w) (p0 # ps)" and "ps \<noteq> []"
    using split_star [of p] assms by metis
  have e: "ends_with p ''*'' \<longleftrightarrow> last ps = []"
  proof (cases "last ps = []")
    case True
    then show ?thesis using \<open>ps \<noteq> []\<close> by (simp add: p star_join_snoc ends_with_def suffix_def)
  next
    case False
    with free \<open>ps \<noteq> []\<close> have "last (last ps) \<noteq> CHR ''*''"
      by (metis last_in_set list.pred_inject(2) list_all_iff)
    moreover have "last p = last (last ps)" using False \<open>ps \<noteq> []\<close> by (simp add: p star_join_snoc)
    ultimately show ?thesis using False by (auto simp: ends_with_def suffix_def)
  qed
  have "starts_with p ''*'' \<longleftrightarrow> p0 = []"
  proof (cases p0)
    case Nil
    then show ?thesis using \<open>ps \<noteq> []\<close> by (cases ps) (simp_all add: p starts_with_def)
  next
    case (Cons c w)
    with free have "c \<noteq> CHR ''*''" by auto
    with Cons show ?thesis by (auto simp: p starts_with_def prefix_def)
  qed
  then have "wildcard_match p t \<longleftrightarrow> (\<exists>b r. t = p0 @ b \<and> wildcard_parts (p0 = []) False ps b = Some r \<and> (last ps = [] \<or> r = []))" for t
    using assms e by (auto simp: wildcard_match_def sp strip_prefix_def prefix_def split: option.splits)
  with that [OF \<open>ps \<noteq> []\<close> free p e] show thesis by blast
qed

lemma glob_pieces:
  assumes "ps \<noteq> []" "list_all (\<lambda>w. CHR ''*'' \<notin> set w) (p0 # ps)"
  shows "glob (p0 @ star_join ps) t \<longleftrightarrow> (\<exists>b. t = p0 @ b \<and> (\<exists>r. chain (butlast ps) b r \<and> (\<exists>g. r = g @ last ps)))"
  using assms by (simp add: glob_literal glob_star_join)

lemma wildcard_sound:
  assumes "CHR ''*'' \<in> set p" "wildcard_match p t"
  shows "glob p t"
proof -
  obtain p0 ps where c: "ps \<noteq> []" "list_all (\<lambda>w. CHR ''*'' \<notin> set w) (p0 # ps)" "p = p0 @ star_join ps"
    "\<And>t. wildcard_match p t \<longleftrightarrow> (\<exists>b r. t = p0 @ b \<and> wildcard_parts (p0 = []) False ps b = Some r \<and> (last ps = [] \<or> r = []))"
    using wildcard_match_cases [OF assms(1)] by metis
  from assms(2) obtain b r where b: "t = p0 @ b" "wildcard_parts (p0 = []) False ps b = Some r" and r: "last ps = [] \<or> r = []"
    unfolding c(4) by blast
  from wildcard_parts_chain [OF b(2)] have "chain (butlast ps @ [last ps]) b r" using c(1) by simp
  then obtain m g where "chain (butlast ps) b m" "m = g @ last ps @ r" by (auto simp: chain_append)
  with r have "\<exists>g. m = g @ last ps" by auto
  with \<open>chain (butlast ps) b m\<close> b(1) show ?thesis unfolding c(3) glob_pieces [OF c(1,2)] by blast
qed

lemma wildcard_complete:
  assumes "ends_with p ''*''" "glob p t"
  shows "wildcard_match p t"
proof -
  have "CHR ''*'' \<in> set p" using assms(1) by (auto simp: ends_with_def suffix_def)
  then obtain p0 ps where c: "ps \<noteq> []" "list_all (\<lambda>w. CHR ''*'' \<notin> set w) (p0 # ps)" "p = p0 @ star_join ps"
    "last ps = []"
    "\<And>t. wildcard_match p t \<longleftrightarrow> (\<exists>b r. t = p0 @ b \<and> wildcard_parts (p0 = []) False ps b = Some r \<and> (last ps = [] \<or> r = []))"
    using wildcard_match_cases assms(1) by metis
  from assms(2) obtain b r where b: "t = p0 @ b" and ch: "chain (butlast ps) b r"
    unfolding c(3) glob_pieces [OF c(1,2)] by blast
  from ch have "chain (butlast ps @ [last ps]) b r" unfolding chain_append c(4) by auto
  then have "chain ps b r" using c(1) by simp
  from wildcard_parts_greedy [OF this] b c(4) show ?thesis unfolding c(5) by blast
qed

section \<open>Expansion\<close>

lemma split_once_append: "c \<notin> set a \<Longrightarrow> split_once c (a @ c # b) = Some (a, b)"
  by (simp add: split_once_def takeWhile_append dropWhile_append)

lemma digit_free:
  "list_all is_ascii_digit d \<Longrightarrow> CHR ''['' \<notin> set d \<and> CHR '']'' \<notin> set d \<and> CHR ''-'' \<notin> set d \<and> hd (d @ [CHR ''0'']) \<noteq> CHR ''+''"
  by (induction d) (auto simp: is_ascii_digit_def)

lemma parse_digits:
  assumes "d \<noteq> []" "list_all is_ascii_digit d" "digits_value d < 2 ^ 32"
  shows "parse_uint (2 ^ 32 - 1) d = Some (digits_value d)"
proof -
  have "strip_plus d = d" using digit_free [OF assms(2)] assms(1) by (cases d) (simp_all add: strip_plus_def)
  with assms show ?thesis by (simp add: parse_uint_def)
qed

lemma expand_range:
  assumes "CHR ''['' \<notin> set pre" "a \<noteq> []" "list_all is_ascii_digit a" "b \<noteq> []" "list_all is_ascii_digit b"
    and "digits_value a \<le> digits_value b" "digits_value b < 2 ^ 32"
  shows "expand_bracket_expression (pre @ ''['' @ a @ ''-'' @ b @ '']'' @ suf) =
    map (\<lambda>n. pre @ pad_left (CHR ''0'') (max (length a) (length b)) (nat_to_string n) @ suf)
      [digits_value a ..< Suc (digits_value b)]"
proof -
  have "split_once (CHR ''['') (pre @ ''['' @ a @ ''-'' @ b @ '']'' @ suf) = Some (pre, (a @ ''-'' @ b) @ '']'' @ suf)"
    using split_once_append [OF assms(1)] by simp
  moreover have "split_once (CHR '']'') ((a @ ''-'' @ b) @ '']'' @ suf) = Some (a @ ''-'' @ b, suf)"
    using split_once_append [of "CHR '']''" "a @ ''-'' @ b" suf] digit_free [OF assms(3)] digit_free [OF assms(5)] by simp
  moreover have "split_once (CHR ''-'') (a @ ''-'' @ b) = Some (a, b)"
    using split_once_append [of "CHR ''-''" a b] digit_free [OF assms(3)] by simp
  ultimately show ?thesis
    using parse_digits [OF assms(2,3)] parse_digits [OF assms(4,5,7)] assms(6,7)
    by (simp add: expand_bracket_expression_def expand_numeric_range_def del: upt_Suc)
qed

lemma keep_first_spec: "distinct (keep_first seen xs) \<and> set (keep_first seen xs) = set xs - set seen"
proof (induction xs arbitrary: seen)
  case (Cons x xs)
  show ?case using Cons [of seen] Cons [of "x # seen"] by (auto simp: insert_absorb)
qed simp

section \<open>Properties\<close>

text \<open>C34: the star matcher never accepts a text that its pattern does not stand for, and it decides the
  pattern exactly when the pattern ends with a star: its leftmost search then never
  gives up a match.\<close>

theorem wildcard_match_spec:
  assumes "CHR ''*'' \<in> set pattern"
  shows "(wildcard_match pattern t \<longrightarrow> glob pattern t)
    \<and> (ends_with pattern ''*'' \<longrightarrow> (wildcard_match pattern t \<longleftrightarrow> glob pattern t))"
  using assms wildcard_sound wildcard_complete by blast

theorem wildcard_match_spec_witness:
  "glob ''10.1.*'' ''10.1.2.3'' \<and> wildcard_match ''10.1.*'' ''10.1.2.3''"
proof -
  have "wildcard_match ''10.1.*'' ''10.1.2.3''" by code_simp
  with wildcard_match_spec [of "''10.1.*''" "''10.1.2.3''"] show ?thesis by simp
qed

text \<open>With text after its last star a pattern can miss nodes it stands for: the leftmost
  occurrence of the last piece is taken even when a later one would end the text, so
  \<^verbatim>\<open>node-*1\<close> does not find \<^verbatim>\<open>node-11\<close>.\<close>

theorem wildcard_misses_suffix:
  "glob ''node-*1'' ''node-11'' \<and> \<not> wildcard_match ''node-*1'' ''node-11''"
  by (intro conjI; code_simp)

text \<open>A bracket range names exactly the hosts of the range. A range between two numerals expands to
  one pattern per number, in order, padded with zeros to the width of the longer numeral;
  and a parsed filter never holds the same pattern twice.\<close>

theorem filter_range_exact:
  assumes "CHR ''['' \<notin> set pre" "a \<noteq> []" "list_all is_ascii_digit a" "b \<noteq> []" "list_all is_ascii_digit b"
    and "digits_value a \<le> digits_value b" "digits_value b < 2 ^ 32"
  shows "expand_bracket_expression (pre @ ''['' @ a @ ''-'' @ b @ '']'' @ suf) =
      map (\<lambda>n. pre @ pad_left (CHR ''0'') (max (length a) (length b)) (nat_to_string n) @ suf)
        [digits_value a ..< Suc (digits_value b)]
    \<and> distinct (nf_patterns (node_filter_parse raw))"
  using expand_range [OF assms] keep_first_spec by (auto simp: node_filter_parse_def split: option.splits)

theorem filter_range_exact_witness:
  "expand_bracket_expression (''node'' @ ''['' @ ''09'' @ ''-'' @ ''11'' @ '']'' @ [])
    = [''node09'', ''node10'', ''node11'']"
proof -
  have "[''node'' @ pad_left (CHR ''0'') (Suc (Suc 0)) (nat_to_string 9) @ [], ''node'' @ pad_left (CHR ''0'') (Suc (Suc 0)) (nat_to_string 10) @ [],
      ''node'' @ pad_left (CHR ''0'') (Suc (Suc 0)) (nat_to_string 11) @ []] = [''node09'', ''node10'', ''node11'']" by code_simp
  then show ?thesis
    using filter_range_exact [of "''node''" "''09''" "''11''" "[]" None]
    by (simp add: is_ascii_digit_def digits_value_def upt_rec)
qed

end
