(* ===== verification/Client_Cache.thy ===== *)
theory Client_Cache
  imports Node_Filter "HOL-Library.AList" "HOL-Library.List_Lexorder" "HOL-Library.Char_ord"
begin

text \<open>
  The node cache of the client, \<^verbatim>\<open>crates/client-backend/src/cache.rs\<close>. A \<open>HashMap\<close> is an association
  list with distinct keys, in the unspecified order of its iteration; results that reach a
  user are sorted. Times in milliseconds are integers; \<open>now\<close> is the reading of \<open>now_ms\<close>.
\<close>

section \<open>Entries\<close>

record DiscoveredNode =
  dn_hostname :: string
  dn_addr :: SocketAddr
  dn_ts_ms :: int

record ConnectionCacheEntry =
  cn_connection_id :: string
  cn_hostname :: string
  cn_num :: u8
  cn_server_gres :: bytes
  cn_record_timestamp :: int
  cn_addr :: SocketAddr
  cn_last_snapshot :: "ServerGresSnapshot option"
  cn_last_error :: "string option"
  cn_last_query_latency_us :: "u64 option"

type_synonym CacheMap = "(string \<times> ConnectionCacheEntry) list"

definition entry_matches_filter :: "ConnectionCacheEntry \<Rightarrow> NodeFilter \<Rightarrow> bool" where
  "entry_matches_filter e f = matches_target f (cn_hostname e) (cn_addr e) (cn_connection_id e)"

definition snapshot_num :: "ServerGresSnapshot \<Rightarrow> u8" where
  "snapshot_num s = word_of_nat (min (length (ss_gres s)) 255)"

definition entry_from_snapshot ::
    "int \<Rightarrow> string \<Rightarrow> SocketAddr \<Rightarrow> ServerGresSnapshot \<Rightarrow> u64 option \<Rightarrow> ConnectionCacheEntry" where
  "entry_from_snapshot now connection_id addr snapshot latency =
     \<lparr>cn_connection_id = connection_id, cn_hostname = ss_hostname snapshot, cn_num = snapshot_num snapshot,
      cn_server_gres = [], cn_record_timestamp = now, cn_addr = addr, cn_last_snapshot = Some snapshot,
      cn_last_error = None, cn_last_query_latency_us = latency\<rparr>"

text \<open>The key of a node, and the display form of the running number of a connection.\<close>

definition cache_key :: "SocketAddr \<Rightarrow> string" where
  "cache_key addr = ip_to_string (addr_ip addr) @ ''-'' @ nat_to_string (unat (addr_port addr))"

definition conn_id :: "nat \<Rightarrow> string" where
  "conn_id n = ''conn-'' @ pad_left (CHR ''0'') 3 (nat_to_string n)"

definition new_entry :: "nat \<Rightarrow> DiscoveredNode \<Rightarrow> ConnectionCacheEntry" where
  "new_entry n node =
     \<lparr>cn_connection_id = conn_id n, cn_hostname = dn_hostname node, cn_num = 0, cn_server_gres = [],
      cn_record_timestamp = dn_ts_ms node, cn_addr = dn_addr node, cn_last_snapshot = None,
      cn_last_error = None, cn_last_query_latency_us = None\<rparr>"

section \<open>Operations\<close>

definition build_cache :: "DiscoveredNode list \<Rightarrow> CacheMap" where
  "build_cache discovered =
     foldl (\<lambda>rows (idx, n). AList.update (cache_key (dn_addr n)) (new_entry (idx + 1) n) rows) []
       (enumerate 0 discovered)"

definition upsert_snapshot ::
    "int \<Rightarrow> CacheMap \<Rightarrow> string \<Rightarrow> SocketAddr \<Rightarrow> ServerGresSnapshot \<Rightarrow> u64 option \<Rightarrow> CacheMap" where
  "upsert_snapshot now rows connection_id addr snapshot latency =
     AList.update (cache_key addr) (entry_from_snapshot now connection_id addr snapshot latency) rows"

definition mark_stale ::
    "int \<Rightarrow> CacheMap \<Rightarrow> string \<Rightarrow> SocketAddr \<Rightarrow> string \<Rightarrow> string \<Rightarrow> CacheMap" where
  "mark_stale now rows connection_id addr hostname error =
     AList.update (cache_key addr)
       \<lparr>cn_connection_id = connection_id, cn_hostname = hostname, cn_num = 0, cn_server_gres = [],
        cn_record_timestamp = now, cn_addr = addr, cn_last_snapshot = None,
        cn_last_error = Some error, cn_last_query_latency_us = None\<rparr> rows"

section \<open>Tables\<close>

text \<open>A table whose entries are filed under their own key, each key once.\<close>

definition keyed :: "('v \<Rightarrow> 'k) \<Rightarrow> ('k \<times> 'v) list \<Rightarrow> bool" where
  "keyed key m \<longleftrightarrow> distinct (map fst m) \<and> (\<forall>(k, v) \<in> set m. k = key v)"

lemma keyed_Nil [simp]: "keyed key []"
  by (simp add: keyed_def)

lemma fst_set_update: "fst ` set (AList.update k v m) = insert k (fst ` set m)"
  by (induction m) auto

lemma keyed_update: "keyed key m \<Longrightarrow> keyed key (AList.update (key v) v m)"
proof (induction m)
  case (Cons r m)
  obtain k x where r: "r = (k, x)" by (cases r)
  from Cons have IH: "keyed key (AList.update (key v) v m)" by (auto simp: keyed_def)
  show ?case
  proof (cases "k = key v")
    case True
    with Cons.prems r show ?thesis by (force simp: keyed_def)
  next
    case False
    with IH Cons.prems r fst_set_update [of "key v" v m] show ?thesis by (auto simp: keyed_def)
  qed
qed (simp add: keyed_def)

lemma keyed_values: "keyed key m \<Longrightarrow> map key (map snd m) = map fst m"
  by (auto simp: keyed_def)

lemma keyed_value_iff: "keyed key m \<Longrightarrow> v \<in> set (map snd m) \<longleftrightarrow> map_of m (key v) = Some v"
  by (force simp: keyed_def dest: map_of_SomeD)

section \<open>Invariant\<close>

text \<open>The keys are distinct, and every entry is filed under the key of its address.\<close>

definition rows_wf :: "CacheMap \<Rightarrow> bool" where
  "rows_wf rows \<longleftrightarrow> distinct (map fst rows) \<and> (\<forall>(k, e) \<in> set rows. k = cache_key (cn_addr e))"

lemma rows_wf_Nil [simp]: "rows_wf []"
  by (simp add: rows_wf_def)

lemma rows_wf_keyed: "rows_wf rows \<longleftrightarrow> keyed (\<lambda>e. cache_key (cn_addr e)) rows"
  by (simp add: rows_wf_def keyed_def)

lemma rows_wf_update: "rows_wf rows \<Longrightarrow> rows_wf (AList.update (cache_key (cn_addr e)) e rows)"
  using keyed_update [of "\<lambda>e. cache_key (cn_addr e)"] by (simp add: rows_wf_keyed)

lemma rows_wf_delete: "rows_wf rows \<Longrightarrow> rows_wf (AList.delete k rows)"
  by (auto simp: rows_wf_def distinct_map_filter AList.delete_eq)

lemma rows_wf_entry:
  "rows_wf rows \<Longrightarrow> map_of rows k = Some e \<Longrightarrow> k = cache_key (cn_addr e)"
  by (auto simp: rows_wf_def dest!: map_of_SomeD)

lemma upsert_snapshot_wf: "rows_wf rows \<Longrightarrow> rows_wf (upsert_snapshot now rows c addr s l)"
  using rows_wf_update [of rows "entry_from_snapshot now c addr s l"]
  by (simp add: upsert_snapshot_def entry_from_snapshot_def)

lemma mark_stale_wf: "rows_wf rows \<Longrightarrow> rows_wf (mark_stale now rows c addr h e)"
  unfolding mark_stale_def by (rule rows_wf_update [of rows "\<lparr>cn_connection_id = c, cn_hostname = h, cn_num = 0, cn_server_gres = [],
        cn_record_timestamp = now, cn_addr = addr, cn_last_snapshot = None,
        cn_last_error = Some e, cn_last_query_latency_us = None\<rparr>", simplified])

lemma build_cache_wf: "rows_wf (build_cache nodes)"
proof -
  have "rows_wf rows \<Longrightarrow> rows_wf (foldl (\<lambda>rows (idx, n). AList.update (cache_key (dn_addr n)) (new_entry (idx + 1) n) rows) rows xs)" for xs rows
  proof (induction xs arbitrary: rows)
    case (Cons x xs)
    obtain i n where x: "x = (i, n)" by (cases x)
    have "rows_wf (AList.update (cache_key (dn_addr n)) (new_entry (i + 1) n) rows)"
      using rows_wf_update [OF Cons.prems, of "new_entry (i + 1) n"] by (simp add: new_entry_def)
    with Cons.IH show ?case by (simp add: x)
  qed simp
  then show ?thesis by (simp add: build_cache_def)
qed

text \<open>Different IPv4 addresses have different keys.\<close>

lemma dash_free: "CHR ''-'' \<notin> set (ipv4_to_string ip)"
proof -
  have "CHR ''-'' \<notin> set (nat_to_string n)" for n by (rule not_digit_notin) (simp add: is_ascii_digit_def)
  then show ?thesis by (simp add: ipv4_to_string_def octets_def)
qed

lemma cache_key_inject: "cache_key (V4 a p) = cache_key (V4 b q) \<longleftrightarrow> a = b \<and> p = q"
proof
  assume "cache_key (V4 a p) = cache_key (V4 b q)"
  then have "split_once (CHR ''-'') (ipv4_to_string a @ CHR ''-'' # nat_to_string (unat p)) =
      split_once (CHR ''-'') (ipv4_to_string b @ CHR ''-'' # nat_to_string (unat q))"
    by (simp add: cache_key_def)
  then have "ipv4_to_string a = ipv4_to_string b" "nat_to_string (unat p) = nat_to_string (unat q)"
    by (simp_all add: split_once_append [OF dash_free])
  note same = this
  have "Some a = Some b"
    unfolding parse_ipv4_to_string [symmetric] same(1) ..
  moreover have "unat p = unat q" using same(2) by (simp only: nat_to_string_inject)
  ultimately show "a = b \<and> p = q" by (simp only: word_unat_eq_iff option.inject simp_thms)
qed simp

end
