(* ===== verification/Client_Views.thy ===== *)
theory Client_Views
  imports Client_Cache "HOL-Library.Multiset"
begin

text \<open>
  The adapter of the client, \<^verbatim>\<open>crates/client-backend/src/adapter.rs\<close>: from cached snapshots,
  and from the payloads of older servers, to the views of the local API. The JSON parser and
  the resolution of user names (\<open>getent\<close>) are parameters; a JSON value is the tree that the
  parser builds.
\<close>

section \<open>Data\<close>

record ApiQueryRequest =
  aq_filter :: "string option"
  aq_user :: "string option"

record QueryMeta =
  qm_status :: string
  qm_timestamp_ms :: int
  qm_node_count :: nat
  qm_errors :: "string list"

record ProcessView =
  pv_uid :: u32
  pv_username :: string
  pv_pid :: u32
  pv_command :: "string option"
  pv_used_memory_mb :: u32

record GresView =
  gv_index :: u8
  gv_name :: string
  gv_temperature_c :: "u32 option"
  gv_util :: u8
  gv_mem_used_mb :: u32
  gv_mem_total_mb :: u32
  gv_processes :: "ProcessView list option"

record NodeView =
  nv_connection_id :: string
  nv_hostname :: string
  nv_addr :: string
  nv_timestamp_ms :: int
  nv_driver_version :: "string option"
  nv_num :: u8
  nv_stale :: bool
  nv_error :: "string option"
  nv_delay_us :: "u64 option"
  nv_gres :: "GresView list"

record ApiQueryResponse =
  ar_meta :: QueryMeta
  ar_nodes :: "NodeView list"

definition query_meta_default :: QueryMeta where
  "query_meta_default = \<lparr>qm_status = ''unknown'', qm_timestamp_ms = 0, qm_node_count = 0, qm_errors = []\<rparr>"

datatype json =
    JNull
  | JBool bool
  | JUnsigned u64
  | JOtherNumber string
  | JString string
  | JArray "json list"
  | JObject "(string \<times> json) list"

fun json_get :: "string \<Rightarrow> json \<Rightarrow> json option" where
  "json_get k (JObject kvs) = map_of kvs k"
| "json_get k _ = None"

fun as_str :: "json \<Rightarrow> string option" where
  "as_str (JString s) = Some s"
| "as_str _ = None"

fun as_u64 :: "json \<Rightarrow> u64 option" where
  "as_u64 (JUnsigned n) = Some n"
| "as_u64 _ = None"

fun as_bool :: "json \<Rightarrow> bool option" where
  "as_bool (JBool b) = Some b"
| "as_bool _ = None"

fun as_array :: "json \<Rightarrow> json list option" where
  "as_array (JArray xs) = Some xs"
| "as_array _ = None"

definition parse_query_request :: "(string \<Rightarrow> string + ApiQueryRequest) \<Rightarrow> string \<Rightarrow> string + ApiQueryRequest" where
  "parse_query_request from_str s =
     (if s = [] then Ok \<lparr>aq_filter = None, aq_user = None\<rparr>
      else map_err (\<lambda>e. ''invalid QUERY payload: '' @ e) (from_str s))"

section \<open>Base64\<close>

definition base64_value :: "byte \<Rightarrow> u8 option" where
  "base64_value b =
     (if 65 \<le> b \<and> b \<le> 90 then Some (b - 65)
      else if 97 \<le> b \<and> b \<le> 122 then Some (b - 97 + 26)
      else if 48 \<le> b \<and> b \<le> 57 then Some (b - 48 + 52)
      else if b = 43 then Some 62
      else if b = 47 then Some 63
      else if b = 61 then Some 64
      else None)"

definition is_ascii_whitespace :: "byte \<Rightarrow> bool" where
  "is_ascii_whitespace b \<longleftrightarrow> b = 32 \<or> b = 9 \<or> b = 10 \<or> b = 12 \<or> b = 13"

unbundle bit_operations_syntax

text \<open>What \<open>push_base64_chunk\<close> appends for a chunk of four values; 64 is the padding.\<close>

definition base64_chunk :: "u8 \<Rightarrow> u8 \<Rightarrow> u8 \<Rightarrow> u8 \<Rightarrow> bytes option" where
  "base64_chunk c0 c1 c2 c3 =
     (if c0 = 64 \<or> c1 = 64 then None
      else if c3 \<noteq> 64 \<and> c2 = 64 then None
      else Some ([push_bit 2 c0 OR drop_bit 4 c1]
        @ (if c2 \<noteq> 64 then [push_bit 4 c1 OR drop_bit 2 c2] else [])
        @ (if c3 \<noteq> 64 then [push_bit 6 c2 OR c3] else [])))"

fun base64_loop :: "u8 list \<Rightarrow> bytes \<Rightarrow> bytes \<Rightarrow> bytes option" where
  "base64_loop chunk out [] = (if chunk = [] then Some out else None)"
| "base64_loop chunk out (b # bs) =
     (case base64_value b of
        None \<Rightarrow> None
      | Some v \<Rightarrow>
          (case chunk @ [v] of
             [c0, c1, c2, c3] \<Rightarrow>
               (case base64_chunk c0 c1 c2 c3 of
                  None \<Rightarrow> None
                | Some decoded \<Rightarrow> base64_loop [] (out @ decoded) bs)
           | chunk' \<Rightarrow> base64_loop chunk' out bs))"

definition decode_base64 :: "string \<Rightarrow> bytes option" where
  "decode_base64 raw = base64_loop [] [] (filter (\<lambda>b. \<not> is_ascii_whitespace b) (as_bytes raw))"

text \<open>The encoder of the module's tests, the reference for the decoder.\<close>

definition base64_char :: "u8 \<Rightarrow> byte" where
  "base64_char v = as_bytes ''ABCDEFGHIJKLMNOPQRSTUVWXYZabcdefghijklmnopqrstuvwxyz0123456789+/'' ! unat v"

text \<open>The four 6-bit values of three bytes.\<close>

definition sextet0 :: "u8 \<Rightarrow> u8" where
  "sextet0 b0 = drop_bit 2 b0"

definition sextet1 :: "u8 \<Rightarrow> u8 \<Rightarrow> u8" where
  "sextet1 b0 b1 = (push_bit 4 (b0 AND 3) OR drop_bit 4 b1)"

definition sextet2 :: "u8 \<Rightarrow> u8 \<Rightarrow> u8" where
  "sextet2 b1 b2 = (push_bit 2 (b1 AND 15) OR drop_bit 6 b2)"

definition sextet3 :: "u8 \<Rightarrow> u8" where
  "sextet3 b2 = (b2 AND 63)"

fun encode_base64 :: "bytes \<Rightarrow> bytes" where
  "encode_base64 [] = []"
| "encode_base64 [b0] = [base64_char (sextet0 b0), base64_char (sextet1 b0 0), 61, 61]"
| "encode_base64 [b0, b1] =
     [base64_char (sextet0 b0), base64_char (sextet1 b0 b1), base64_char (sextet2 b1 0), 61]"
| "encode_base64 (b0 # b1 # b2 # rest) =
     base64_char (sextet0 b0) # base64_char (sextet1 b0 b1) # base64_char (sextet2 b1 b2) # base64_char (sextet3 b2)
       # encode_base64 rest"

section \<open>Views\<close>

definition clamp_u64_to_u32 :: "u64 \<Rightarrow> u32" where
  "clamp_u64_to_u32 v = ucast (min v 0xffffffff)"

type_synonym name_cache = "u32 \<rightharpoonup> string"

definition username_for_uid :: "(u32 \<Rightarrow> string option) \<Rightarrow> name_cache \<Rightarrow> u32 \<Rightarrow> name_cache \<times> string" where
  "username_for_uid resolve cache uid =
     (if uid = 0xffffffff then (cache, ''?'')
      else case cache uid of
        Some name \<Rightarrow> (cache, name)
      | None \<Rightarrow>
          let name = (case resolve uid of Some n \<Rightarrow> n | None \<Rightarrow> nat_to_string (unat uid))
          in (cache(uid \<mapsto> name), name))"

text \<open>\<open>resolve_username_for_uid\<close>: the first field of the answer of \<open>getent passwd\<close>. The parameter is
  the standard output of a successful call.\<close>

definition resolve_username_for_uid :: "(u32 \<Rightarrow> bytes option) \<Rightarrow> u32 \<Rightarrow> string option" where
  "resolve_username_for_uid getent uid =
     Option.bind (getent uid) (\<lambda>out.
     Option.bind (from_utf8 out) (\<lambda>line.
       let name = trim (hd (split_on (CHR '':'') line)) in if name = [] then None else Some name))"

text \<open>Iterators with the shared name cache.\<close>

fun map_with :: "('s \<Rightarrow> 'a \<Rightarrow> 's \<times> 'b) \<Rightarrow> 's \<Rightarrow> 'a list \<Rightarrow> 's \<times> 'b list" where
  "map_with f s [] = (s, [])"
| "map_with f s (x # xs) = (let (s, y) = f s x; (s, ys) = map_with f s xs in (s, y # ys))"

definition process_view :: "(u32 \<Rightarrow> string option) \<Rightarrow> name_cache \<Rightarrow> GresProcessInfo \<Rightarrow> name_cache \<times> ProcessView" where
  "process_view resolve cache p =
     (let (cache, name) = username_for_uid resolve cache (gp_uid p)
      in (cache, \<lparr>pv_uid = gp_uid p, pv_username = name, pv_pid = gp_pid p, pv_command = gp_command p,
           pv_used_memory_mb = clamp_u64_to_u32 (gp_used_memory_mb p)\<rparr>))"

definition process_views_from_snapshot ::
    "(u32 \<Rightarrow> string option) \<Rightarrow> name_cache \<Rightarrow> GresProcessInfo list \<Rightarrow> name_cache \<times> ProcessView list" where
  "process_views_from_snapshot resolve cache ps = map_with (process_view resolve) cache ps"

definition gres_view :: "(u32 \<Rightarrow> string option) \<Rightarrow> name_cache \<Rightarrow> GresInfo \<Rightarrow> name_cache \<times> GresView" where
  "gres_view resolve cache g =
     (let (cache, ps) = process_views_from_snapshot resolve cache (gi_processes g)
      in (cache, \<lparr>gv_index = gi_index g, gv_name = gi_name g, gv_temperature_c = gi_temperature_c g,
           gv_util = min (gu_gres_percent (gi_utilization g)) 100,
           gv_mem_used_mb = clamp_u64_to_u32 (gm_used_mb (gi_memory g)),
           gv_mem_total_mb = clamp_u64_to_u32 (gm_total_mb (gi_memory g)), gv_processes = Some ps\<rparr>))"

definition gres_views_from_snapshot ::
    "(u32 \<Rightarrow> string option) \<Rightarrow> name_cache \<Rightarrow> ServerGresSnapshot \<Rightarrow> name_cache \<times> GresView list" where
  "gres_views_from_snapshot resolve cache s = map_with (gres_view resolve) cache (ss_gres s)"

definition node_view_from_snapshot ::
    "(u32 \<Rightarrow> string option) \<Rightarrow> name_cache \<Rightarrow> string \<Rightarrow> SocketAddr \<Rightarrow> int \<Rightarrow> ServerGresSnapshot \<Rightarrow> u64 option
      \<Rightarrow> name_cache \<times> NodeView" where
  "node_view_from_snapshot resolve cache connection_id addr ts s delay =
     (let (cache, gres) = gres_views_from_snapshot resolve cache s
      in (cache, \<lparr>nv_connection_id = connection_id, nv_hostname = ss_hostname s, nv_addr = addr_to_string addr,
           nv_timestamp_ms = ts, nv_driver_version = ss_driver_version s, nv_num = snapshot_num s,
           nv_stale = False, nv_error = None, nv_delay_us = delay, nv_gres = gres\<rparr>))"

section \<open>Payloads of older servers\<close>

fun collect_options :: "'a option list \<Rightarrow> 'a list option" where
  "collect_options [] = Some []"
| "collect_options (x # xs) = Option.bind x (\<lambda>y. map_option ((#) y) (collect_options xs))"

definition byte_item :: "json \<Rightarrow> byte option" where
  "byte_item item = Option.bind (as_u64 item) (\<lambda>v. if v \<le> 255 then Some (ucast v) else None)"

definition payload_bytes_from_server_json :: "json \<Rightarrow> bytes option" where
  "payload_bytes_from_server_json v =
     (case Option.bind (json_get ''payload_b64'' v) as_str of
        Some raw \<Rightarrow> decode_base64 raw
      | None \<Rightarrow>
          Option.bind (Option.bind (json_get ''payload'' v) as_array) (\<lambda>items.
            collect_options (map byte_item items)))"

definition parse_payload_view ::
    "(string \<Rightarrow> json option) \<Rightarrow> (bytes \<Rightarrow> string + ServerGresSnapshot) \<Rightarrow> (u32 \<Rightarrow> string option) \<Rightarrow> int \<Rightarrow> name_cache \<Rightarrow> bytes
      \<Rightarrow> name_cache \<times> (int \<times> GresView list) option" where
  "parse_payload_view json_from_str snapshot_from_bytes resolve now cache raw =
     (case Option.bind (Option.bind (Option.bind (from_utf8 raw) json_from_str) payload_bytes_from_server_json)
             (\<lambda>payload. result_ok (decode_snapshot_payload snapshot_from_bytes payload)) of
        None \<Rightarrow> (cache, None)
      | Some s \<Rightarrow> (let (cache, gres) = gres_views_from_snapshot resolve cache s in (cache, Some (now, gres))))"

definition legacy_gres_view :: "u8 \<Rightarrow> u8 \<Rightarrow> u32 \<Rightarrow> u32 \<Rightarrow> GresView" where
  "legacy_gres_view idx util used tot =
     \<lparr>gv_index = idx, gv_name = ''GPU'', gv_temperature_c = None, gv_util = util, gv_mem_used_mb = used,
      gv_mem_total_mb = tot, gv_processes = None\<rparr>"

definition parse_csv_item :: "string \<Rightarrow> GresView option" where
  "parse_csv_item item =
     (case split_on (CHR '','') item of
        [a, b, c, d] \<Rightarrow>
          (case (parse_uint 255 a, parse_uint 255 b, parse_uint (2 ^ 32 - 1) c, parse_uint (2 ^ 32 - 1) d) of
             (Some i, Some u, Some m, Some n) \<Rightarrow>
               Some (legacy_gres_view (word_of_nat i) (word_of_nat u) (word_of_nat m) (word_of_nat n))
           | _ \<Rightarrow> None)
      | _ \<Rightarrow> None)"

definition parse_round1_csv :: "string \<Rightarrow> GresView list" where
  "parse_round1_csv s = List.map_filter parse_csv_item (split_on (CHR '';'') s)"

definition parse_round1_server_json :: "(string \<Rightarrow> json option) \<Rightarrow> string \<Rightarrow> GresView list option" where
  "parse_round1_server_json json_from_str s =
     Option.bind (json_from_str s) (\<lambda>v.
     Option.bind (Option.bind (json_get ''gres_num'' v) as_u64) (\<lambda>gres_num.
     Option.bind (Option.bind (json_get ''avg_utilization'' v) as_u64) (\<lambda>avg.
       Some (map (\<lambda>idx. legacy_gres_view (word_of_nat idx) (ucast (min avg 100)) 0 0)
         [0 ..< unat (min gres_num 255)]))))"

definition parse_legacy_gres_views :: "(string \<Rightarrow> json option) \<Rightarrow> bytes \<Rightarrow> GresView list" where
  "parse_legacy_gres_views json_from_str raw =
     (let s = from_utf8_lossy raw in
      case parse_round1_server_json json_from_str s of Some v \<Rightarrow> v | None \<Rightarrow> parse_round1_csv s)"

section \<open>The response of the local API\<close>

text \<open>The parameters of the adapter: JSON parser, snapshot decoder, user names, clock.\<close>

record view_env =
  ve_json :: "string \<Rightarrow> json option"
  ve_snapshot_from_bytes :: "bytes \<Rightarrow> string + ServerGresSnapshot"
  ve_resolve :: "u32 \<Rightarrow> string option"
  ve_now :: int

definition node_view_from_entry :: "view_env \<Rightarrow> name_cache \<Rightarrow> ConnectionCacheEntry \<Rightarrow> name_cache \<times> NodeView" where
  "node_view_from_entry env cache e =
     (case cn_last_snapshot e of
        Some s \<Rightarrow> node_view_from_snapshot (ve_resolve env) cache (cn_connection_id e) (cn_addr e)
                   (cn_record_timestamp e) s (cn_last_query_latency_us e)
      | None \<Rightarrow>
          let (cache, view) = parse_payload_view (ve_json env) (ve_snapshot_from_bytes env) (ve_resolve env)
                (ve_now env) cache (cn_server_gres e);
              (ts, gres) = (case view of Some v \<Rightarrow> v
                | None \<Rightarrow> (cn_record_timestamp e, parse_legacy_gres_views (ve_json env) (cn_server_gres e)))
          in (cache, \<lparr>nv_connection_id = cn_connection_id e, nv_hostname = cn_hostname e,
               nv_addr = addr_to_string (cn_addr e), nv_timestamp_ms = ts, nv_driver_version = None,
               nv_num = cn_num e, nv_stale = True, nv_error = cn_last_error e,
               nv_delay_us = cn_last_query_latency_us e, nv_gres = gres\<rparr>))"

definition apply_user_filter :: "string option \<Rightarrow> NodeView \<Rightarrow> NodeView" where
  "apply_user_filter user node =
     (case user of
        None \<Rightarrow> node
      | Some u \<Rightarrow>
          if u = [] then node
          else node\<lparr>nv_gres := map (\<lambda>g. g\<lparr>gv_processes :=
                 map_option (filter (\<lambda>p. pv_username p = u)) (gv_processes g)\<rparr>) (nv_gres node)\<rparr>)"

definition build_query_response ::
    "view_env \<Rightarrow> name_cache \<Rightarrow> CacheMap \<Rightarrow> string option \<Rightarrow> string option \<Rightarrow> name_cache \<times> ApiQueryResponse" where
  "build_query_response env cache rows filter_text user =
     (let f = node_filter_parse filter_text;
          (cache, views) = map_with (node_view_from_entry env) cache
             (filter (\<lambda>e. entry_matches_filter e f) (map snd rows));
          nodes = sort_key nv_connection_id (map (apply_user_filter user) views)
      in (cache, \<lparr>ar_meta = \<lparr>qm_status = (if nodes = [] then ''empty'' else ''ok''), qm_timestamp_ms = ve_now env,
             qm_node_count = length nodes, qm_errors = []\<rparr>, ar_nodes = nodes\<rparr>))"

section \<open>Base64 round trip\<close>

lemma base64_table: "v < 64 \<Longrightarrow> base64_value (base64_char v) = Some v"
proof -
  have *: "list_all (\<lambda>n. base64_value (base64_char (word_of_nat n)) = Some (word_of_nat n)) [0 ..< 64]"
    by code_simp
  assume "v < 64"
  then have "unat v < 64" by (simp add: word_less_nat_alt)
  with * have "base64_value (base64_char (word_of_nat (unat v))) = Some (word_of_nat (unat v))"
    by (simp only: list_all_iff set_upt Ball_def atLeastLessThan_iff le0 simp_thms)
  then show ?thesis by simp
qed

lemma sixbit_less: "(\<And>n. bit (v :: u8) n \<Longrightarrow> n < 6) \<Longrightarrow> v < 64"
proof -
  assume "\<And>n. bit v n \<Longrightarrow> n < 6"
  then have "take_bit 6 v = v" by (auto intro!: bit_word_eqI simp: bit_simps)
  then have "v = v mod 64" by (simp add: take_bit_eq_mod)
  then show ?thesis using word_mod_less_divisor [of 64 v] by simp
qed

lemma and_masks: "(b :: u8) AND 3 = take_bit 2 b" "b AND 15 = take_bit 4 b" "b AND 63 = take_bit 6 b"
  by (simp_all add: take_bit_eq_mask mask_eq_exp_minus_1)

lemma sextet_less [simp]: "sextet0 b < 64" "sextet1 b c < 64" "sextet2 b c < 64" "sextet3 b < 64"
  unfolding sextet0_def sextet1_def sextet2_def sextet3_def
  by (rule sixbit_less; auto simp: and_masks bit_simps dest: bit_imp_le_length)+

lemma sextet_not_padding [simp]: "sextet0 b \<noteq> 64" "sextet1 b c \<noteq> 64" "sextet2 b c \<noteq> 64" "sextet3 b \<noteq> 64"
  using sextet_less by (metis less_irrefl)+

lemma bit_offset: "bit b n \<Longrightarrow> \<not> bit b (k + (n - k)) \<Longrightarrow> n < k"
  by (cases "n < k") simp_all

lemma sextets_join [simp]:
  "push_bit 2 (sextet0 b0) OR drop_bit 4 (sextet1 b0 b1) = b0"
  "push_bit 4 (sextet1 b0 b1) OR drop_bit 2 (sextet2 b1 b2) = b1"
  "push_bit 6 (sextet2 b1 b2) OR sextet3 b2 = b2"
  unfolding sextet0_def sextet1_def sextet2_def sextet3_def
  by (rule bit_word_eqI; auto simp: and_masks bit_simps simp del: add_2_eq_Suc add_2_eq_Suc'
        dest: bit_imp_le_length intro: bit_offset)+

lemma base64_value_char [simp]: "base64_value (base64_char (sextet0 b)) = Some (sextet0 b)"
  "base64_value (base64_char (sextet1 b c)) = Some (sextet1 b c)"
  "base64_value (base64_char (sextet2 b c)) = Some (sextet2 b c)"
  "base64_value (base64_char (sextet3 b)) = Some (sextet3 b)"
  by (simp_all add: base64_table)

lemma base64_loop_encode: "base64_loop [] out (encode_base64 bs) = Some (out @ bs)"
proof (induction bs arbitrary: out rule: encode_base64.induct)
  case (2 b0)
  have "base64_value 61 = Some 64" by (simp add: base64_value_def)
  then show ?case by (simp add: base64_chunk_def)
next
  case (3 b0 b1)
  have "base64_value 61 = Some 64" by (simp add: base64_value_def)
  then show ?case by (simp add: base64_chunk_def)
qed (simp_all add: base64_chunk_def)

lemma base64_char_graphic: "v < 64 \<Longrightarrow> \<not> is_ascii_whitespace (base64_char v)"
  using base64_table [of v] by (auto simp: is_ascii_whitespace_def base64_value_def)

lemma encode_graphic: "b \<in> set (encode_base64 bs) \<Longrightarrow> \<not> is_ascii_whitespace b"
proof (induction bs rule: encode_base64.induct)
qed (auto simp: base64_char_graphic, simp_all add: is_ascii_whitespace_def)

text \<open>Decoding undoes base64: the text an encoder produces for any bytes, with the padding at
  its end, is read back as exactly these bytes.\<close>

theorem base64_roundtrip: "decode_base64 (string_of_bytes (encode_base64 bs)) = Some bs"
proof -
  have "filter (\<lambda>b. \<not> is_ascii_whitespace b) (encode_base64 bs) = encode_base64 bs"
    by (simp add: filter_id_conv encode_graphic)
  then show ?thesis by (simp add: decode_base64_def base64_loop_encode)
qed

lemma clamp_exact: "unat (clamp_u64_to_u32 v) = min (unat v) (2 ^ 32 - 1)"
proof (cases "v \<le> 0xffffffff")
  case True
  then have "unat v \<le> 2 ^ 32 - 1" by (simp add: word_le_nat_alt)
  then have "unat v < 2 ^ 32" by simp
  with True show ?thesis by (simp add: clamp_u64_to_u32_def min_def unsigned_ucast_eq take_bit_nat_eq_self)
next
  case False
  then have "2 ^ 32 - 1 < unat v" by (simp add: word_le_nat_alt)
  with False show ?thesis by (simp add: clamp_u64_to_u32_def min_def)
qed

section \<open>The memoised user names\<close>

text \<open>Every cached name is the one a lookup gives; \<open>memo_safe\<close> says that an operation keeps this and
  that its result does not depend on what is cached.\<close>

definition resolved_name :: "(u32 \<Rightarrow> string option) \<Rightarrow> u32 \<Rightarrow> string" where
  "resolved_name resolve uid = (case resolve uid of Some n \<Rightarrow> n | None \<Rightarrow> nat_to_string (unat uid))"

definition names_ok :: "(u32 \<Rightarrow> string option) \<Rightarrow> name_cache \<Rightarrow> bool" where
  "names_ok resolve cache \<longleftrightarrow> (\<forall>uid name. cache uid = Some name \<longrightarrow> name = resolved_name resolve uid)"

definition memo_safe ::
    "(u32 \<Rightarrow> string option) \<Rightarrow> (name_cache \<Rightarrow> 'a \<Rightarrow> name_cache \<times> 'b) \<Rightarrow> ('a \<Rightarrow> 'b) \<Rightarrow> bool" where
  "memo_safe r f g \<longleftrightarrow> (\<forall>c x. names_ok r c \<longrightarrow> names_ok r (fst (f c x)) \<and> snd (f c x) = g x)"

lemma memo_safeI: "(\<And>c x. names_ok r c \<Longrightarrow> names_ok r (fst (f c x)) \<and> snd (f c x) = g x) \<Longrightarrow> memo_safe r f g"
  by (simp add: memo_safe_def)

lemma memo_safeD: "memo_safe r f g \<Longrightarrow> names_ok r c \<Longrightarrow> names_ok r (fst (f c x)) \<and> snd (f c x) = g x"
  by (simp add: memo_safe_def)

lemma memo_safe_map:
  assumes "memo_safe r f g"
  shows "memo_safe r (map_with f) (map g)"
proof (rule memo_safeI)
  fix c xs
  assume "names_ok r c"
  then show "names_ok r (fst (map_with f c xs)) \<and> snd (map_with f c xs) = map g xs"
    using memo_safeD [OF assms] by (induction xs arbitrary: c) (auto simp: case_prod_beta Let_def)
qed

lemma names_ok_empty [simp]: "names_ok resolve Map.empty"
  by (simp add: names_ok_def)

lemma username_memo: "memo_safe r (username_for_uid r) (\<lambda>uid. snd (username_for_uid r Map.empty uid))"
  by (rule memo_safeI)
    (auto simp: username_for_uid_def names_ok_def Let_def resolved_name_def [symmetric] split: option.split)

lemma process_memo:
  "memo_safe r (process_view r) (\<lambda>p. snd (process_view r Map.empty p))"
proof (rule memo_safeI)
  fix s p
  assume "names_ok r s"
  from memo_safeD [OF username_memo this, of "gp_uid p"]
  show "names_ok r (fst (process_view r s p)) \<and> snd (process_view r s p) = snd (process_view r Map.empty p)"
    by (simp add: process_view_def case_prod_beta Let_def)
qed

lemma gres_memo:
  "memo_safe r (gres_view r) (\<lambda>g. snd (gres_view r Map.empty g))"
proof (rule memo_safeI)
  fix s and g :: GresInfo
  assume ok: "names_ok r s"
  note ps = memo_safe_map [OF process_memo, of r]
  from memo_safeD [OF ps ok, of "gi_processes g"] memo_safeD [OF ps names_ok_empty, of "gi_processes g"]
  show "names_ok r (fst (gres_view r s g)) \<and> snd (gres_view r s g) = snd (gres_view r Map.empty g)"
    by (simp add: gres_view_def process_views_from_snapshot_def case_prod_beta Let_def)
qed

lemma gres_list_memo:
  "memo_safe r (gres_views_from_snapshot r) (\<lambda>s. snd (gres_views_from_snapshot r Map.empty s))"
proof (rule memo_safeI)
  fix c and s :: ServerGresSnapshot
  assume ok: "names_ok r c"
  note gs = memo_safe_map [OF gres_memo, of r]
  from memo_safeD [OF gs ok, of "ss_gres s"] memo_safeD [OF gs names_ok_empty, of "ss_gres s"]
  show "names_ok r (fst (gres_views_from_snapshot r c s)) \<and>
      snd (gres_views_from_snapshot r c s) = snd (gres_views_from_snapshot r Map.empty s)"
    by (simp add: gres_views_from_snapshot_def)
qed

lemma node_memo:
  "memo_safe (ve_resolve env) (node_view_from_entry env) (\<lambda>e. snd (node_view_from_entry env Map.empty e))"
proof (rule memo_safeI)
  fix c e
  assume ok: "names_ok (ve_resolve env) c"
  show "names_ok (ve_resolve env) (fst (node_view_from_entry env c e)) \<and>
      snd (node_view_from_entry env c e) = snd (node_view_from_entry env Map.empty e)"
  proof (cases "cn_last_snapshot e")
    case (Some s)
    with memo_safeD [OF gres_list_memo ok, of s] show ?thesis
      by (simp add: node_view_from_entry_def node_view_from_snapshot_def case_prod_beta Let_def)
  next
    case None
    with ok memo_safeD [OF gres_list_memo ok] show ?thesis
      by (auto simp: node_view_from_entry_def parse_payload_view_def case_prod_beta Let_def split: option.splits)
  qed
qed

lemma user_filter_processes:
  assumes "user = Some u" "u \<noteq> []" "g \<in> set (nv_gres (apply_user_filter user n))" "gv_processes g = Some ps" "p \<in> set ps"
  shows "pv_username p = u"
  using assms by (auto simp: apply_user_filter_def)

lemma apply_user_filter_id [simp]: "nv_connection_id (apply_user_filter user n) = nv_connection_id n"
  "length (nv_gres (apply_user_filter user n)) = length (nv_gres n)"
  by (auto simp: apply_user_filter_def split: option.split)


definition demo_views :: view_env where
  "demo_views = \<lparr>ve_json = (\<lambda>_. None), ve_snapshot_from_bytes = (\<lambda>_. Err []),
     ve_resolve = [1000 \<mapsto> ''alice''], ve_now = 7\<rparr>"

definition demo_rows :: CacheMap where
  "demo_rows = upsert_snapshot 5 (build_cache [\<lparr>dn_hostname = ''node-b'', dn_addr = V4 0x0a000002 30000, dn_ts_ms = 3\<rparr>])
     ''conn-002'' (V4 0x0a000001 30000) sample_snapshot (Some 42)"


end
