(* ===== verification/Client_Discovery.thy ===== *)
theory Client_Discovery
  imports Client_Views Server_Startup
begin

text \<open>
  Node discovery of the client, \<^verbatim>\<open>crates/client-backend/src/discovery.rs\<close>: static nodes, the
  multicast query, and the announcements of servers. Name resolution, the JSON parser and the
  sockets are parameters; \<open>now\<close> readings are given per message. A \<open>HashMap\<close> of nodes is an
  association list under the text of the address.
\<close>

section \<open>Addresses\<close>

definition resolve_addr :: "(string \<Rightarrow> string + SocketAddr list) \<Rightarrow> string \<Rightarrow> string + SocketAddr" where
  "resolve_addr to_socket_addrs raw =
     (case to_socket_addrs raw of
        Err e \<Rightarrow> Err (''resolve address '' @ quote raw @ '' failed: '' @ e)
      | Ok [] \<Rightarrow> Err (''no resolved address for '' @ quote raw)
      | Ok (a # _) \<Rightarrow> Ok a)"

definition INVALID_IPV4 :: string where
  "INVALID_IPV4 = ''invalid IPv4 address syntax''"

definition parse_multicast_outbound_ips :: "string list \<Rightarrow> string + u32 list" where
  "parse_multicast_outbound_ips raw =
     collect_results (map (\<lambda>item. case parse_ipv4 item of
         Some ip \<Rightarrow> Ok ip
       | None \<Rightarrow> Err (''invalid multicast_outbound_ip '' @ quote item @ '': '' @ INVALID_IPV4))
       (filter (\<lambda>item. item \<noteq> []) (map trim raw)))"

section \<open>Static nodes\<close>

datatype env_var = VarMissing | VarInvalid string | VarText string

fun static_loop ::
    "(string \<Rightarrow> string + SocketAddr list) \<Rightarrow> (string \<Rightarrow> int) \<Rightarrow> SocketAddr list \<Rightarrow> string list \<Rightarrow> DiscoveredNode list" where
  "static_loop to_socket_addrs now seen [] = []"
| "static_loop to_socket_addrs now seen (item # items) =
     (case resolve_addr to_socket_addrs item of
        Err _ \<Rightarrow> static_loop to_socket_addrs now seen items
      | Ok addr \<Rightarrow>
          if addr \<in> set seen then static_loop to_socket_addrs now seen items
          else \<lparr>dn_hostname = ip_to_string (addr_ip addr), dn_addr = addr, dn_ts_ms = now item\<rparr>
            # static_loop to_socket_addrs now (addr # seen) items)"

definition parse_static_nodes ::
    "(string \<Rightarrow> string + SocketAddr list) \<Rightarrow> (string \<Rightarrow> int) \<Rightarrow> string \<Rightarrow> string + DiscoveredNode list" where
  "parse_static_nodes to_socket_addrs now raw =
     Ok (static_loop to_socket_addrs now [] (filter (\<lambda>s. s \<noteq> []) (map trim (split_on (CHR '','') raw))))"

definition static_nodes_from_env ::
    "(string \<Rightarrow> string + SocketAddr list) \<Rightarrow> (string \<Rightarrow> int) \<Rightarrow> env_var \<Rightarrow> string + DiscoveredNode list" where
  "static_nodes_from_env to_socket_addrs now v =
     (case v of
        VarText raw \<Rightarrow> parse_static_nodes to_socket_addrs now raw
      | VarMissing \<Rightarrow> Ok []
      | VarInvalid e \<Rightarrow> Err (''read CLUSTAT_STATIC_NODES failed: '' @ e))"

section \<open>Merging\<close>

definition node_key :: "DiscoveredNode \<Rightarrow> string" where
  "node_key n = addr_to_string (dn_addr n)"

definition insert_node :: "(string \<times> DiscoveredNode) list \<Rightarrow> DiscoveredNode \<Rightarrow> (string \<times> DiscoveredNode) list" where
  "insert_node m n = AList.update (node_key n) n m"

definition sorted_nodes :: "(string \<times> DiscoveredNode) list \<Rightarrow> DiscoveredNode list" where
  "sorted_nodes m = sort_key node_key (map snd m)"

definition merge_discovered_nodes :: "DiscoveredNode list \<Rightarrow> DiscoveredNode list \<Rightarrow> DiscoveredNode list" where
  "merge_discovered_nodes discovered static_nodes = sorted_nodes (foldl insert_node [] (discovered @ static_nodes))"

section \<open>Announcements\<close>

text \<open>\<open>v.try_into().ok()\<close> into a narrower unsigned type.\<close>

definition narrow :: "u64 \<Rightarrow> 'a::len word option" where
  "narrow v = (if unat v < 2 ^ LENGTH('a) then Some (word_of_nat (unat v)) else None)"

definition narrow_field :: "string \<Rightarrow> json \<Rightarrow> 'a::len word option" where
  "narrow_field k raw = Option.bind (Option.bind (json_get k raw) as_u64) narrow"

definition parse_legacy_announce :: "(string \<Rightarrow> json option) \<Rightarrow> string \<Rightarrow> DiscoveryAnnounce option" where
  "parse_legacy_announce json_from_str msg =
     Option.bind (json_from_str msg) (\<lambda>raw.
     Option.bind (Option.bind (json_get ''hostname'' raw) as_str) (\<lambda>hostname.
     Option.bind (Option.bind (json_get ''ip'' raw) as_str) (\<lambda>ip.
     Option.bind (narrow_field ''port'' raw) (\<lambda>port.
       Some \<lparr>da_version = (case narrow_field ''version'' raw of Some v \<Rightarrow> v | None \<Rightarrow> PROTOCOL_VERSION),
             da_hostname = hostname, da_ip = ip, da_port = port,
             da_tcp_port = narrow_field ''tcp_port'' raw, da_kcp_port = None,
             da_udp_port = narrow_field ''udp_port'' raw, da_ttl = narrow_field ''ttl'' raw,
             da_load = narrow_field ''load'' raw,
             da_degraded = Option.bind (json_get ''degraded'' raw) as_bool\<rparr>))))"

text \<open>The parsers of a message: the typed one of the current format, and the JSON tree.\<close>

record announce_parsers =
  ap_announce :: "string \<Rightarrow> string + DiscoveryAnnounce"
  ap_json :: "string \<Rightarrow> json option"

definition announced_port :: "string \<Rightarrow> DiscoveryAnnounce \<Rightarrow> u16" where
  "announced_port protocol ann =
     (if to_ascii_lowercase (trim protocol) = ''tcp''
      then (case da_tcp_port ann of Some p \<Rightarrow> p | None \<Rightarrow> da_port ann)
      else (case da_udp_port ann of Some p \<Rightarrow> p | None \<Rightarrow> da_port ann))"

definition parse_announce_for_protocol ::
    "announce_parsers \<Rightarrow> int \<Rightarrow> string \<Rightarrow> SocketAddr \<Rightarrow> string \<Rightarrow> DiscoveredNode option" where
  "parse_announce_for_protocol ps now msg src protocol =
     Option.bind (case ap_announce ps msg of Ok ann \<Rightarrow> Some ann | Err _ \<Rightarrow> parse_legacy_announce (ap_json ps) msg)
       (\<lambda>ann. if da_version ann \<noteq> PROTOCOL_VERSION then None
         else Some \<lparr>dn_hostname = da_hostname ann,
           dn_addr = socket_addr_new (addr_ip src) (announced_port protocol ann), dn_ts_ms = now\<rparr>)"

text \<open>What a \<open>recv_from\<close> gives: a datagram with its sender and the clock, a timeout, or an error.\<close>

datatype announce_event = Heard bytes SocketAddr int | Quiet | HearFailed string

definition RECV_ANNOUNCE_LEN :: nat where
  "RECV_ANNOUNCE_LEN = 2048"

definition recv_announce_for_protocol ::
    "announce_parsers \<Rightarrow> string \<Rightarrow> announce_event \<Rightarrow> string + DiscoveredNode option" where
  "recv_announce_for_protocol ps protocol ev =
     (case ev of
        Heard d src now \<Rightarrow>
          Ok (parse_announce_for_protocol ps now (from_utf8_lossy (take RECV_ANNOUNCE_LEN d)) src protocol)
      | Quiet \<Rightarrow> Ok None
      | HearFailed e \<Rightarrow> Err (''recv announce failed: '' @ e))"

section \<open>The discovery query\<close>

text \<open>The sockets: errors of creating one for an interface, of setting its timeout, and of sending the
  query, the last one with the number of the operating system.\<close>

record discovery_sockets =
  so_create :: "u32 option \<Rightarrow> string option"
  so_timeout :: "u32 option \<Rightarrow> string option"
  so_send :: "u32 option \<Rightarrow> bytes \<Rightarrow> (string \<times> nat option) option"

fun open_sockets ::
    "discovery_sockets \<Rightarrow> bytes \<Rightarrow> SocketAddr \<Rightarrow> u32 option list \<Rightarrow> string option
      \<Rightarrow> string + (u32 option list \<times> string option)" where
  "open_sockets so query target [] first_error = Ok ([], first_error)"
| "open_sockets so query target (i # is) first_error =
     (case so_create so i of
        Some e \<Rightarrow> Err (''udp bind failed: '' @ e)
      | None \<Rightarrow>
          (case so_timeout so i of
             Some e \<Rightarrow> Err (''set read timeout failed: '' @ e)
           | None \<Rightarrow>
               (case so_send so i query of
                  None \<Rightarrow> map_ok (map_prod ((#) i) id) (open_sockets so query target is first_error)
                | Some (e, os_error) \<Rightarrow>
                    let message = multicast_route_hint
                          (''send query to '' @ addr_to_string target @ '' failed: '' @ e) os_error
                    in open_sockets so query target is
                         (case first_error of None \<Rightarrow> Some message | Some m \<Rightarrow> Some m))))"

text \<open>One pass over the sockets, and the loop until the deadline. A pass comes with the clock reading
  of the loop test; \<open>None\<close> is a loop that is still running at the end of the events.\<close>

fun hear_pass ::
    "announce_parsers \<Rightarrow> string \<Rightarrow> (string \<times> DiscoveredNode) list \<Rightarrow> announce_event list
      \<Rightarrow> string + (string \<times> DiscoveredNode) list" where
  "hear_pass ps protocol m [] = Ok m"
| "hear_pass ps protocol m (ev # evs) =
     and_then (recv_announce_for_protocol ps protocol ev) (\<lambda>r. case r of
         Some node \<Rightarrow> hear_pass ps protocol (insert_node m node) evs
       | None \<Rightarrow> hear_pass ps protocol m evs)"

fun hear_loop ::
    "announce_parsers \<Rightarrow> string \<Rightarrow> instant \<Rightarrow> (string \<times> DiscoveredNode) list \<Rightarrow> (instant \<times> announce_event list) list
      \<Rightarrow> (string + (string \<times> DiscoveredNode) list) option" where
  "hear_loop ps protocol deadline m [] = None"
| "hear_loop ps protocol deadline m ((t, evs) # rounds) =
     (if \<not> t < deadline then Some (Ok m)
      else case hear_pass ps protocol m evs of
        Err e \<Rightarrow> Some (Err e)
      | Ok m' \<Rightarrow> hear_loop ps protocol deadline m' rounds)"

definition discover_nodes ::
    "(string \<Rightarrow> string + SocketAddr list) \<Rightarrow> (DiscoveryQuery \<Rightarrow> string + bytes) \<Rightarrow> discovery_sockets \<Rightarrow> announce_parsers
      \<Rightarrow> string \<Rightarrow> nat \<Rightarrow> string list \<Rightarrow> string \<Rightarrow> instant \<Rightarrow> (instant \<times> announce_event list) list
      \<Rightarrow> (string + DiscoveredNode list) option" where
  "discover_nodes to_socket_addrs to_vec so ps multicast_addr wait outbound_ips protocol start rounds =
     (case and_then (resolve_addr to_socket_addrs multicast_addr) (\<lambda>target.
           and_then (parse_multicast_outbound_ips outbound_ips) (\<lambda>outbound.
           and_then (map_err (\<lambda>e. ''encode discovery query failed: '' @ e)
               (to_vec \<lparr>dq_version = PROTOCOL_VERSION\<rparr>)) (\<lambda>query.
             map_ok (Pair target) (open_sockets so query target (announce_interfaces outbound) None)))) of
        Err e \<Rightarrow> Some (Err e)
      | Ok (target, [], first_error) \<Rightarrow>
          Some (Err (case first_error of Some e \<Rightarrow> e
            | None \<Rightarrow> ''send query to '' @ addr_to_string target @ '' failed on every outbound IP''))
      | Ok (_, _ # _, _) \<Rightarrow>
          map_option (map_ok sorted_nodes) (hear_loop ps protocol (start + wait) [] rounds))"

section \<open>The listener\<close>

definition listen_for_announces ::
    "(string \<Rightarrow> string + SocketAddr list) \<Rightarrow> (u16 \<Rightarrow> string option) \<Rightarrow> (u32 \<Rightarrow> u32 \<Rightarrow> bool)
      \<Rightarrow> string \<Rightarrow> string list \<Rightarrow> string + SocketAddr" where
  "listen_for_announces to_socket_addrs bind join_ok multicast_addr outbound_ips =
     and_then (resolve_addr to_socket_addrs multicast_addr) (\<lambda>multicast.
       case bind (addr_port multicast) of
         Some e \<Rightarrow> Err (''announce listener bind failed: '' @ e)
       | None \<Rightarrow>
           (case multicast of
              V4 grp _ \<Rightarrow>
                and_then (parse_multicast_outbound_ips outbound_ips) (\<lambda>outbound.
                  if \<exists>i \<in> set (if outbound = [] then [0] else outbound). join_ok grp i then Ok multicast
                  else Err ''announce listener failed to join every multicast interface'')
            | V6 _ _ \<Rightarrow> Ok multicast))"

section \<open>Tables of nodes\<close>

text \<open>The most recent node of a list with a given address text.\<close>

definition last_heard :: "DiscoveredNode list \<Rightarrow> string \<Rightarrow> DiscoveredNode option" where
  "last_heard ns k = find (\<lambda>n. node_key n = k) (rev ns)"

lemma insert_nodes_keyed: "keyed node_key m \<Longrightarrow> keyed node_key (foldl insert_node m ns)"
  by (induction ns arbitrary: m) (simp_all add: insert_node_def keyed_update)

lemma insert_nodes_lookup: "map_of (foldl insert_node [] ns) k = last_heard ns k"
  by (induction ns rule: rev_induct) (auto simp: insert_node_def last_heard_def update_conv')

lemma sorted_nodes_spec:
  assumes "keyed node_key m"
  shows "sorted (map node_key (sorted_nodes m))" "distinct (map node_key (sorted_nodes m))"
    and "n \<in> set (sorted_nodes m) \<longleftrightarrow> map_of m (node_key n) = Some n"
proof -
  have "mset (map node_key (sorted_nodes m)) = mset (map fst m)"
    by (simp only: sorted_nodes_def mset_map mset_sort flip: keyed_values [OF assms])
  then show "distinct (map node_key (sorted_nodes m))"
    using assms by (metis mset_eq_imp_distinct_iff keyed_def)
qed (use keyed_value_iff [OF assms, of n] in \<open>simp_all add: sorted_nodes_def\<close>)

lemma collected_nodes:
  "sorted (map node_key (sorted_nodes (foldl insert_node [] ns)))"
  "distinct (map node_key (sorted_nodes (foldl insert_node [] ns)))"
  "n \<in> set (sorted_nodes (foldl insert_node [] ns)) \<longleftrightarrow> last_heard ns (node_key n) = Some n"
  using sorted_nodes_spec [OF insert_nodes_keyed [of "[]" ns]] by (simp_all add: insert_nodes_lookup)

lemma find_Some_in: "find P xs = Some x \<Longrightarrow> x \<in> set xs \<and> P x"
  by (induction xs) (auto split: if_splits)

lemma last_heard_SomeD: "last_heard ns k = Some n \<Longrightarrow> n \<in> set ns \<and> node_key n = k"
  using find_Some_in by (fastforce simp: last_heard_def)

lemma last_heard_exists: "n \<in> set ns \<Longrightarrow> \<exists>n'. last_heard ns (node_key n) = Some n'"
  by (cases "last_heard ns (node_key n)") (auto simp: last_heard_def find_None_iff)

lemma find_append: "find P (us @ vs) = (case find P us of Some n \<Rightarrow> Some n | None \<Rightarrow> find P vs)"
  by (induction us) auto

lemma last_heard_append:
  "last_heard (xs @ ys) k = (case last_heard ys k of Some n \<Rightarrow> Some n | None \<Rightarrow> last_heard xs k)"
  by (simp add: last_heard_def find_append split: option.split)

section \<open>What is heard\<close>

definition heard_node :: "announce_parsers \<Rightarrow> string \<Rightarrow> announce_event \<Rightarrow> DiscoveredNode option" where
  "heard_node ps protocol ev = (case recv_announce_for_protocol ps protocol ev of Ok r \<Rightarrow> r | Err _ \<Rightarrow> None)"

definition heard_until ::
    "announce_parsers \<Rightarrow> string \<Rightarrow> instant \<Rightarrow> (instant \<times> announce_event list) list \<Rightarrow> DiscoveredNode list" where
  "heard_until ps protocol deadline rounds =
     List.map_filter (heard_node ps protocol) (concat (map snd (takeWhile (\<lambda>(t, _). t < deadline) rounds)))"

lemma hear_pass_Ok:
  "hear_pass ps protocol m evs = Ok m' \<longleftrightarrow>
     (\<forall>e. HearFailed e \<notin> set evs) \<and> m' = foldl insert_node m (List.map_filter (heard_node ps protocol) evs)"
  by (induction ps protocol m evs rule: hear_pass.induct)
    (auto simp: map_filter_simps heard_node_def recv_announce_for_protocol_def split: option.splits announce_event.splits)

lemma map_filter_append: "List.map_filter f (xs @ ys) = List.map_filter f xs @ List.map_filter f ys"
  by (simp add: List.map_filter_def)

lemma hear_loop_Ok:
  "hear_loop ps protocol deadline m rounds = Some (Ok m') \<Longrightarrow>
     m' = foldl insert_node m (heard_until ps protocol deadline rounds)"
  by (induction ps protocol deadline m rounds rule: hear_loop.induct)
    (auto simp: heard_until_def map_filter_append map_filter_simps hear_pass_Ok split: if_splits sum.splits)

lemma hear_loop_returns:
  "\<forall>(t, evs) \<in> set rounds. \<forall>e. HearFailed e \<notin> set evs \<Longrightarrow> \<exists>(t, evs) \<in> set rounds. deadline \<le> t \<Longrightarrow>
     \<exists>m'. hear_loop ps protocol deadline m rounds = Some (Ok m')"
proof (induction ps protocol deadline m rounds rule: hear_loop.induct)
  case (2 ps protocol deadline m t evs rounds)
  show ?case
  proof (cases "t < deadline")
    case True
    from 2(2) have "hear_pass ps protocol m evs = Ok (foldl insert_node m (List.map_filter (heard_node ps protocol) evs))"
      by (simp add: hear_pass_Ok)
    with 2 True show ?thesis by auto
  qed simp
qed simp

section \<open>Properties\<close>

text \<open>Merging keeps one node per address, ordered by address; the statically configured node of
  an address wins over the discovered ones, and of those the one heard last.\<close>

theorem merged_nodes_exact:
  fixes nodes discovered static_nodes :: "DiscoveredNode list"
  assumes "merge_discovered_nodes discovered static_nodes = nodes"
  shows "sorted (map node_key nodes) \<and> distinct (map node_key nodes)
    \<and> (\<forall>n. n \<in> set nodes \<longleftrightarrow>
         (case last_heard static_nodes (node_key n) of
            Some s \<Rightarrow> n = s
          | None \<Rightarrow> last_heard discovered (node_key n) = Some n))"
  using assms collected_nodes [where ns = "discovered @ static_nodes"]
  by (auto simp: merge_discovered_nodes_def last_heard_append split: option.splits)

theorem merged_nodes_exact_witness:
  "sorted (map node_key (merge_discovered_nodes [\<lparr>dn_hostname = ''a'', dn_addr = V4 1 2, dn_ts_ms = 3\<rparr>]
     [\<lparr>dn_hostname = ''b'', dn_addr = V4 1 2, dn_ts_ms = 4\<rparr>]))"
  using merged_nodes_exact [OF refl] by blast

text \<open>C24: a server that answers the multicast query is found. When its answer is heard before the
  deadline, the query that ends successfully lists a node at the address the answer came
  from, with the port of the client's protocol.\<close>

theorem answering_server_discovered:
  assumes codec: "\<forall>a m. to_vec a = Ok m \<longrightarrow> ap_announce ps (from_utf8_lossy m) = Ok a"
    and answer: "discovery_answer query_from_slice to_vec hostname ip udp tcp q = Some msg"
    and small: "length msg \<le> 2048"
    and heard: "(t, evs) \<in> set (takeWhile (\<lambda>(t, _). t < start + wait) rounds)" "Heard msg src now \<in> set evs"
    and ok: "discover_nodes to_socket_addrs query_to_vec so ps multicast wait outbound protocol start rounds = Some (Ok nodes)"
  shows "\<exists>n \<in> set nodes. node_key n =
    addr_to_string (socket_addr_new (addr_ip src) (if to_ascii_lowercase (trim protocol) = ''tcp'' then tcp else udp))"
proof -
  let ?port = "if to_ascii_lowercase (trim protocol) = ''tcp'' then tcp else udp"
  define node where "node = \<lparr>dn_hostname = hostname, dn_addr = socket_addr_new (addr_ip src) ?port, dn_ts_ms = now\<rparr>"
  from codec answer have "ap_announce ps (from_utf8_lossy msg) = Ok (discovery_announce hostname ip udp tcp)"
    by (auto simp: discovery_answer_def split: sum.splits elim: result_ok.elims)
  with small have "heard_node ps protocol (Heard msg src now) = Some node"
    by (simp add: heard_node_def recv_announce_for_protocol_def parse_announce_for_protocol_def RECV_ANNOUNCE_LEN_def
        announced_port_def discovery_announce_def node_def)
  with heard have "node \<in> set (heard_until ps protocol (start + wait) rounds)"
    by (force simp: heard_until_def List.map_filter_def)
  then obtain n where n: "last_heard (heard_until ps protocol (start + wait) rounds) (node_key node) = Some n"
    using last_heard_exists by blast
  from ok obtain m where "hear_loop ps protocol (start + wait) [] rounds = Some (Ok m)" and nodes: "nodes = sorted_nodes m"
    by (auto simp: discover_nodes_def result_simps split: sum.splits list.splits)
  then have "nodes = sorted_nodes (foldl insert_node [] (heard_until ps protocol (start + wait) rounds))"
    using hear_loop_Ok by blast
  moreover from last_heard_SomeD [OF n] have "node_key n = node_key node" by simp
  ultimately have "n \<in> set nodes" using n by (simp only: collected_nodes(3))
  with \<open>node_key n = node_key node\<close> show ?thesis by (auto simp: node_key_def node_def)
qed

definition demo_announce :: DiscoveryAnnounce where
  "demo_announce = discovery_announce ''node-a'' ''10.0.0.1'' 30001 30000"

definition demo_parsers :: announce_parsers where
  "demo_parsers = \<lparr>ap_announce = (\<lambda>_. Ok demo_announce), ap_json = (\<lambda>_. None)\<rparr>"

definition demo_sockets :: discovery_sockets where
  "demo_sockets = \<lparr>so_create = (\<lambda>_. None), so_timeout = (\<lambda>_. None), so_send = (\<lambda>_ _. None)\<rparr>"

theorem answering_server_discovered_witness:
  "\<exists>n \<in> set [\<lparr>dn_hostname = ''node-a'', dn_addr = V4 0x0a000001 30001, dn_ts_ms = 7\<rparr>].
     node_key n = addr_to_string (V4 0x0a000001 30001)"
proof -
  let ?to_vec = "\<lambda>a. if a = demo_announce then Ok [1] else Err ''no''"
  let ?msg = "[1] :: bytes"
  have other: "to_ascii_lowercase [] = []" by (simp add: to_ascii_lowercase_def)
  have "discover_nodes (\<lambda>_. Ok [V4 0xe0000001 5000]) (\<lambda>_. Ok []) demo_sockets demo_parsers [] 5 [] [] 0
      [(1, [Heard ?msg (V4 0x0a000001 999) 7]), (9, [])] =
      Some (Ok [\<lparr>dn_hostname = ''node-a'', dn_addr = V4 0x0a000001 30001, dn_ts_ms = 7\<rparr>])"
    by (simp add: discover_nodes_def resolve_addr_def parse_multicast_outbound_ips_def announce_interfaces_def
        demo_sockets_def recv_announce_for_protocol_def parse_announce_for_protocol_def demo_parsers_def
        demo_announce_def discovery_announce_def announced_port_def other insert_node_def sorted_nodes_def)
  from answering_server_discovered [OF _ _ _ _ _ this, of ?to_vec "\<lambda>_. Ok \<lparr>dq_version = 1\<rparr>" "''node-a''" "''10.0.0.1''"
      30001 30000 "[]" ?msg 1 "[Heard ?msg (V4 0x0a000001 999) 7]" "V4 0x0a000001 999" 7]
  show ?thesis
    by (simp add: discovery_answer_def demo_parsers_def demo_announce_def other split: if_splits)
qed

end
