(* ===== verification/Client_Pool.thy ===== *)
theory Client_Pool
  imports Client_Discovery
begin

text \<open>
  The state of the client's local API and its connection pool, the first half of
  \<^verbatim>\<open>crates/client-backend/src/local_api.rs\<close>. A connection is a handle \<open>'c\<close> (an
  \<open>Arc<dyn ServerConnection>\<close>); what is behind the handle, the network and the clock are the
  world \<open>'w\<close>, which every call of the trait \<open>ServerConnection\<close> (\<^verbatim>\<open>connection.rs\<close>) and of a
  connect function may change. Maps and sets are association lists and lists; the order of a
  hash map is the order of its list, and the theorems hold for every list. Log lines, and locks
  that a panic has poisoned, are outside the model.
\<close>

section \<open>The interface of connections\<close>

record ('c, 'w) backend_env =
  be_addr :: "'c \<Rightarrow> SocketAddr"
  be_hostname :: "'c \<Rightarrow> 'w \<Rightarrow> string"
  be_gres_num :: "'c \<Rightarrow> 'w \<Rightarrow> u8"
  be_wants_heartbeat :: "'c \<Rightarrow> bool"
  be_query :: "'c \<Rightarrow> 'w \<Rightarrow> (string + ServerGresSnapshot) \<times> 'w"
  be_disconnect :: "string \<Rightarrow> 'c \<Rightarrow> 'w \<Rightarrow> 'w"
  be_close :: "'c \<Rightarrow> 'w \<Rightarrow> 'w"
  be_connect_udp :: "SocketAddr \<Rightarrow> 'w \<Rightarrow> (string + 'c) \<times> 'w"
  be_connect_tcp :: "SocketAddr \<Rightarrow> 'w \<Rightarrow> (string + 'c) \<times> 'w"
  be_discover :: "string \<Rightarrow> 'w \<Rightarrow> (string + DiscoveredNode list) \<times> 'w"
  be_static_nodes :: "'w \<Rightarrow> string + DiscoveredNode list"
  be_now_ms :: "'w \<Rightarrow> int"
  be_elapsed_us :: "'w \<Rightarrow> 'w \<Rightarrow> nat"

section \<open>State\<close>

record 'c LocalApiState =
  la_cache :: CacheMap
  la_cache_ttl_ms :: u64
  la_transport_protocol :: string
  la_udp_mtu :: u16
  la_discovery_multicast_addr :: string
  la_discover_wait_secs :: u64
  la_heartbeat_interval_secs :: u64
  la_connection_idle_timeout_secs :: u64
  la_max_connections :: nat
  la_multicast_outbound_ip :: "string list"
  la_connections :: "(SocketAddr \<times> 'c) list"
  la_connecting :: "SocketAddr list"
  la_last_discovery_reconcile_ms :: int

definition local_api_state_new ::
    "CacheMap \<Rightarrow> u64 \<Rightarrow> string \<Rightarrow> u16 \<Rightarrow> string \<Rightarrow> u64 \<Rightarrow> u64 \<Rightarrow> u64 \<Rightarrow> nat \<Rightarrow> string list \<Rightarrow> 'c LocalApiState" where
  "local_api_state_new cache ttl_ms transport_protocol udp_mtu multicast_addr discover_wait heartbeat_interval
      connection_idle_timeout max_connections outbound =
     \<lparr>la_cache = cache, la_cache_ttl_ms = ttl_ms, la_transport_protocol = transport_protocol,
      la_udp_mtu = udp_mtu, la_discovery_multicast_addr = multicast_addr, la_discover_wait_secs = discover_wait,
      la_heartbeat_interval_secs = heartbeat_interval,
      la_connection_idle_timeout_secs = connection_idle_timeout, la_max_connections = max_connections,
      la_multicast_outbound_ip = outbound, la_connections = [], la_connecting = [],
      la_last_discovery_reconcile_ms = 0\<rparr>"

definition protocol :: "'c LocalApiState \<Rightarrow> string" where
  "protocol st =
     (if la_transport_protocol st = ''udp'' then ''udp''
      else if la_transport_protocol st = ''tcp'' then ''tcp''
      else ''udp'')"

section \<open>Discovered nodes\<close>

definition insert_absent :: "'k \<Rightarrow> 'v \<Rightarrow> ('k \<times> 'v) list \<Rightarrow> ('k \<times> 'v) list" where
  "insert_absent k v m = (if map_of m k = None then AList.update k v m else m)"

fun add_nodes :: "nat \<Rightarrow> (nat \<times> DiscoveredNode) list \<Rightarrow> CacheMap \<Rightarrow> CacheMap" where
  "add_nodes index_base [] rows = rows"
| "add_nodes index_base ((idx, node) # nodes) rows =
     add_nodes index_base nodes
       (if \<exists>e \<in> set (map snd rows). cn_hostname e = dn_hostname node then rows
        else insert_absent (cache_key (dn_addr node)) (new_entry (index_base + idx + 1) node) rows)"

definition add_discovered_nodes :: "DiscoveredNode list \<Rightarrow> 'c LocalApiState \<Rightarrow> 'c LocalApiState" where
  "add_discovered_nodes nodes st =
     (if nodes = [] then st
      else st\<lparr>la_cache := add_nodes (length (la_cache st)) (enumerate 0 nodes) (la_cache st)\<rparr>)"

section \<open>Establishing connections\<close>

definition connect_with_retry ::
    "('c, 'w) backend_env \<Rightarrow> 'c LocalApiState \<Rightarrow> SocketAddr \<Rightarrow> 'w \<Rightarrow> (string + 'c) \<times> 'w" where
  "connect_with_retry env st addr w =
     (if protocol st = ''udp'' then be_connect_udp env addr w
      else if protocol st = ''tcp'' then be_connect_tcp env addr w
      else (Err (''unsupported protocol: '' @ protocol st), w))"

text \<open>The entry of a new connection: an existing entry of the address keeps its snapshot.\<close>

definition placeholder_entry ::
    "('c, 'w) backend_env \<Rightarrow> nat \<Rightarrow> 'c \<Rightarrow> 'w \<Rightarrow> ConnectionCacheEntry option \<Rightarrow> ConnectionCacheEntry" where
  "placeholder_entry env index c w old =
     (case old of
        Some e \<Rightarrow> e\<lparr>cn_connection_id := conn_id index, cn_hostname := be_hostname env c w,
          cn_num := be_gres_num env c w\<rparr>
      | None \<Rightarrow> \<lparr>cn_connection_id = conn_id index, cn_hostname = be_hostname env c w,
          cn_num = be_gres_num env c w, cn_server_gres = [], cn_record_timestamp = be_now_ms env w,
          cn_addr = be_addr env c, cn_last_snapshot = None, cn_last_error = None,
          cn_last_query_latency_us = None\<rparr>)"

definition upsert_connection_placeholder ::
    "('c, 'w) backend_env \<Rightarrow> nat \<Rightarrow> 'c \<Rightarrow> 'w \<Rightarrow> 'c LocalApiState \<Rightarrow> 'c LocalApiState" where
  "upsert_connection_placeholder env index c w st =
     (let key = cache_key (be_addr env c) in
      st\<lparr>la_cache := AList.update key (placeholder_entry env index c w (map_of (la_cache st) key)) (la_cache st)\<rparr>)"

text \<open>The first part of \<open>establish_one_connection\<close>: the look into the pool.\<close>

definition may_connect :: "SocketAddr \<Rightarrow> 'c LocalApiState \<Rightarrow> bool" where
  "may_connect addr st \<longleftrightarrow>
     map_of (la_connections st) addr = None \<and> length (la_connections st) < la_max_connections st"

text \<open>The set of addresses that some thread is connecting to.\<close>

definition claim :: "SocketAddr \<Rightarrow> 'c LocalApiState \<Rightarrow> 'c LocalApiState option" where
  "claim addr st =
     (if addr \<in> set (la_connecting st) then None
      else Some (st\<lparr>la_connecting := addr # la_connecting st\<rparr>))"

definition release :: "SocketAddr \<Rightarrow> 'c LocalApiState \<Rightarrow> 'c LocalApiState" where
  "release addr st = st\<lparr>la_connecting := filter (\<lambda>a. a \<noteq> addr) (la_connecting st)\<rparr>"

text \<open>The section under the pool's lock that follows a successful connect. The result says whether the
  connection is in the pool.\<close>

definition drop_same_host ::
    "('c, 'w) backend_env \<Rightarrow> 'c \<Rightarrow> 'c LocalApiState \<times> 'w \<Rightarrow> 'c LocalApiState \<times> 'w" where
  "drop_same_host env c = (\<lambda>(st, w).
     case find (\<lambda>(_, existing). be_hostname env existing w = be_hostname env c w) (la_connections st) of
       None \<Rightarrow> (st, w)
     | Some (existing_addr, existing) \<Rightarrow>
         (st\<lparr>la_connections := AList.delete existing_addr (la_connections st),
             la_cache := AList.delete (cache_key (be_addr env existing)) (la_cache st)\<rparr>,
          be_disconnect env ''client duplicate hostname replaced'' existing w))"

definition commit ::
    "('c, 'w) backend_env \<Rightarrow> SocketAddr \<Rightarrow> 'c \<Rightarrow> 'c LocalApiState \<times> 'w \<Rightarrow> bool \<times> 'c LocalApiState \<times> 'w" where
  "commit env addr c = (\<lambda>(st, w).
     if map_of (la_connections st) addr \<noteq> None
     then (False, st, be_disconnect env ''client duplicate session'' c w)
     else
       let (st, w) = drop_same_host env c (st, w) in
       if la_max_connections st \<le> length (la_connections st)
       then (False, st, be_disconnect env ''client max connections reached'' c w)
       else (True, st\<lparr>la_connections := AList.update addr c (la_connections st)\<rparr>, w))"

text \<open>\<open>spawn_heartbeat\<close> starts a thread only for a connection that wants heartbeats; this is what the
  thread does when a heartbeat fails with \<open>e\<close>. No connection of the program wants them.\<close>

definition starts_heartbeat :: "('c, 'w) backend_env \<Rightarrow> 'c LocalApiState \<Rightarrow> 'c \<Rightarrow> bool" where
  "starts_heartbeat env st c \<longleftrightarrow> be_wants_heartbeat env c \<and> la_heartbeat_interval_secs st \<noteq> 0"

definition heartbeat_failed ::
    "('c, 'w) backend_env \<Rightarrow> 'c \<Rightarrow> string \<Rightarrow> 'c LocalApiState \<times> 'w \<Rightarrow> 'c LocalApiState \<times> 'w" where
  "heartbeat_failed env c e = (\<lambda>(st, w).
     let w = be_close env c w;
         rows = la_cache st;
         connection_id = (case find (\<lambda>x. cn_addr x = be_addr env c) (map snd rows) of
             Some x \<Rightarrow> cn_connection_id x | None \<Rightarrow> ''conn-unknown'')
     in (st\<lparr>la_connections := AList.delete (be_addr env c) (la_connections st),
            la_cache := mark_stale (be_now_ms env w) rows connection_id (be_addr env c) (be_hostname env c w) e\<rparr>,
         w))"

definition establish_one_connection ::
    "('c, 'w) backend_env \<Rightarrow> nat \<Rightarrow> SocketAddr \<Rightarrow> 'c LocalApiState \<times> 'w \<Rightarrow> 'c LocalApiState \<times> 'w" where
  "establish_one_connection env index addr = (\<lambda>(st, w).
     if \<not> may_connect addr st then (st, w)
     else case claim addr st of
       None \<Rightarrow> (st, w)
     | Some st \<Rightarrow>
         let (r, w) = connect_with_retry env st addr w; st = release addr st in
         (case r of
            Err _ \<Rightarrow> (st, w)
          | Ok c \<Rightarrow>
              let (in_pool, st, w) = commit env addr c (st, w) in
              (if in_pool then (upsert_connection_placeholder env index c w st, w) else (st, w))))"

definition establish_connections ::
    "('c, 'w) backend_env \<Rightarrow> DiscoveredNode list \<Rightarrow> 'c LocalApiState \<times> 'w \<Rightarrow> 'c LocalApiState \<times> 'w" where
  "establish_connections env nodes = (\<lambda>(st, w).
     let index_base = length (la_cache st)
     in foldl (\<lambda>s (idx, node). establish_one_connection env (index_base + idx + 1) (dn_addr node) s) (st, w)
          (enumerate 0 nodes))"

definition establish_tcp_connections ::
    "('c, 'w) backend_env \<Rightarrow> DiscoveredNode list \<Rightarrow> 'c LocalApiState \<times> 'w \<Rightarrow> 'c LocalApiState \<times> 'w" where
  "establish_tcp_connections env nodes s =
     (if protocol (fst s) \<noteq> ''tcp'' then s else establish_connections env nodes s)"

definition establish_udp_connections ::
    "('c, 'w) backend_env \<Rightarrow> DiscoveredNode list \<Rightarrow> 'c LocalApiState \<times> 'w \<Rightarrow> 'c LocalApiState \<times> 'w" where
  "establish_udp_connections env nodes s =
     (if protocol (fst s) \<noteq> ''udp'' then s else establish_connections env nodes s)"

section \<open>Shutting down\<close>

definition shutdown :: "('c, 'w) backend_env \<Rightarrow> string \<Rightarrow> 'c LocalApiState \<Rightarrow> 'w \<Rightarrow> 'w" where
  "shutdown env reason st w = foldl (\<lambda>w c. be_disconnect env reason c w) w (map snd (la_connections st))"

text \<open>The addresses are collected first; then every connection is taken out of the pool and told.\<close>

fun disconnect_addrs ::
    "('c, 'w) backend_env \<Rightarrow> string \<Rightarrow> SocketAddr list \<Rightarrow> nat \<Rightarrow> 'c LocalApiState \<times> 'w \<Rightarrow> nat \<times> 'c LocalApiState \<times> 'w" where
  "disconnect_addrs env reason [] gone (st, w) = (gone, st, w)"
| "disconnect_addrs env reason (a # as) gone (st, w) =
     (case map_of (la_connections st) a of
        None \<Rightarrow> disconnect_addrs env reason as gone (st, w)
      | Some c \<Rightarrow> disconnect_addrs env reason as (gone + 1)
          (st\<lparr>la_connections := AList.delete a (la_connections st)\<rparr>, be_disconnect env reason c w))"

definition disconnect_hostname ::
    "('c, 'w) backend_env \<Rightarrow> string \<Rightarrow> string \<Rightarrow> 'c LocalApiState \<times> 'w \<Rightarrow> nat \<times> 'c LocalApiState \<times> 'w" where
  "disconnect_hostname env hostname reason = (\<lambda>(st, w).
     let addrs = map fst (filter (\<lambda>(_, c). be_hostname env c w = hostname) (la_connections st));
         (gone, st, w) = disconnect_addrs env reason addrs 0 (st, w)
     in (gone, st\<lparr>la_cache := filter (\<lambda>(_, e). cn_hostname e \<noteq> hostname) (la_cache st)\<rparr>, w))"

section \<open>The invariant of the pool\<close>

text \<open>Every connection is filed under its own address, there are never more than the configured
  number, and the cache is well-formed.\<close>

definition pool_wf :: "('c, 'w) backend_env \<Rightarrow> 'c LocalApiState \<Rightarrow> bool" where
  "pool_wf env st \<longleftrightarrow>
     keyed (be_addr env) (la_connections st) \<and> length (la_connections st) \<le> la_max_connections st
       \<and> rows_wf (la_cache st)"

lemma keyed_delete: "keyed key m \<Longrightarrow> keyed key (AList.delete k m)"
  by (auto simp: keyed_def distinct_map_filter AList.delete_eq)

lemma length_delete_le: "length (AList.delete k m) \<le> length m"
  by (simp add: AList.delete_eq)

lemma length_update_new: "map_of m k = None \<Longrightarrow> length (AList.update k v m) = Suc (length m)"
  by (induction m) (auto split: if_splits)

lemma keyed_lookup: "keyed key m \<Longrightarrow> map_of m k = Some v \<Longrightarrow> key v = k"
  by (auto simp: keyed_def dest!: map_of_SomeD)

lemma insert_absent_wf: "rows_wf rows \<Longrightarrow> k = cache_key (cn_addr e) \<Longrightarrow> rows_wf (insert_absent k e rows)"
  by (simp add: insert_absent_def rows_wf_update)

lemma add_nodes_wf: "rows_wf rows \<Longrightarrow> rows_wf (add_nodes base ns rows)"
  by (induction base ns rows rule: add_nodes.induct) (simp_all add: insert_absent_wf new_entry_def)

lemma add_discovered_nodes_wf: "pool_wf env st \<Longrightarrow> pool_wf env (add_discovered_nodes nodes st)"
  by (simp add: pool_wf_def add_discovered_nodes_def add_nodes_wf)

lemma drop_same_host_wf:
  assumes "pool_wf env st" "drop_same_host env c (st, w) = (st', w')"
  shows "pool_wf env st' \<and> (map_of (la_connections st) a = None \<longrightarrow> map_of (la_connections st') a = None)
    \<and> la_max_connections st' = la_max_connections st"
proof -
  have "length (la_connections st') \<le> length (la_connections st)"
    using assms(2) by (auto simp: drop_same_host_def length_delete_le split: option.splits)
  with assms show ?thesis
    by (auto simp: drop_same_host_def pool_wf_def rows_wf_delete keyed_delete delete_conv' split: option.splits)
qed

lemma commit_wf:
  assumes "pool_wf env st" "be_addr env c = addr" "commit env addr c (st, w) = (b, st', w')"
  shows "pool_wf env st'"
proof (cases "map_of (la_connections st) addr")
  case None
  obtain st1 w1 where d: "drop_same_host env c (st, w) = (st1, w1)" by fastforce
  from drop_same_host_wf [OF assms(1) d, of addr] None
  have "pool_wf env st1" "map_of (la_connections st1) addr = None" by auto
  with assms(2,3) None d keyed_update [of "be_addr env" "la_connections st1" c] show ?thesis
    by (auto simp: commit_def pool_wf_def length_update_new split: if_splits)
qed (use assms in \<open>auto simp: commit_def\<close>)

lemma claim_wf: "pool_wf env st \<Longrightarrow> claim a st = Some st' \<Longrightarrow> pool_wf env st'"
  by (auto simp: claim_def pool_wf_def split: if_splits)

lemma release_wf [simp]: "pool_wf env (release a st) = pool_wf env st"
  by (simp add: release_def pool_wf_def)

lemma placeholder_wf: "pool_wf env st \<Longrightarrow> pool_wf env (upsert_connection_placeholder env index c w st)"
proof -
  let ?key = "cache_key (be_addr env c)"
  let ?e = "placeholder_entry env index c w (map_of (la_cache st) ?key)"
  assume wf: "pool_wf env st"
  then have "cache_key (cn_addr ?e) = ?key"
    using rows_wf_entry [of "la_cache st" ?key]
    by (auto simp: placeholder_entry_def pool_wf_def split: option.split)
  with wf rows_wf_update [of "la_cache st" ?e] show ?thesis
    by (simp add: upsert_connection_placeholder_def pool_wf_def Let_def)
qed

lemma disconnect_addrs_wf:
  "pool_wf env (fst s) \<Longrightarrow> disconnect_addrs env reason as n s = (n', s') \<Longrightarrow> pool_wf env (fst s')"
proof (induction env reason "as" n s arbitrary: n' s' rule: disconnect_addrs.induct)
  case (2 env reason a "as" n st w)
  have "pool_wf env (st\<lparr>la_connections := AList.delete a (la_connections st)\<rparr>)"
    using 2(3) length_delete_le [of a "la_connections st"] by (auto simp: pool_wf_def keyed_delete)
  with 2 show ?case by (auto split: option.splits)
qed auto

lemma disconnect_hostname_wf:
  assumes "pool_wf env st" "disconnect_hostname env h reason (st, w) = (n, st', w')"
  shows "pool_wf env st'"
proof -
  have "rows_wf rows \<Longrightarrow> rows_wf (filter P rows)" for P rows
    by (auto simp: rows_wf_def distinct_map_filter)
  with assms show ?thesis
    by (auto simp: disconnect_hostname_def Let_def pool_wf_def [of env "_\<lparr>la_cache := _\<rparr>"] split: prod.splits
        dest!: disconnect_addrs_wf [rotated] simp: pool_wf_def)
qed

section \<open>Tables that only change in one place\<close>

text \<open>Outside one key, the second table has only entries of the first one.\<close>

definition outside :: "'k \<Rightarrow> ('k \<times> 'v) list \<Rightarrow> ('k \<times> 'v) list \<Rightarrow> bool" where
  "outside k m m' \<longleftrightarrow> (\<forall>j v. j \<noteq> k \<longrightarrow> map_of m' j = Some v \<longrightarrow> map_of m j = Some v)"

lemma outside_refl [simp]: "outside k m m"
  by (simp add: outside_def)

lemma outside_trans: "outside k m m' \<Longrightarrow> outside k m' m'' \<Longrightarrow> outside k m m''"
  by (simp add: outside_def)

lemma outside_delete [simp]: "outside k m (AList.delete j m)"
  by (auto simp: outside_def delete_conv' split: if_splits)

lemma outside_update [simp]: "outside k m (AList.update k v m)"
  by (simp add: outside_def update_conv')

end
