(* ===== verification/Pool_Concurrency.thy ===== *)
theory Pool_Concurrency
  imports Client_Pool
begin

text \<open>
  The connecting threads of the client: the start, the announcement listener, the
  reconciliations and the queries all run \<open>establish_one_connection\<close> (\<^verbatim>\<open>local_api.rs\<close>), which
  takes the locks of the pool, of the set of addresses being connected and of the cache one
  after the other, and connects without any lock. Here every critical section is one step,
  and threads interleave in any order.
\<close>

section \<open>The steps of one thread\<close>

text \<open>Where a thread is: before the look into the pool, before its claim of the address, connecting,
  with the result, with a connection to commit, with a committed connection, or done.\<close>

datatype 'c phase = Looking | Claiming | Dialing | Releasing "string + 'c" | Committing 'c | Listing 'c | Finished

fun establish_phase ::
    "('c, 'w) backend_env \<Rightarrow> nat \<times> SocketAddr \<Rightarrow> 'c phase \<Rightarrow> 'c LocalApiState \<times> 'w \<Rightarrow> 'c phase \<times> 'c LocalApiState \<times> 'w" where
  "establish_phase env (index, addr) Looking (st, w) = (if may_connect addr st then Claiming else Finished, st, w)"
| "establish_phase env (index, addr) Claiming (st, w) =
     (case claim addr st of None \<Rightarrow> (Finished, st, w) | Some st \<Rightarrow> (Dialing, st, w))"
| "establish_phase env (index, addr) Dialing (st, w) =
     (let (r, w) = connect_with_retry env st addr w in (Releasing r, st, w))"
| "establish_phase env (index, addr) (Releasing r) (st, w) =
     (case r of Err _ \<Rightarrow> Finished | Ok c \<Rightarrow> Committing c, release addr st, w)"
| "establish_phase env (index, addr) (Committing c) (st, w) =
     (let (in_pool, st, w) = commit env addr c (st, w) in (if in_pool then Listing c else Finished, st, w))"
| "establish_phase env (index, addr) (Listing c) (st, w) =
     (Finished, upsert_connection_placeholder env index c w st, w)"
| "establish_phase env (index, addr) Finished (st, w) = (Finished, st, w)"

fun phases :: "nat \<Rightarrow> ('c, 'w) backend_env \<Rightarrow> nat \<times> SocketAddr \<Rightarrow> 'c phase \<times> 'c LocalApiState \<times> 'w \<Rightarrow> 'c phase \<times> 'c LocalApiState \<times> 'w" where
  "phases 0 env job x = x"
| "phases (Suc n) env job (p, s) = phases n env job (establish_phase env job p s)"

section \<open>Threads\<close>

text \<open>Thread \<open>t\<close> connects for \<open>job t\<close>. Besides the threads' own steps, connections may be dropped by
  failed queries, the cache may change, and the world goes on.\<close>

inductive pool_step ::
    "('c, 'w) backend_env \<Rightarrow> (nat \<Rightarrow> nat \<times> SocketAddr)
      \<Rightarrow> (nat \<Rightarrow> 'c phase) \<times> 'c LocalApiState \<times> 'w \<Rightarrow> (nat \<Rightarrow> 'c phase) \<times> 'c LocalApiState \<times> 'w \<Rightarrow> bool"
  for env job where
  thread: "establish_phase env (job t) (ph t) (st, w) = (p, st', w') \<Longrightarrow>
    pool_step env job (ph, st, w) (ph(t := p), st', w')"
| dropped: "pool_step env job (ph, st, w)
    (ph, st\<lparr>la_connections := AList.delete a (la_connections st), la_cache := rows\<rparr>, w')"

inductive pool_reach ::
    "('c, 'w) backend_env \<Rightarrow> (nat \<Rightarrow> nat \<times> SocketAddr) \<Rightarrow> nat
      \<Rightarrow> (nat \<Rightarrow> 'c phase) \<times> 'c LocalApiState \<times> 'w \<Rightarrow> bool"
  for env job limit where
  init: "la_connections st = [] \<Longrightarrow> la_connecting st = [] \<Longrightarrow> la_max_connections st = limit \<Longrightarrow>
    pool_reach env job limit (\<lambda>_. Looking, st, w)"
| step: "pool_reach env job limit x \<Longrightarrow> pool_step env job x y \<Longrightarrow> pool_reach env job limit y"

section \<open>The invariant\<close>

definition busy :: "'c phase \<Rightarrow> bool" where
  "busy p = (case p of Dialing \<Rightarrow> True | Releasing _ \<Rightarrow> True | _ \<Rightarrow> False)"

lemma busy_simps [simp]:
  "\<not> busy Looking" "\<not> busy Claiming" "busy Dialing" "busy (Releasing r)" "\<not> busy (Committing c)"
  "\<not> busy (Listing c)" "\<not> busy Finished"
  by (simp_all add: busy_def)

text \<open>The claimed addresses are those of the threads that connect, each claimed by one of them; the pool
  has at most its limit of connections, one per address.\<close>

definition pool_inv ::
    "(nat \<Rightarrow> nat \<times> SocketAddr) \<Rightarrow> nat \<Rightarrow> (nat \<Rightarrow> 'c phase) \<times> 'c LocalApiState \<times> 'w \<Rightarrow> bool" where
  "pool_inv job limit = (\<lambda>(ph, st, w).
     (\<forall>a. a \<in> set (la_connecting st) \<longleftrightarrow> (\<exists>t. busy (ph t) \<and> snd (job t) = a))
     \<and> (\<forall>t u. busy (ph t) \<longrightarrow> busy (ph u) \<longrightarrow> snd (job t) = snd (job u) \<longrightarrow> t = u)
     \<and> distinct (map fst (la_connections st)) \<and> length (la_connections st) \<le> limit
     \<and> la_max_connections st = limit)"

lemma commit_frame:
  assumes "commit env addr c (st, w) = (b, st', w')" "distinct (map fst (la_connections st))"
    "length (la_connections st) \<le> la_max_connections st"
  shows "la_connecting st' = la_connecting st" "la_max_connections st' = la_max_connections st"
    "distinct (map fst (la_connections st'))" "length (la_connections st') \<le> la_max_connections st'"
proof -
  obtain st1 w1 where d: "drop_same_host env c (st, w) = (st1, w1)" by fastforce
  have one: "la_connecting st1 = la_connecting st" "la_max_connections st1 = la_max_connections st"
    "distinct (map fst (la_connections st1))" "length (la_connections st1) \<le> la_max_connections st"
    "map_of (la_connections st) addr = None \<Longrightarrow> map_of (la_connections st1) addr = None"
    using d assms(2,3) order_trans [OF length_delete_le]
    by (auto simp: drop_same_host_def distinct_delete delete_conv' split: option.splits)
  show "la_connecting st' = la_connecting st" "la_max_connections st' = la_max_connections st"
    "distinct (map fst (la_connections st'))" "length (la_connections st') \<le> la_max_connections st'"
    using assms one d
    by (cases "map_of (la_connections st) addr";
        force simp: commit_def distinct_update length_update_new simp del: map_of_eq_None_iff split: if_splits)+
qed

lemma inv_keep:
  assumes "pool_inv job limit (ph, st, w)" "busy p = busy (ph t)" "la_connecting st' = la_connecting st"
    "la_max_connections st' = la_max_connections st" "distinct (map fst (la_connections st'))"
    "length (la_connections st') \<le> limit"
  shows "pool_inv job limit (ph(t := p), st', w')"
proof -
  have "busy ((ph(t := p)) u) = busy (ph u)" for u using assms(2) by simp
  with assms show ?thesis by (simp add: pool_inv_def del: fun_upd_apply)
qed

lemma thread_inv:
  assumes inv: "pool_inv job limit (ph, st, w)"
    and step: "establish_phase env (job t) (ph t) (st, w) = (p, st', w')"
  shows "pool_inv job limit (ph(t := p), st', w')"
proof -
  obtain index addr where job: "job t = (index, addr)" by fastforce
  from inv have pool: "distinct (map fst (la_connections st))" "length (la_connections st) \<le> limit"
    "la_max_connections st = limit" by (simp_all add: pool_inv_def)
  note keep = inv_keep [OF inv, of p t st' w']
  show ?thesis
  proof (cases "ph t")
    case Claiming
    show ?thesis
    proof (cases "claim addr st")
      case None
      with step job Claiming pool show ?thesis by (intro keep) auto
    next
      case (Some st1)
      then have st1: "st1 = st\<lparr>la_connecting := addr # la_connecting st\<rparr>" "addr \<notin> set (la_connecting st)"
        by (auto simp: claim_def split: if_splits)
      from step job Claiming Some have p: "p = Dialing" "st' = st1" by auto
      have busy: "busy ((ph(t := p)) u) \<longleftrightarrow> u = t \<or> busy (ph u)" for u using p by simp
      from inv st1(2) have free: "busy (ph u) \<Longrightarrow> snd (job u) \<noteq> addr" for u by (auto simp: pool_inv_def)
      show ?thesis
        using inv free job unfolding p(2) st1(1) pool_inv_def prod.case busy
        by (simp del: fun_upd_apply) (metis snd_conv)
    qed
  next
    case (Releasing r)
    from step job Releasing have p: "\<not> busy p" "st' = release addr st" by (auto split: sum.splits)
    have others: "busy (ph u) \<Longrightarrow> snd (job u) = addr \<longleftrightarrow> u = t" for u
      using inv job Releasing by (auto simp: pool_inv_def)
    have busy: "busy ((ph(t := p)) u) \<longleftrightarrow> u \<noteq> t \<and> busy (ph u)" for u using p(1) by simp
    show ?thesis
      using inv others unfolding p(2) release_def pool_inv_def prod.case busy
      by (simp del: fun_upd_apply) metis
  next
    case (Committing c)
    from step job Committing obtain b where c: "commit env addr c (st, w) = (b, st', w')" and p: "\<not> busy p"
      by (auto split: prod.splits if_splits)
    from commit_frame [OF c pool(1)] pool p Committing show ?thesis by (intro keep) auto
  qed (use step job pool keep in \<open>auto simp: upsert_connection_placeholder_def Let_def split: if_splits prod.splits\<close>)
qed

lemma pool_reach_inv: "pool_reach env job limit x \<Longrightarrow> pool_inv job limit x"
proof (induction rule: pool_reach.induct)
  case (init st w)
  then show ?case by (simp add: pool_inv_def)
next
  case (step x y)
  from step(2) show ?case
  proof (cases rule: pool_step.cases)
    case (thread t ph st w p st' w')
    with thread_inv step(3) show ?thesis by metis
  next
    case (dropped ph st w a rows w')
    with step(3) order_trans [OF length_delete_le] show ?thesis
      by (auto simp: pool_inv_def distinct_delete)
  qed
qed

section \<open>Properties\<close>

text \<open>C7: however the connecting threads interleave, with connections dropped and the network behaving in
  any way, no two threads connect to the same address at the same time, the pool holds at most
  the configured number of connections, and at most one per address.\<close>

theorem one_dial_per_address:
  assumes "pool_reach env job limit (ph, st, w)"
  shows "(busy (ph t) \<and> busy (ph u) \<and> snd (job t) = snd (job u) \<longrightarrow> t = u)
    \<and> length (la_connections st) \<le> limit \<and> distinct (map fst (la_connections st))"
  using pool_reach_inv [OF assms] by (auto simp: pool_inv_def)

text \<open>A connecting thread that nobody disturbs does what \<open>establish_one_connection\<close> does, in at
  most six steps.\<close>

theorem lone_thread_establishes:
  "phases 6 env (index, addr) (Looking, st, w) = (Finished, establish_one_connection env index addr (st, w))"
proof (cases "may_connect addr st")
  case True
  show ?thesis
  proof (cases "claim addr st")
    case (Some st1)
    obtain r w1 where r: "connect_with_retry env st1 addr w = (r, w1)" by fastforce
    show ?thesis
    proof (cases r)
      case (Inr c)
      obtain b st2 w2 where "commit env addr c (release addr st1, w1) = (b, st2, w2)" by (metis prod_cases3)
      with True Some r Inr show ?thesis
        by (cases b) (simp_all add: eval_nat_numeral establish_one_connection_def)
    qed (use True Some r in \<open>simp add: eval_nat_numeral establish_one_connection_def\<close>)
  qed (use True in \<open>simp add: eval_nat_numeral establish_one_connection_def\<close>)
qed (simp add: eval_nat_numeral establish_one_connection_def)

definition claiming_state :: "nat LocalApiState" where
  "claiming_state = local_api_state_new [] 1 ''udp'' 0 [] 0 0 0 2 []"

definition dead_env :: "(nat, unit) backend_env" where
  "dead_env = \<lparr>be_addr = (\<lambda>_. V4 1 1), be_hostname = (\<lambda>_ _. []), be_gres_num = (\<lambda>_ _. 0), be_wants_heartbeat = (\<lambda>_. False),
     be_query = (\<lambda>_ w. (Err [], w)), be_disconnect = (\<lambda>_ _ w. w), be_close = (\<lambda>_ w. w),
     be_connect_udp = (\<lambda>_ w. (Err [], w)), be_connect_tcp = (\<lambda>_ w. (Err [], w)), be_discover = (\<lambda>_ w. (Ok [], w)),
     be_static_nodes = (\<lambda>_. Ok []), be_now_ms = (\<lambda>_. 0), be_elapsed_us = (\<lambda>_ _. 0)\<rparr>"

theorem one_dial_per_address_witness:
  "length (la_connections claiming_state) \<le> 2"
proof -
  have "pool_reach dead_env (\<lambda>t. (t, V4 1 1)) 2 (\<lambda>_. Looking, claiming_state, ())"
    by (rule pool_reach.init) (simp_all add: claiming_state_def local_api_state_new_def)
  from pool_reach.step [OF this pool_step.thread [where t = 0]]
  have "pool_reach dead_env (\<lambda>t. (t, V4 1 1)) 2 ((\<lambda>_. Looking)(0 := Claiming), claiming_state, ())"
    by (simp add: may_connect_def claiming_state_def local_api_state_new_def)
  from one_dial_per_address [OF this] show ?thesis by blast
qed

end
