(* ===== verification/Rust_Float.thy ===== *)
theory Rust_Float
  imports Rust_Std Complex_Main
begin

text \<open>
  What the command line client uses of \<open>f64\<close>: reading a decimal number, converting an integer,
  dividing, and printing with two decimals. A finite number is its exact rational value, and every
  operation is the exact one followed by rounding to the nearest number of the format.
\<close>

datatype f64 = Finite rat | Infinite bool | NotANumber

section \<open>Rounding\<close>

text \<open>To the nearest integer, ties to even.\<close>

definition round_half_even :: "rat \<Rightarrow> nat" where
  "round_half_even x =
     (let n = nat \<lfloor>x\<rfloor>; d = x - of_nat n in
      if d < 1 / 2 then n else if d > 1 / 2 then n + 1 else if even n then n else n + 1)"

fun bit_length :: "nat \<Rightarrow> nat" where
  "bit_length n = (if n = 0 then 0 else Suc (bit_length (n div 2)))"

declare bit_length.simps [simp del]

text \<open>The distance of the numbers around a positive \<open>x\<close>: 53 significant bits, and never less than the
  smallest subnormal number.\<close>

definition f64_ulp :: "rat \<Rightarrow> rat" where
  "f64_ulp x =
     (if 1 \<le> x then 2 ^ (bit_length (nat \<lfloor>x\<rfloor>) - 1) / 2 ^ 52
      else 1 / 2 ^ min 1074 (bit_length (nat \<lceil>1 / x\<rceil> - 1) + 52))"

definition round_f64 :: "rat \<Rightarrow> rat" where
  "round_f64 x = (if x = 0 then 0 else of_nat (round_half_even (x / f64_ulp x)) * f64_ulp x)"

definition f64_of_decimal :: "bool \<Rightarrow> rat \<Rightarrow> f64" where
  "f64_of_decimal negative x =
     (let r = round_f64 x in
      if 2 ^ 1024 \<le> r then Infinite negative else Finite (if negative then - r else r))"

section \<open>Reading\<close>

text \<open>\<open>str::parse\<close>: an optional sign, then a number, an infinity or a name of what is no number. A number
  has digits before or after its point, and may have an exponent.\<close>

definition take_sign :: "string \<Rightarrow> bool \<times> string" where
  "take_sign s =
     (case s of c # r \<Rightarrow> if c = CHR ''-'' then (True, r) else if c = CHR ''+'' then (False, r) else (False, s)
      | [] \<Rightarrow> (False, s))"

definition parse_exponent :: "string \<Rightarrow> (bool \<times> nat) option" where
  "parse_exponent s =
     (case s of
        [] \<Rightarrow> Some (False, 0)
      | c # r \<Rightarrow>
          let (neg, d) = take_sign r in
          if c \<in> {CHR ''e'', CHR ''E''} \<and> d \<noteq> [] \<and> list_all is_ascii_digit d then Some (neg, digits_value d) else None)"

definition parse_number :: "string \<Rightarrow> rat option" where
  "parse_number s =
     (let whole = takeWhile is_ascii_digit s;
          r = dropWhile is_ascii_digit s;
          frac = (if r \<noteq> [] \<and> hd r = CHR ''.'' then takeWhile is_ascii_digit (tl r) else []);
          r = (if r \<noteq> [] \<and> hd r = CHR ''.'' then dropWhile is_ascii_digit (tl r) else r)
      in if whole @ frac = [] then None
         else map_option (\<lambda>(neg, e).
             let m = of_nat (digits_value (whole @ frac)) / 10 ^ length frac
             in if neg then m / 10 ^ e else m * 10 ^ e)
           (parse_exponent r))"

definition parse_f64 :: "string \<Rightarrow> f64 option" where
  "parse_f64 s =
     (let (negative, r) = take_sign s in
      if to_ascii_lowercase r \<in> {''inf'', ''infinity''} then Some (Infinite negative)
      else if to_ascii_lowercase r = ''nan'' then Some NotANumber
      else map_option (f64_of_decimal negative) (parse_number r))"

section \<open>Printing\<close>

text \<open>\<open>{:.2}\<close> of a number that is not negative.\<close>

definition two_decimals :: "rat \<Rightarrow> string" where
  "two_decimals x =
     (let n = round_half_even (x * 100) in nat_to_string (n div 100) @ ''.'' @ pad_left (CHR ''0'') 2 (nat_to_string (n mod 100)))"

section \<open>Lemmas\<close>

lemmas float_simps = round_f64_def f64_ulp_def bit_length.simps round_half_even_def f64_of_decimal_def Let_def

lemmas parse_float_simps =
  parse_f64_def take_sign_def parse_number_def parse_exponent_def to_ascii_lowercase_def is_ascii_digit_def
  digits_value_def

lemma round_half_even_mono: "of_nat n \<le> x \<Longrightarrow> n \<le> round_half_even x"
proof -
  assume "of_nat n \<le> x"
  then have "n \<le> nat \<lfloor>x\<rfloor>" by (simp add: le_nat_iff le_floor_iff)
  then show ?thesis by (auto simp: round_half_even_def Let_def)
qed

lemma floor_fraction [simp]:
  "\<lfloor>numeral a / (numeral b :: rat)\<rfloor> = numeral a div numeral b" "\<lfloor>1 / (numeral b :: rat)\<rfloor> = 1 div numeral b"
  using floor_divide_of_int_eq [of "numeral a" "numeral b", where 'a = rat]
    floor_divide_of_int_eq [of 1 "numeral b", where 'a = rat] by simp_all

end
