(* ===== verification/Cli_Args.thy ===== *)
theory Cli_Args
  imports Net_Text Rust_Float
begin

text \<open>
  The arguments of the command line client, \<^verbatim>\<open>crates/client-cli/src/args.rs\<close>. A duration is a
  number of nanoseconds.
\<close>

section \<open>Options\<close>

record CliOptions =
  co_node_filter :: "string option"
  co_user_filter :: "string option"
  co_watch :: bool
  co_refresh_interval_ns :: nat
  co_json :: bool
  co_force_color :: bool
  co_no_color :: bool
  co_show_header :: bool
  co_no_processes :: bool
  co_show_cmd :: bool
  co_show_user :: bool
  co_show_pid :: bool
  co_gresname_width :: "nat option"
  co_latency_display :: "bool option"
  co_backend_socket :: "string option"

definition cli_options_default :: CliOptions where
  "cli_options_default =
     \<lparr>co_node_filter = None, co_user_filter = None, co_watch = False, co_refresh_interval_ns = 2000000000,
      co_json = False, co_force_color = False, co_no_color = False, co_show_header = True,
      co_no_processes = False, co_show_cmd = False, co_show_user = False, co_show_pid = False,
      co_gresname_width = None, co_latency_display = None, co_backend_socket = None\<rparr>"

text \<open>The refusal of an argument list, or a panic of the program.\<close>

datatype cli_failure = Refused string | Panicked

section \<open>Values\<close>

text \<open>The literal 0.05.\<close>

definition MIN_INTERVAL_SECS :: rat where
  "MIN_INTERVAL_SECS = round_f64 (5 / 100)"

text \<open>\<open>Duration::from_secs_f64\<close>: rounded to nanoseconds, ties to even; it panics when the seconds do not
  fit into 64 bits. It is called with positive numbers only.\<close>

definition duration_from_secs :: "rat \<Rightarrow> nat option" where
  "duration_from_secs secs =
     (let ns = round_half_even (secs * 1000000000)
      in if ns < 2 ^ 64 * 1000000000 then Some ns else None)"

definition parse_interval :: "string \<Rightarrow> cli_failure + nat" where
  "parse_interval raw =
     (case parse_f64 raw of
        None \<Rightarrow> Err (Refused (''refresh interval must be seconds, got '' @ [CHR 0x27] @ raw @ [CHR 0x27]))
      | Some (Finite secs) \<Rightarrow>
          if secs \<le> 0 then Err (Refused ''refresh interval must be greater than 0'')
          else (case duration_from_secs (max secs MIN_INTERVAL_SECS) of Some d \<Rightarrow> Ok d | None \<Rightarrow> Err Panicked)
      | Some _ \<Rightarrow> Err (Refused ''refresh interval must be greater than 0''))"

definition parse_bool :: "string \<Rightarrow> cli_failure + bool" where
  "parse_bool raw =
     (let s = to_ascii_lowercase (trim raw) in
      if s \<in> {''1'', ''true'', ''yes'', ''on''} then Ok True
      else if s \<in> {''0'', ''false'', ''no'', ''off''} then Ok False
      else Err (Refused (''boolean value expected, got '' @ [CHR 0x27] @ raw @ [CHR 0x27])))"

definition help_text :: string where
  "help_text = join_with [char_of (10 :: nat)]
    [''Usage: clustat [OPTIONS]'', [], ''Options:'',
     ''  -n <FILTER>                 Filter cluster nodes by hostname/ip/connection id'',
     ''  -user <USER>                Filter rendered processes/GPU rows by user'',
     ''  --backend-socket <PATH>     Connect to client-backend UDS path'',
     ''  --json                      Print cluster data as JSON'',
     ''  -i, --interval [SEC]        Watch mode; optional refresh interval in seconds'',
     ''  -w, --watch [SEC]           Alias for --interval'',
     ''  --color, --force-color      Force ANSI colored output'',
     ''  --no-color                  Suppress ANSI colored output'',
     ''  --no-header                 Suppress node header lines'',
     ''  --gpuname-width <N>         GPU name display width; 0 hides GPU names'',
     ''  --no-processes              Hide process summaries'',
     ''  -c, --show-cmd              Display process command instead of user'',
     ''  -u, --show-user             Display process user with command'',
     ''  -p, --show-pid              Display process PID'',
     ''  -a, --show-all              Show user, command and PID'',
     ''  -h, --help                  Show this help'',
     ''  -v, --version               Show version'']"

section \<open>The argument loop\<close>

text \<open>A flag with a value takes the next argument; what is left are the arguments after it.\<close>

definition required_value :: "string list \<Rightarrow> string \<Rightarrow> cli_failure + (string \<times> string list)" where
  "required_value rest flag =
     (case rest of [] \<Rightarrow> Err (Refused (flag @ '' requires a value'')) | v # rest' \<Rightarrow> Ok (v, rest'))"

text \<open>The optional interval of the watch flags.\<close>

definition watch_interval ::
    "CliOptions \<Rightarrow> string list \<Rightarrow> cli_failure + (CliOptions \<times> string list)" where
  "watch_interval opts rest =
     (let opts = opts\<lparr>co_watch := True\<rparr> in
      case rest of
        next # rest' \<Rightarrow>
          if starts_with next ''-'' then Ok (opts, rest)
          else map_ok (\<lambda>d. (opts\<lparr>co_refresh_interval_ns := d\<rparr>, rest')) (parse_interval next)
      | [] \<Rightarrow> Ok (opts, rest))"

definition VERSION_TEXT :: string where
  "VERSION_TEXT = ''clustat 1.0.0''"

text \<open>One round of the loop: the flag \<open>a\<close> and the arguments after it.\<close>

definition parse_flag ::
    "CliOptions \<Rightarrow> string \<Rightarrow> string list \<Rightarrow> cli_failure + (CliOptions \<times> string list)" where
  "parse_flag opts a rest =
     (if a \<in> {''-h'', ''--help''} then Err (Refused help_text)
      else if a \<in> {''-v'', ''--version''} then Err (Refused VERSION_TEXT)
      else if a = ''-n'' then
        map_ok (\<lambda>(v, rest). (opts\<lparr>co_node_filter := Some v\<rparr>, rest)) (required_value rest ''-n'')
      else if a = ''-user'' then
        map_ok (\<lambda>(v, rest). (opts\<lparr>co_user_filter := Some v\<rparr>, rest)) (required_value rest ''-user'')
      else if a \<in> {''--watch'', ''-w''} then watch_interval opts rest
      else if a \<in> {''--interval'', ''--refresh'', ''--refresh-interval'', ''-i''} then watch_interval opts rest
      else if a = ''--json'' then Ok (opts\<lparr>co_json := True\<rparr>, rest)
      else if a \<in> {''--force-color'', ''--color''} then Ok (opts\<lparr>co_force_color := True\<rparr>, rest)
      else if a = ''--no-color'' then Ok (opts\<lparr>co_no_color := True\<rparr>, rest)
      else if a = ''--no-header'' then Ok (opts\<lparr>co_show_header := False\<rparr>, rest)
      else if a = ''--no-processes'' then Ok (opts\<lparr>co_no_processes := True\<rparr>, rest)
      else if a \<in> {''-c'', ''--show-cmd''} then Ok (opts\<lparr>co_show_cmd := True\<rparr>, rest)
      else if a \<in> {''-u'', ''--show-user''} then Ok (opts\<lparr>co_show_user := True\<rparr>, rest)
      else if a \<in> {''-p'', ''--show-pid''} then Ok (opts\<lparr>co_show_pid := True\<rparr>, rest)
      else if a \<in> {''-a'', ''--show-all''} then
        Ok (opts\<lparr>co_show_cmd := True, co_show_user := True, co_show_pid := True\<rparr>, rest)
      else if a = ''--latency-display'' then
        and_then (required_value rest ''--latency-display'') (\<lambda>(v, rest).
          map_ok (\<lambda>b. (opts\<lparr>co_latency_display := Some b\<rparr>, rest)) (parse_bool v))
      else if a \<in> {''--no-latency'', ''--hide-latency''} then Ok (opts\<lparr>co_latency_display := Some False\<rparr>, rest)
      else if a = ''--gpuname-width'' then
        and_then (required_value rest ''--gpuname-width'') (\<lambda>(v, rest).
          case parse_uint (2 ^ 64 - 1) v of
            Some n \<Rightarrow> Ok (opts\<lparr>co_gresname_width := Some n\<rparr>, rest)
          | None \<Rightarrow> Err (Refused (''--gpuname-width must be a non-negative integer, got '' @ [CHR 0x27] @ v @ [CHR 0x27])))
      else if a \<in> {''--backend-socket'', ''--backend-uds''} then
        map_ok (\<lambda>(v, rest). (opts\<lparr>co_backend_socket := Some v\<rparr>, rest)) (required_value rest a)
      else Err (Refused (''unsupported arg: '' @ a)))"

text \<open>What every flag keeps: it takes arguments from the front only, and never sets a short interval.\<close>

lemma min_interval: "MIN_INTERVAL_SECS = 3602879701896397 / 72057594037927936"
  by (simp add: MIN_INTERVAL_SECS_def float_simps)

lemma parse_interval_bounds:
  assumes "parse_interval raw = Ok d"
  shows "50000000 \<le> d"
proof -
  have "(50000000 :: nat) \<le> round_half_even (max secs MIN_INTERVAL_SECS * 1000000000)" for secs
    by (rule round_half_even_mono) (simp add: min_interval max_def)
  then show ?thesis using assms
    by (auto simp: parse_interval_def duration_from_secs_def Let_def split: option.splits f64.splits if_splits)
qed

definition flag_kept :: "CliOptions \<Rightarrow> string list \<Rightarrow> cli_failure + (CliOptions \<times> string list) \<Rightarrow> bool" where
  "flag_kept opts rest r =
     (case r of Err _ \<Rightarrow> True
      | Ok (opts', rest') \<Rightarrow> length rest' \<le> length rest
          \<and> (50000000 \<le> co_refresh_interval_ns opts \<longrightarrow> 50000000 \<le> co_refresh_interval_ns opts'))"

lemma flag_kept_if: "flag_kept opts rest x \<Longrightarrow> flag_kept opts rest y \<Longrightarrow> flag_kept opts rest (if c then x else y)"
  by simp

lemma flag_kept_interval: "flag_kept opts rest (watch_interval opts rest)"
  by (auto simp: flag_kept_def watch_interval_def result_simps Let_def dest: parse_interval_bounds
      split: list.splits sum.splits if_splits)

lemma flag_kept_parse_flag: "flag_kept opts rest (parse_flag opts a rest)"
  unfolding parse_flag_def
  by (intro flag_kept_if flag_kept_interval)
    (auto simp: flag_kept_def required_value_def result_simps split: sum.splits list.splits option.splits)

lemma parse_flag_rest: "parse_flag opts a rest = Ok (opts', rest') \<Longrightarrow> length rest' \<le> length rest"
  using flag_kept_parse_flag [of opts rest a] by (simp add: flag_kept_def)

lemma parse_flag_interval:
  "parse_flag opts a rest = Ok (opts', rest') \<Longrightarrow>
     50000000 \<le> co_refresh_interval_ns opts \<Longrightarrow> 50000000 \<le> co_refresh_interval_ns opts'"
  using flag_kept_parse_flag [of opts rest a] by (simp add: flag_kept_def)

function parse_loop :: "CliOptions \<Rightarrow> string list \<Rightarrow> cli_failure + CliOptions" where
  "parse_loop opts [] = Ok opts"
| "parse_loop opts (a # rest) =
     (case parse_flag opts a rest of
        Err e \<Rightarrow> Err e
      | Ok (opts, rest') \<Rightarrow> parse_loop opts rest')"
  by pat_completeness auto

termination parse_loop
  by (relation "measure (\<lambda>(_, args). length args)") (auto dest: parse_flag_rest)

definition parse_args :: "string list \<Rightarrow> cli_failure + CliOptions" where
  "parse_args args =
     and_then (parse_loop cli_options_default args) (\<lambda>opts.
       if co_force_color opts \<and> co_no_color opts
       then Err (Refused (''--color and --no-color can'' @ [CHR 0x27] @ ''t be used at the same time''))
       else if co_watch opts \<and> co_json opts
       then Err (Refused (''--json and --interval/-i can'' @ [CHR 0x27] @ ''t be used together''))
       else Ok opts)"

section \<open>Bounds of the interval\<close>

lemma parse_loop_interval:
  "parse_loop opts args = Ok opts' \<Longrightarrow>
     50000000 \<le> co_refresh_interval_ns opts \<Longrightarrow> 50000000 \<le> co_refresh_interval_ns opts'"
  by (induction opts args rule: parse_loop.induct)
    (auto dest: parse_flag_interval split: sum.splits prod.splits)

section \<open>Properties\<close>

text \<open>Whatever the arguments are, accepted options never ask for both colour and no colour, nor for
  JSON in watch mode, and the refresh interval is at least 50 milliseconds.\<close>

theorem accepted_options_sound:
  assumes "parse_args args = Ok opts"
  shows "\<not> (co_force_color opts \<and> co_no_color opts) \<and> \<not> (co_watch opts \<and> co_json opts)
    \<and> 50000000 \<le> co_refresh_interval_ns opts"
  using assms parse_loop_interval [of cli_options_default args opts]
  by (auto simp: parse_args_def result_simps cli_options_default_def split: if_splits)

theorem accepted_options_sound_witness:
  "50000000 \<le> co_refresh_interval_ns (cli_options_default\<lparr>co_watch := True, co_refresh_interval_ns := 5000000000\<rparr>)"
proof -
  have five: "parse_f64 ''5'' = Some (Finite 5)" by (simp add: parse_float_simps float_simps)
  have "parse_args [''-i'', ''5''] =
      Ok (cli_options_default\<lparr>co_watch := True, co_refresh_interval_ns := 5000000000\<rparr>)"
    by (simp add: parse_args_def parse_flag_def watch_interval_def starts_with_def parse_interval_def
        duration_from_secs_def min_interval cli_options_default_def five round_half_even_def Let_def)
  from accepted_options_sound [OF this] show ?thesis by blast
qed

text \<open>A refresh interval of \<open>2 ^ 64\<close> seconds or more is finite and positive, so no check refuses
  it, and the program panics.\<close>

theorem huge_interval_panics:
  assumes "parse_f64 raw = Some (Finite secs)" "2 ^ 64 \<le> secs" "\<not> starts_with raw ''-''"
  shows "parse_args [''-i'', raw] = Err Panicked"
proof -
  have "(2 ^ 64 * 1000000000 :: nat) \<le> round_half_even (max secs MIN_INTERVAL_SECS * 1000000000)"
    using assms(2) by (intro round_half_even_mono) (auto simp: max_def)
  then have "duration_from_secs (max secs MIN_INTERVAL_SECS) = None"
    by (simp add: duration_from_secs_def Let_def)
  moreover have "\<not> secs \<le> 0" using assms(2) by auto
  ultimately have "parse_interval raw = Err Panicked"
    using assms(1) by (simp add: parse_interval_def)
  with assms(3) show ?thesis
    by (simp add: parse_args_def parse_flag_def watch_interval_def Let_def)
qed

theorem huge_interval_panics_witness:
  "parse_args [''-i'', ''1e20''] = Err Panicked"
proof (rule huge_interval_panics)
  show "parse_f64 ''1e20'' = Some (Finite (10 ^ 20))" by (simp add: parse_float_simps float_simps)
qed (simp_all add: starts_with_def)

end
