(* ===== verification/Cli_Render.thy ===== *)
theory Cli_Render
  imports Cli_Args Client_Views
begin

text \<open>
  The printing of the command line client, \<^verbatim>\<open>crates/client-cli/src/render.rs\<close>. The views it
  prints are the ones the backend sends. Calendar time and \<open>getent\<close> are parameters. A string is its
  UTF-8 bytes; its characters are the runs that start at a byte which continues no other.
\<close>

section \<open>Characters\<close>

definition continues_char :: "char \<Rightarrow> bool" where
  "continues_char c \<longleftrightarrow> (let n = of_char c :: nat in 128 \<le> n \<and> n < 192)"

function utf8_chars :: "string \<Rightarrow> string list" where
  "utf8_chars [] = []"
| "utf8_chars (c # s) = (c # takeWhile continues_char s) # utf8_chars (dropWhile continues_char s)"
  by pat_completeness auto

termination utf8_chars
  by (relation "measure length") (auto simp: le_imp_less_Suc length_dropWhile_le)

definition char_count :: "string \<Rightarrow> nat" where
  "char_count s = length (utf8_chars s)"

text \<open>\<open>{:<width$}\<close>.\<close>

definition pad_right :: "nat \<Rightarrow> string \<Rightarrow> string" where
  "pad_right w s = s @ replicate (w - char_count s) (CHR '' '')"

definition ellipsis :: string where
  "ellipsis = ascii [0xE2, 0x80, 0xA6]"

definition degree_sign :: string where
  "degree_sign = ascii [0xC2, 0xB0]"

section \<open>Options\<close>

record RenderOptions =
  ro_color :: bool
  ro_show_header :: bool
  ro_no_processes :: bool
  ro_show_cmd :: bool
  ro_show_user :: bool
  ro_show_pid :: bool
  ro_gresname_width :: "nat option"
  ro_latency_display :: bool

text \<open>The arguments: whether the output is a terminal, and what \<open>latency_display_from_options\<close> gives.\<close>

definition render_options_from_cli :: "bool \<Rightarrow> bool \<Rightarrow> CliOptions \<Rightarrow> RenderOptions" where
  "render_options_from_cli is_terminal latency_display opts =
     \<lparr>ro_color = co_force_color opts \<or> (\<not> co_no_color opts \<and> is_terminal),
      ro_show_header = co_show_header opts, ro_no_processes = co_no_processes opts,
      ro_show_cmd = co_show_cmd opts, ro_show_user = co_show_user opts, ro_show_pid = co_show_pid opts,
      ro_gresname_width = co_gresname_width opts, ro_latency_display = latency_display\<rparr>"

definition render_options_default :: RenderOptions where
  "render_options_default =
     \<lparr>ro_color = False, ro_show_header = True, ro_no_processes = False, ro_show_cmd = False,
      ro_show_user = False, ro_show_pid = False, ro_gresname_width = None, ro_latency_display = True\<rparr>"

section \<open>Colours\<close>

definition escape :: char where
  "escape = char_of (27 :: nat)"

definition paint :: "bool \<Rightarrow> string \<Rightarrow> string \<Rightarrow> string" where
  "paint enabled style text =
     (if enabled then [escape] @ ''['' @ style @ ''m'' @ text @ [escape] @ ''[0;10m'' else text)"

definition bold_white :: "bool \<Rightarrow> string \<Rightarrow> string" where "bold_white en = paint en ''1;37''"
definition bold_black :: "bool \<Rightarrow> string \<Rightarrow> string" where "bold_black en = paint en ''1;30''"
definition bold_red :: "bool \<Rightarrow> string \<Rightarrow> string" where "bold_red en = paint en ''1;31''"
definition red :: "bool \<Rightarrow> string \<Rightarrow> string" where "red en = paint en ''31''"
definition blue :: "bool \<Rightarrow> string \<Rightarrow> string" where "blue en = paint en ''34''"
definition cyan :: "bool \<Rightarrow> string \<Rightarrow> string" where "cyan en = paint en ''36''"
definition green :: "bool \<Rightarrow> string \<Rightarrow> string" where "green en = paint en ''32''"
definition bold_green :: "bool \<Rightarrow> string \<Rightarrow> string" where "bold_green en = paint en ''1;32''"
definition yellow :: "bool \<Rightarrow> string \<Rightarrow> string" where "yellow en = paint en ''33''"
definition bold_yellow :: "bool \<Rightarrow> string \<Rightarrow> string" where "bold_yellow en = paint en ''1;33''"

lemmas palette_defs = bold_white_def bold_black_def bold_red_def red_def blue_def cyan_def green_def
  bold_green_def yellow_def bold_yellow_def

section \<open>User names\<close>

text \<open>The names that were looked up are kept in a table for the life of the process.\<close>

definition cli_username_for_uid :: "(u32 \<Rightarrow> string option) \<Rightarrow> name_cache \<Rightarrow> u32 \<Rightarrow> name_cache \<times> string" where
  "cli_username_for_uid resolve cache uid =
     (if uid = 0 then (cache, ''root'')
      else if uid = 0xffffffff then (cache, ''?'')
      else case cache uid of
        Some name \<Rightarrow> (cache, name)
      | None \<Rightarrow>
          let name = (case resolve uid of Some n \<Rightarrow> n | None \<Rightarrow> nat_to_string (unat uid))
          in (cache(uid \<mapsto> name), name))"

text \<open>The same with an empty table. The table only ever holds what a lookup gave
  (\<open>cli_names_transparent\<close> below), so this is the name that is shown.\<close>

definition user_name :: "(u32 \<Rightarrow> string option) \<Rightarrow> u32 \<Rightarrow> string" where
  "user_name resolve uid = snd (cli_username_for_uid resolve Map.empty uid)"

definition display_username :: "(u32 \<Rightarrow> string option) \<Rightarrow> ProcessView \<Rightarrow> string" where
  "display_username resolve p =
     (let username = trim (pv_username p) in
      if username \<noteq> [] \<and> username \<noteq> ''?'' then username else user_name resolve (pv_uid p))"

section \<open>The user filter\<close>

definition normalized_user_filter :: "string option \<Rightarrow> string option" where
  "normalized_user_filter user =
     Option.bind user (\<lambda>s. let t = trim s in if t = [] then None else Some t)"

definition should_render_gres :: "(u32 \<Rightarrow> string option) \<Rightarrow> string option \<Rightarrow> GresView \<Rightarrow> bool" where
  "should_render_gres resolve user g =
     (case normalized_user_filter user of
        None \<Rightarrow> True
      | Some u \<Rightarrow>
          (case gv_processes g of
             Some ps \<Rightarrow> list_ex (\<lambda>p. display_username resolve p = u) ps
           | None \<Rightarrow> True))"

definition visible_processes :: "(u32 \<Rightarrow> string option) \<Rightarrow> string option \<Rightarrow> GresView \<Rightarrow> ProcessView list" where
  "visible_processes resolve user g =
     (case gv_processes g of
        None \<Rightarrow> []
      | Some ps \<Rightarrow>
          (case normalized_user_filter user of
             None \<Rightarrow> ps
           | Some u \<Rightarrow> filter (\<lambda>p. display_username resolve p = u) ps))"

section \<open>The parts of a row\<close>

definition DEFAULT_GRESNAME_WIDTH :: nat where
  "DEFAULT_GRESNAME_WIDTH = 16"

definition gresname_width :: "(u32 \<Rightarrow> string option) \<Rightarrow> NodeView list \<Rightarrow> string option \<Rightarrow> nat option \<Rightarrow> nat" where
  "gresname_width resolve nodes user configured =
     (case configured of
        Some w \<Rightarrow> w
      | None \<Rightarrow>
          let widths = map (\<lambda>g. if trim (gv_name g) = [] then 3 else char_count (gv_name g))
                (filter (should_render_gres resolve user) (concat (map nv_gres nodes)))
          in max (if widths = [] then DEFAULT_GRESNAME_WIDTH else Max (set widths)) DEFAULT_GRESNAME_WIDTH)"

definition shorten_left :: "string \<Rightarrow> nat \<Rightarrow> string" where
  "shorten_left value w =
     (let len = char_count value in
      if w = 0 then []
      else if len \<le> w then value
      else if w = 1 then ellipsis
      else ellipsis @ concat (rev (take (w - 1) (rev (utf8_chars value)))))"

definition format_delay :: "u64 option \<Rightarrow> string option" where
  "format_delay delay_us =
     map_option (\<lambda>d.
       if d < 1000 then nat_to_string (unat d) @ ''us''
       else two_decimals (round_f64 (round_f64 (of_nat (unat d)) / 1000)) @ ''ms'') delay_us"

text \<open>The parameter is the calendar time of a time stamp, when it has exactly one.\<close>

definition format_snapshot_time :: "(int \<Rightarrow> string option) \<Rightarrow> int \<Rightarrow> string" where
  "format_snapshot_time local_time ts =
     (case local_time ts of Some text \<Rightarrow> text | None \<Rightarrow> ''??? ?? ?? ??:??:?? ????'')"

definition format_process :: "(u32 \<Rightarrow> string option) \<Rightarrow> ProcessView \<Rightarrow> RenderOptions \<Rightarrow> bool \<Rightarrow> string" where
  "format_process resolve p opts en =
     (let name = (if \<not> ro_show_cmd opts \<or> ro_show_user opts then bold_black en (display_username resolve p) else []);
          command = (case map_option trim (pv_command p) of Some c \<Rightarrow> (if c = [] then ''--'' else c) | None \<Rightarrow> ''--'')
      in name
         @ (if ro_show_cmd opts then (if name = [] then [] else '':'') @ cyan en command else [])
         @ (if ro_show_pid opts then ''/'' @ nat_to_string (unat (pv_pid p)) else [])
         @ ''('' @ yellow en (nat_to_string (unat (pv_used_memory_mb p)) @ ''M'') @ '')'')"

definition gres_name :: "GresView \<Rightarrow> string" where
  "gres_name g = (if trim (gv_name g) = [] then ''GPU'' else gv_name g)"

definition name_column :: "GresView \<Rightarrow> nat \<Rightarrow> string" where
  "name_column g w = pad_right w (shorten_left (gres_name g) w)"

definition temperature_text :: "GresView \<Rightarrow> bool \<Rightarrow> string" where
  "temperature_text g en =
     (let value = (case gv_temperature_c g of Some t \<Rightarrow> pad_left (CHR '' '') 3 (nat_to_string (unat t)) | None \<Rightarrow> '' ??'');
          text = value @ degree_sign @ ''C''
      in if (case gv_temperature_c g of Some t \<Rightarrow> 50 \<le> t | None \<Rightarrow> False) then bold_red en text else red en text)"

definition utilization_text :: "GresView \<Rightarrow> bool \<Rightarrow> string" where
  "utilization_text g en =
     (let text = pad_left (CHR '' '') 3 (nat_to_string (unat (gv_util g))) @ '' %''
      in if 30 \<le> gv_util g then bold_green en text else green en text)"

definition line_end :: string where
  "line_end = [char_of (10 :: nat)]"

section \<open>The table\<close>

definition render_gres_row ::
    "(u32 \<Rightarrow> string option) \<Rightarrow> GresView \<Rightarrow> string option \<Rightarrow> nat \<Rightarrow> RenderOptions \<Rightarrow> bool \<Rightarrow> string" where
  "render_gres_row resolve g user name_width opts en =
     cyan en (''['' @ nat_to_string (unat (gv_index g)) @ '']'') @ '' ''
     @ (if ro_gresname_width opts \<noteq> Some 0 then blue en (name_column g name_width) @ '' |'' else [])
     @ temperature_text g en @ '', ''
     @ utilization_text g en @ '' | ''
     @ bold_yellow en (pad_left (CHR '' '') 5 (nat_to_string (unat (gv_mem_used_mb g)))) @ '' / ''
     @ yellow en (pad_left (CHR '' '') 5 (nat_to_string (unat (gv_mem_total_mb g)))) @ '' MB''
     @ (if \<not> ro_no_processes opts
        then '' |'' @ concat (map (\<lambda>p. '' '' @ format_process resolve p opts en) (visible_processes resolve user g))
        else [])
     @ line_end"

text \<open>\<open>name_width + 3\<close> saturates at 64 bits.\<close>

definition render_node_header ::
    "(int \<Rightarrow> string option) \<Rightarrow> NodeView \<Rightarrow> nat \<Rightarrow> RenderOptions \<Rightarrow> bool \<Rightarrow> string" where
  "render_node_header local_time n name_width opts en =
     bold_white en (pad_right (max (min (name_width + 3) (2 ^ 64 - 1)) (DEFAULT_GRESNAME_WIDTH + 3)) (nv_hostname n))
     @ ''  '' @ format_snapshot_time local_time (nv_timestamp_ms n)
     @ (case nv_driver_version n of
          Some d \<Rightarrow> (if trim d = [] then [] else ''  '' @ bold_black en d)
        | None \<Rightarrow> [])
     @ (if ro_latency_display opts
        then (case format_delay (nv_delay_us n) of Some d \<Rightarrow> ''  '' @ cyan en (''delay='' @ d) | None \<Rightarrow> [])
        else [])
     @ (if nv_stale n then '' '' @ bold_red en ''stale'' else [])
     @ (case nv_error n of Some e \<Rightarrow> ''  '' @ e | None \<Rightarrow> [])
     @ line_end"

definition render_node ::
    "(u32 \<Rightarrow> string option) \<Rightarrow> (int \<Rightarrow> string option) \<Rightarrow> nat \<Rightarrow> string option \<Rightarrow> RenderOptions \<Rightarrow> bool \<Rightarrow> NodeView \<Rightarrow> string" where
  "render_node resolve local_time w user opts en n =
     (let visible = filter (should_render_gres resolve user) (nv_gres n) in
      if visible = [] \<and> \<not> nv_stale n then []
      else (if ro_show_header opts then render_node_header local_time n w opts en else [])
        @ concat (map (\<lambda>g. render_gres_row resolve g user w opts en) visible))"

definition render_table ::
    "(u32 \<Rightarrow> string option) \<Rightarrow> (int \<Rightarrow> string option) \<Rightarrow> NodeView list \<Rightarrow> string option \<Rightarrow> RenderOptions \<Rightarrow> string" where
  "render_table resolve local_time nodes user opts =
     (let en = ro_color opts; w = gresname_width resolve nodes user (ro_gresname_width opts)
      in concat (map (render_node resolve local_time w user opts en) nodes))"

section \<open>The renderer of the refresh loop\<close>

text \<open>It keeps how many rows each host had.\<close>

type_synonym node_rows = "string \<rightharpoonup> nat"

definition remember_layout :: "(u32 \<Rightarrow> string option) \<Rightarrow> NodeView list \<Rightarrow> string option \<Rightarrow> node_rows" where
  "remember_layout resolve nodes user =
     map_of (rev (map (\<lambda>n. (nv_hostname n, length (filter (should_render_gres resolve user) (nv_gres n)))) nodes))"

definition render_full ::
    "(u32 \<Rightarrow> string option) \<Rightarrow> (int \<Rightarrow> string option) \<Rightarrow> node_rows \<Rightarrow> NodeView list \<Rightarrow> string option \<Rightarrow> RenderOptions
      \<Rightarrow> string \<times> node_rows" where
  "render_full resolve local_time last_rows nodes user opts =
     (render_table resolve local_time nodes user opts, remember_layout resolve nodes user)"

text \<open>The parameter is \<open>serde_json::to_string_pretty\<close>.\<close>

definition render_json :: "(ApiQueryResponse \<Rightarrow> string + string) \<Rightarrow> ApiQueryResponse \<Rightarrow> string + string" where
  "render_json to_string_pretty resp =
     map_err (\<lambda>e. ''encode JSON output failed: '' @ e) (map_ok (\<lambda>json. json @ line_end) (to_string_pretty resp))"

end
