(* ===== verification/Cli_Display.thy ===== *)
theory Cli_Display
  imports Cli_Render
begin

text \<open>
  What the printed table of \<^verbatim>\<open>crates/client-cli/src/render.rs\<close> shows: columns of equal width,
  the same text with and without colours, and the same rows whether the backend or the client
  filters by user.
\<close>

section \<open>Characters\<close>

definition char_run :: "string \<Rightarrow> bool" where
  "char_run p \<longleftrightarrow> p \<noteq> [] \<and> \<not> continues_char (hd p) \<and> list_all continues_char (tl p)"

definition starts_char :: "string \<Rightarrow> bool" where
  "starts_char s \<longleftrightarrow> s = [] \<or> \<not> continues_char (hd s)"

lemma starts_char_simps [simp]: "starts_char []" "starts_char (c # s) \<longleftrightarrow> \<not> continues_char c"
  by (simp_all add: starts_char_def)

lemma starts_takeWhile [simp]: "starts_char t \<Longrightarrow> takeWhile continues_char t = []" "starts_char t \<Longrightarrow> dropWhile continues_char t = t"
  by (cases t; simp)+

lemma starts_dropWhile [simp]: "starts_char (dropWhile continues_char s)"
  by (induction s) auto

lemma all_continue:
  "list_all continues_char s \<Longrightarrow> takeWhile continues_char s = s" "list_all continues_char s \<Longrightarrow> dropWhile continues_char s = []"
  by (simp_all add: list_all_iff takeWhile_eq_all_conv dropWhile_eq_Nil_conv)

lemma concat_utf8_chars [simp]: "concat (utf8_chars s) = s"
  by (induction s rule: utf8_chars.induct) simp_all

lemma utf8_chars_append: "starts_char t \<Longrightarrow> utf8_chars (s @ t) = utf8_chars s @ utf8_chars t"
proof (induction s rule: utf8_chars.induct)
  case (2 c s)
  show ?case
  proof (cases "list_all continues_char s")
    case True
    with 2(2) show ?thesis
      by (simp add: all_continue takeWhile_append dropWhile_append list_all_iff)
  next
    case False
    then obtain x where "x \<in> set s" "\<not> continues_char x" by (auto simp: list_all_iff)
    with 2 show ?thesis by simp
  qed
qed simp

lemma runs_after_first: "starts_char s \<Longrightarrow> list_all char_run (utf8_chars s)" "list_all char_run (tl (utf8_chars s))"
proof -
  show *: "list_all char_run (utf8_chars s)" if "starts_char s" for s
    using that
    by (induction s rule: utf8_chars.induct) (auto simp: char_run_def list_all_iff dest: set_takeWhileD)
  show "list_all char_run (tl (utf8_chars s))" by (cases s) (simp_all add: *)
qed

lemma utf8_chars_run: "char_run p \<Longrightarrow> utf8_chars p = [p]"
  by (cases p) (simp_all add: char_run_def all_continue)

lemma starts_concat_runs: "list_all char_run ps \<Longrightarrow> starts_char (concat ps)"
  by (cases ps) (auto simp: char_run_def starts_char_def)

lemma utf8_chars_concat: "list_all char_run ps \<Longrightarrow> utf8_chars (concat ps) = ps"
  by (induction ps) (simp_all add: utf8_chars_append starts_concat_runs utf8_chars_run)

lemma ellipsis_run [simp]: "char_run ellipsis"
  by (simp add: char_run_def ellipsis_def ascii_def continues_char_def)

lemma space_no_continue [simp]: "\<not> continues_char (CHR '' '')"
  by (simp add: continues_char_def)

lemma char_count_append: "starts_char t \<Longrightarrow> char_count (s @ t) = char_count s + char_count t"
  by (simp add: char_count_def utf8_chars_append)

lemma char_count_spaces [simp]: "char_count (replicate n (CHR '' '')) = n"
  by (induction n) (simp_all add: char_count_def)

lemma starts_spaces [simp]: "starts_char (replicate n (CHR '' ''))"
  by (cases n) simp_all

lemma char_count_pad [simp]: "char_count (pad_right w s) = max w (char_count s)"
  by (simp add: pad_right_def char_count_append)

lemma char_count_ellipsis [simp]: "char_count ellipsis = 1"
  by (simp add: char_count_def utf8_chars_run)

lemma char_count_Nil [simp]: "char_count [] = 0"
  by (simp add: char_count_def)

lemma char_count_shorten [simp]: "char_count (shorten_left v w) = min w (char_count v)"
proof (cases "1 < w \<and> w < char_count v")
  case True
  let ?tail = "drop (length (utf8_chars v) - (w - 1)) (utf8_chars v)"
  have "?tail = drop (length (utf8_chars v) - w) (tl (utf8_chars v))"
    using True by (simp add: drop_Suc [symmetric] char_count_def Suc_diff_le [symmetric])
  then have runs: "list_all char_run ?tail"
    using runs_after_first(2) [of v] by (auto simp: list_all_iff dest: in_set_dropD)
  have "shorten_left v w = ellipsis @ concat ?tail"
    using True by (simp add: shorten_left_def rev_take)
  then show ?thesis
    using True runs
    by (simp add: char_count_append starts_concat_runs)
      (simp add: char_count_def utf8_chars_concat)
qed (auto simp: shorten_left_def Let_def)

section \<open>Columns\<close>

lemma gresname_width_fits:
  assumes "n \<in> set nodes" "g \<in> set (nv_gres n)" "should_render_gres r user g"
  shows "char_count (gres_name g) \<le> gresname_width r nodes user None"
proof -
  let ?ws = "map (\<lambda>g. if trim (gv_name g) = [] then 3 else char_count (gv_name g))
      (filter (should_render_gres r user) (concat (map nv_gres nodes)))"
  have "char_count ''GPU'' = 3" by (simp add: char_count_def continues_char_def)
  then have "char_count (gres_name g) \<in> set ?ws" using assms by (auto simp: gres_name_def image_iff)
  then have "?ws \<noteq> []" "char_count (gres_name g) \<le> Max (set ?ws)" by (auto simp del: set_map)
  then show ?thesis by (simp add: gresname_width_def Let_def del: set_map map_map)
qed

text \<open>C32: in every row of the table the column of the GPU name has exactly as many characters as the
  table's name width, whatever bytes the name has; and when no width was asked for, the width is
  at least 16 and no name is shortened.\<close>

theorem name_columns_aligned:
  assumes "n \<in> set nodes" "g \<in> set (nv_gres n)" "should_render_gres r user g"
    and "w = gresname_width r nodes user configured"
  shows "char_count (name_column g w) = w
    \<and> (configured = None \<longrightarrow> 16 \<le> w \<and> name_column g w = pad_right w (gres_name g))"
proof (intro conjI impI)
  show "char_count (name_column g w) = w" by (simp add: name_column_def)
next
  assume none: "configured = None"
  then show "16 \<le> w" using assms(4) by (simp add: gresname_width_def Let_def DEFAULT_GRESNAME_WIDTH_def)
  moreover have "char_count (gres_name g) \<le> w" using none gresname_width_fits assms by simp
  ultimately have "shorten_left (gres_name g) w = gres_name g" by (simp add: shorten_left_def Let_def)
  then show "name_column g w = pad_right w (gres_name g)" by (simp add: name_column_def)
qed

definition demo_gres :: GresView where
  "demo_gres = \<lparr>gv_index = 0, gv_name = ''A100 '' @ degree_sign, gv_temperature_c = Some 61, gv_util = 42,
     gv_mem_used_mb = 1024, gv_mem_total_mb = 81920,
     gv_processes = Some [\<lparr>pv_uid = 1000, pv_username = ''alice'', pv_pid = 7, pv_command = Some ''python'',
       pv_used_memory_mb = 512\<rparr>]\<rparr>"

definition demo_node :: NodeView where
  "demo_node = \<lparr>nv_connection_id = ''conn-001'', nv_hostname = ''node-a'', nv_addr = ''10.0.0.1:30000'',
     nv_timestamp_ms = 0, nv_driver_version = Some ''550.54'', nv_num = 1, nv_stale = False,
     nv_error = None, nv_delay_us = Some 1280, nv_gres = [demo_gres]\<rparr>"

theorem name_columns_aligned_witness:
  "char_count (name_column demo_gres (gresname_width Map.empty [demo_node] None (Some 4))) = 4"
proof -
  have "gresname_width Map.empty [demo_node] None (Some 4) = 4" by (simp add: gresname_width_def)
  with name_columns_aligned [of demo_node "[demo_node]" demo_gres Map.empty None _ "Some 4"] show ?thesis
    by (simp add: demo_node_def should_render_gres_def normalized_user_filter_def)
qed

section \<open>Colours\<close>

text \<open>What a terminal shows: the text without its escape sequences, which end with the letter m.\<close>

function strip_ansi :: "string \<Rightarrow> string" where
  "strip_ansi [] = []"
| "strip_ansi (c # s) =
     (if c = escape then strip_ansi (drop 1 (dropWhile (\<lambda>x. x \<noteq> CHR ''m'') s)) else c # strip_ansi s)"
  by pat_completeness auto

termination strip_ansi
proof (relation "measure length")
  fix c :: char and s
  have "length (dropWhile (\<lambda>x. x \<noteq> CHR ''m'') s) \<le> length s" by (rule length_dropWhile_le)
  then show "(drop 1 (dropWhile (\<lambda>x. x \<noteq> CHR ''m'') s), c # s) \<in> measure length" by auto
qed auto

definition plain :: "string \<Rightarrow> bool" where
  "plain s \<longleftrightarrow> escape \<notin> set s"

definition paints :: "string \<Rightarrow> string \<Rightarrow> bool" where
  "paints a b \<longleftrightarrow> (\<forall>r. strip_ansi (a @ r) = b @ strip_ansi r)"

named_theorems paints_intro \<open>texts that differ in their colours only\<close>

lemma escape_char: "escape = CHR 0x1B"
  by code_simp

lemma plain_simps [simp]: "plain []" "plain (c # s) \<longleftrightarrow> c \<noteq> CHR 0x1B \<and> plain s"
  "plain (s @ t) \<longleftrightarrow> plain s \<and> plain t" "plain (concat ss) \<longleftrightarrow> list_all plain ss"
  by (auto simp: plain_def escape_char list_all_iff)

lemma plain_subset: "plain s \<Longrightarrow> set t \<subseteq> set s \<Longrightarrow> plain t"
  by (auto simp: plain_def)

lemma plain_trim [simp]: "plain s \<Longrightarrow> plain (trim s)"
  by (erule plain_subset) (rule trim_set)

lemma plain_nat [simp]: "plain (nat_to_string n)"
  unfolding plain_def by (rule not_digit_notin) (simp add: escape_char is_ascii_digit_def)

lemma plain_replicate [simp]: "c \<noteq> CHR 0x1B \<Longrightarrow> plain (replicate n c)"
  by (auto simp: plain_def escape_char)

lemma plain_pads [simp]: "c \<noteq> CHR 0x1B \<Longrightarrow> plain s \<Longrightarrow> plain (pad_left c w s)" "plain s \<Longrightarrow> plain (pad_right w s)"
  by (simp_all add: pad_left_def pad_right_def)

lemma plain_signs [simp]: "plain ellipsis" "plain degree_sign" "plain line_end"
  by code_simp+

lemma plain_shorten [simp]: "plain s \<Longrightarrow> plain (shorten_left s w)"
proof -
  assume "plain s"
  moreover have "set (concat (rev (take k (rev (utf8_chars s))))) \<subseteq> set (concat (utf8_chars s))" for k
    using set_take_subset [of k "rev (utf8_chars s)"] by (fastforce simp del: concat_utf8_chars)
  ultimately have "plain (concat (rev (take k (rev (utf8_chars s)))))" for k
    using plain_subset by (metis concat_utf8_chars)
  with \<open>plain s\<close> show ?thesis by (simp add: shorten_left_def Let_def del: plain_simps(4))
qed

lemma paints_Nil [paints_intro]: "paints [] []"
  by (simp add: paints_def)

lemma paints_plain: "plain s \<Longrightarrow> paints s s"
  by (induction s) (simp_all add: paints_def escape_char)

lemma paints_append [paints_intro]: "paints a b \<Longrightarrow> paints c d \<Longrightarrow> paints (a @ c) (b @ d)"
  by (simp add: paints_def)

lemma paints_Cons [paints_intro]: "c \<noteq> CHR 0x1B \<Longrightarrow> paints a b \<Longrightarrow> paints (c # a) (c # b)"
  by (simp add: paints_def escape_char)

lemma paints_concat: "(\<And>x. x \<in> set xs \<Longrightarrow> paints (f x) (g x)) \<Longrightarrow> paints (concat (map f xs)) (concat (map g xs))"
  by (induction xs) (auto simp: paints_def)

lemma paints_if [paints_intro]: "(c \<Longrightarrow> paints a b) \<Longrightarrow> (\<not> c \<Longrightarrow> paints a' b') \<Longrightarrow>
    paints (if c then a else a') (if c then b else b')"
  by simp

lemma paints_option [paints_intro]:
  "(x = None \<Longrightarrow> paints a a') \<Longrightarrow> (\<And>y. x = Some y \<Longrightarrow> paints (f y) (f' y)) \<Longrightarrow>
    paints (case x of None \<Rightarrow> a | Some y \<Rightarrow> f y) (case x of None \<Rightarrow> a' | Some y \<Rightarrow> f' y)"
  by (cases x) simp_all

lemma strip_sequence: "CHR ''m'' \<notin> set style \<Longrightarrow> strip_ansi (escape # style @ CHR ''m'' # r) = strip_ansi r"
  by (simp add: dropWhile_append2 dropWhile_append)

lemma paints_paint [paints_intro]:
  assumes "plain text" "CHR ''m'' \<notin> set style"
  shows "paints (paint True style text) (paint False style text)"
proof -
  have "paints text text" using assms(1) by (rule paints_plain)
  then show ?thesis
    using strip_sequence [of "''['' @ style"] strip_sequence [of "''[0;10''"] assms(2)
    by (simp add: paints_def paint_def)
qed


text \<open>The texts of a view that reach the terminal as they are.\<close>

definition plain_process :: "ProcessView \<Rightarrow> bool" where
  "plain_process p \<longleftrightarrow> plain (pv_username p) \<and> pred_option plain (pv_command p)"

definition plain_gres :: "GresView \<Rightarrow> bool" where
  "plain_gres g \<longleftrightarrow> plain (gv_name g) \<and> pred_option (list_all plain_process) (gv_processes g)"

definition plain_node :: "NodeView \<Rightarrow> bool" where
  "plain_node n \<longleftrightarrow> plain (nv_hostname n) \<and> pred_option plain (nv_driver_version n) \<and> pred_option plain (nv_error n)
     \<and> list_all plain_gres (nv_gres n)"

definition shown_names :: "(u32 \<Rightarrow> string option) \<Rightarrow> bool" where
  "shown_names resolve \<longleftrightarrow> (\<forall>uid. pred_option (\<lambda>n. plain n \<and> n \<noteq> []) (resolve uid))"

lemma plain_user_name:
  assumes "shown_names resolve"
  shows "plain (user_name resolve uid)" "user_name resolve uid \<noteq> []"
  using assms
  by (auto simp: user_name_def cli_username_for_uid_def shown_names_def Let_def option.pred_set split: option.split)

lemma plain_display:
  assumes "shown_names resolve" "plain_process p"
  shows "plain (display_username resolve p)" "display_username resolve p \<noteq> []"
  using assms plain_user_name [OF assms(1)] by (simp_all add: display_username_def plain_process_def Let_def)

lemma paint_empty_iff [simp]: "paint en style text = [] \<longleftrightarrow> \<not> en \<and> text = []"
  by (simp add: paint_def)

lemma paints_process:
  assumes "shown_names resolve" "plain_process p"
  shows "paints (format_process resolve p opts True) (format_process resolve p opts False)"
proof -
  define command where
    "command = (case map_option trim (pv_command p) of Some c \<Rightarrow> (if c = [] then ''--'' else c) | None \<Rightarrow> ''--'')"
  have command: "plain command"
    using assms(2) by (auto simp: command_def plain_process_def option.pred_set split: option.split)
  define name where "name = display_username resolve p"
  have name: "plain name" "name \<noteq> []"
    using plain_display [OF assms] by (simp_all add: name_def)
  show ?thesis
    unfolding format_process_def palette_defs Let_def command_def [symmetric] name_def [symmetric]
    by (cases "ro_show_cmd opts"; cases "ro_show_user opts"; cases "ro_show_pid opts"; simp add: name;
        intro paints_intro; (rule paints_plain)?; simp add: command name)
qed

lemma paints_row:
  assumes "shown_names resolve" "plain_gres g"
  shows "paints (render_gres_row resolve g user w opts True) (render_gres_row resolve g user w opts False)"
proof -
  have ps: "plain_process p" if "p \<in> set (visible_processes resolve user g)" for p
    using that assms(2)
    by (cases "gv_processes g")
      (auto simp: visible_processes_def plain_gres_def list_all_iff split: option.splits)
  have name: "plain (name_column g w)"
    using assms(2) by (simp add: name_column_def gres_name_def plain_gres_def)
  show ?thesis
    unfolding render_gres_row_def temperature_text_def utilization_text_def palette_defs Let_def
    by (intro paints_intro paints_concat paints_plain; (intro paints_intro paints_plain paints_process assms(1) ps)?)
      (auto simp: name split: option.split)
qed

lemma plain_delay: "format_delay d = Some t \<Longrightarrow> plain t"
  by (auto simp: format_delay_def two_decimals_def Let_def)

lemma paints_header:
  assumes "\<And>ts. pred_option plain (local_time ts)" "plain_node n"
  shows "paints (render_node_header local_time n w opts True) (render_node_header local_time n w opts False)"
  unfolding render_node_header_def format_snapshot_time_def palette_defs
  by (intro paints_intro paints_plain)
    (use assms in \<open>auto simp: plain_node_def plain_delay option.pred_set split: option.split\<close>)

lemma colour_unused [simp]:
  "format_process resolve p (opts\<lparr>ro_color := x\<rparr>) en = format_process resolve p opts en"
  "render_gres_row resolve g user w (opts\<lparr>ro_color := x\<rparr>) en = render_gres_row resolve g user w opts en"
  "render_node_header local_time n w (opts\<lparr>ro_color := x\<rparr>) en = render_node_header local_time n w opts en"
  by (simp_all add: format_process_def render_gres_row_def render_node_header_def)

text \<open>C31: colours do not change what is shown: without its escape sequences the coloured table is the
  plain table, as long as no name, command or message has an escape character of its own.\<close>

theorem colour_transparent:
  assumes "shown_names resolve" "\<forall>ts. pred_option plain (local_time ts)" "\<forall>n \<in> set nodes. plain_node n"
  shows "strip_ansi (render_table resolve local_time nodes user (opts\<lparr>ro_color := True\<rparr>))
    = render_table resolve local_time nodes user (opts\<lparr>ro_color := False\<rparr>)"
proof -
  have node: "paints (render_node resolve local_time w user (opts\<lparr>ro_color := True\<rparr>) True n)
      (render_node resolve local_time w user (opts\<lparr>ro_color := False\<rparr>) False n)" if "n \<in> set nodes" for n w
  proof -
    have "plain_node n" using assms(3) that by blast
    moreover from this have "\<And>g. g \<in> set (nv_gres n) \<Longrightarrow> plain_gres g" by (simp add: plain_node_def list_all_iff)
    ultimately show ?thesis
      unfolding render_node_def Let_def
      using assms(1,2)
      by (intro paints_intro paints_concat; simp add: paints_row paints_header paints_Nil)
  qed
  have "paints (render_table resolve local_time nodes user (opts\<lparr>ro_color := True\<rparr>))
      (render_table resolve local_time nodes user (opts\<lparr>ro_color := False\<rparr>))"
    unfolding render_table_def Let_def by (simp add: paints_concat node)
  then show ?thesis by (simp add: paints_def [THEN iffD1, THEN spec [of _ "[]"], simplified])
qed

theorem colour_transparent_witness:
  "strip_ansi (render_table Map.empty Map.empty [demo_node] None (render_options_default\<lparr>ro_color := True\<rparr>))
    = render_table Map.empty Map.empty [demo_node] None (render_options_default\<lparr>ro_color := False\<rparr>)"
  by (rule colour_transparent)
    (simp_all add: shown_names_def demo_node_def demo_gres_def plain_node_def plain_gres_def plain_process_def)

section \<open>The user filter\<close>

text \<open>The table of looked up names only ever holds what a lookup gives.\<close>

lemma names_okD: "names_ok resolve cache \<Longrightarrow> cache uid = Some n \<Longrightarrow> n = resolved_name resolve uid"
  by (simp add: names_ok_def)

lemma names_ok_update: "names_ok resolve cache \<Longrightarrow> names_ok resolve (cache(uid \<mapsto> resolved_name resolve uid))"
  by (simp add: names_ok_def)

lemma cli_names_transparent:
  "names_ok resolve cache \<Longrightarrow> names_ok resolve (fst (cli_username_for_uid resolve cache uid))
     \<and> snd (cli_username_for_uid resolve cache uid) = user_name resolve uid"
  by (cases "cache uid")
    (auto simp: cli_username_for_uid_def user_name_def Let_def resolved_name_def [symmetric]
      intro: names_ok_update dest: names_okD)

text \<open>A view whose name is already the one to show.\<close>

definition named :: "(u32 \<Rightarrow> string option) \<Rightarrow> NodeView \<Rightarrow> bool" where
  "named resolve n \<longleftrightarrow> (\<forall>g \<in> set (nv_gres n). \<forall>ps. gv_processes g = Some ps \<longrightarrow>
     (\<forall>p \<in> set ps. display_username resolve p = pv_username p))"

text \<open>Whose answer the client's own names do not change: the one of a user database without a user
  called \<open>?\<close>.\<close>

lemma backend_names:
  assumes "\<forall>uid. resolve_username_for_uid getent uid \<noteq> Some ''?''"
  shows "display_username r (snd (process_view (resolve_username_for_uid getent) Map.empty p))
    = pv_username (snd (process_view (resolve_username_for_uid getent) Map.empty p))"
proof -
  have "trim ''?'' = ''?''" by (rule trim_same) (simp_all add: ws_free_ascii)
  moreover have "trim (nat_to_string n) = nat_to_string n" "nat_to_string n \<noteq> ''?''" for n
  proof -
    have d: "\<forall>c \<in> set (nat_to_string n). is_ascii_digit c" using nat_to_string_digits [of n] by (simp add: list_all_iff)
    then show "trim (nat_to_string n) = nat_to_string n"
      by (intro trim_same digit_ws_free) simp_all
    show "nat_to_string n \<noteq> ''?''"
    proof
      assume "nat_to_string n = ''?''"
      with d have "is_ascii_digit (CHR ''?'')" by simp
      then show False by (simp add: is_ascii_digit_def)
    qed
  qed
  moreover have "trim name = name \<and> name \<noteq> [] \<and> name \<noteq> ''?''" if "resolve_username_for_uid getent uid = Some name" for uid name
    using that assms by (auto simp: resolve_username_for_uid_def Let_def bind_eq_Some_conv split: if_splits)
  ultimately show ?thesis
    by (auto simp: process_view_def username_for_uid_def display_username_def user_name_def cli_username_for_uid_def
        Let_def split: option.split)
qed

lemma named_processes:
  assumes "\<forall>uid. resolve_username_for_uid getent uid \<noteq> Some ''?''"
    and "g' = snd (gres_view (resolve_username_for_uid getent) Map.empty g)" "gv_processes g' = Some ps" "p \<in> set ps"
  shows "display_username r p = pv_username p"
proof -
  note memo = memo_safeD [OF memo_safe_map [OF process_memo] names_ok_empty, of "resolve_username_for_uid getent" "gi_processes g"]
  have "ps = map (\<lambda>p. snd (process_view (resolve_username_for_uid getent) Map.empty p)) (gi_processes g)"
    using assms(2,3) memo by (auto simp: gres_view_def process_views_from_snapshot_def case_prod_beta Let_def)
  with assms(4) backend_names [OF assms(1)] show ?thesis by auto
qed

lemma named_gres_views:
  assumes "\<forall>uid. resolve_username_for_uid getent uid \<noteq> Some ''?''"
    and "g' \<in> set (snd (gres_views_from_snapshot (resolve_username_for_uid getent) Map.empty s))"
    and "gv_processes g' = Some ps" "p \<in> set ps"
  shows "display_username r p = pv_username p"
proof -
  note memo = memo_safeD [OF memo_safe_map [OF gres_memo] names_ok_empty, of "resolve_username_for_uid getent" "ss_gres s"]
  obtain g where "g' = snd (gres_view (resolve_username_for_uid getent) Map.empty g)"
    using assms(2) memo by (auto simp: gres_views_from_snapshot_def)
  from named_processes [OF assms(1) this assms(3,4)] show ?thesis .
qed

lemma csv_processes: "parse_csv_item item = Some g \<Longrightarrow> gv_processes g = None"
  by (auto simp: parse_csv_item_def legacy_gres_view_def split: list.splits option.splits)

lemma round1_processes:
  "parse_round1_server_json json s = Some gs \<Longrightarrow> g \<in> set gs \<Longrightarrow> gv_processes g = None"
  by (auto simp: parse_round1_server_json_def legacy_gres_view_def bind_eq_Some_conv)

lemma legacy_processes: "g \<in> set (parse_legacy_gres_views json raw) \<Longrightarrow> gv_processes g = None"
  by (cases "parse_round1_server_json json (from_utf8_lossy raw)")
    (auto simp: parse_legacy_gres_views_def parse_round1_csv_def List.map_filter_def Let_def
      dest: csv_processes round1_processes)

lemma named_entry:
  assumes "\<forall>uid. resolve_username_for_uid getent uid \<noteq> Some ''?''" "ve_resolve env = resolve_username_for_uid getent"
  shows "named r (snd (node_view_from_entry env Map.empty e))"
proof -
  have "display_username r p = pv_username p"
    if "g \<in> set (nv_gres (snd (node_view_from_entry env Map.empty e)))" "gv_processes g = Some ps" "p \<in> set ps" for g ps p
  proof (cases "cn_last_snapshot e")
    case (Some s)
    with that named_gres_views [OF assms(1) _ that(2,3)] show ?thesis
      by (simp add: node_view_from_entry_def node_view_from_snapshot_def assms(2) case_prod_beta Let_def)
  next
    case None
    with that named_gres_views [OF assms(1) _ that(2,3)] show ?thesis
      by (auto simp: node_view_from_entry_def parse_payload_view_def assms(2) case_prod_beta Let_def
          dest: legacy_processes split: option.splits)
  qed
  then show ?thesis unfolding named_def by blast
qed

text \<open>Filtering by user does not change which rows and processes are printed for this user.\<close>

lemma filtered_gres:
  assumes "\<And>ps p. gv_processes g = Some ps \<Longrightarrow> p \<in> set ps \<Longrightarrow> display_username r p = pv_username p"
    and "trim u = u" "u \<noteq> []"
  defines "g' \<equiv> g\<lparr>gv_processes := map_option (filter (\<lambda>p. pv_username p = u)) (gv_processes g)\<rparr>"
  shows "should_render_gres r (Some u) g' = should_render_gres r (Some u) g"
    "visible_processes r (Some u) g' = visible_processes r (Some u) g"
proof -
  have "normalized_user_filter (Some u) = Some u"
    using assms(2,3) by (simp add: normalized_user_filter_def)
  then show "should_render_gres r (Some u) g' = should_render_gres r (Some u) g"
      "visible_processes r (Some u) g' = visible_processes r (Some u) g"
    using assms(1)
    by (cases "gv_processes g"; auto simp: g'_def should_render_gres_def visible_processes_def list_ex_iff
        intro!: filter_cong)+
qed

lemma filter_map_same:
  "(\<And>x. x \<in> set xs \<Longrightarrow> P (f x) = P x) \<Longrightarrow> filter P (map f xs) = map f (filter P xs)"
  by (induction xs) simp_all

lemma filtered_node:
  assumes "named r n" "trim u = u" "u \<noteq> []"
  shows "filter (should_render_gres r (Some u)) (nv_gres (apply_user_filter (Some u) n))
      = map (\<lambda>g. g\<lparr>gv_processes := map_option (filter (\<lambda>p. pv_username p = u)) (gv_processes g)\<rparr>)
          (filter (should_render_gres r (Some u)) (nv_gres n))"
    and "render_node r lt w (Some u) opts en (apply_user_filter (Some u) n) = render_node r lt w (Some u) opts en n"
proof -
  let ?keep = "\<lambda>g. g\<lparr>gv_processes := map_option (filter (\<lambda>p. pv_username p = u)) (gv_processes g)\<rparr>"
  have gres: "should_render_gres r (Some u) (?keep g) = should_render_gres r (Some u) g"
      "visible_processes r (Some u) (?keep g) = visible_processes r (Some u) g" if "g \<in> set (nv_gres n)" for g
    using filtered_gres [of g r u] assms that unfolding named_def by blast+
  then show rows: "filter (should_render_gres r (Some u)) (nv_gres (apply_user_filter (Some u) n))
      = map ?keep (filter (should_render_gres r (Some u)) (nv_gres n))"
    using assms(3) by (simp add: apply_user_filter_def filter_map_same)
  have row: "render_gres_row r (?keep g) (Some u) w opts en = render_gres_row r g (Some u) w opts en"
    if "g \<in> set (nv_gres n)" for g
    using gres(2) [OF that]
    by (simp add: render_gres_row_def name_column_def gres_name_def temperature_text_def utilization_text_def)
  have "concat (map (\<lambda>g. render_gres_row r (?keep g) (Some u) w opts en) (filter (should_render_gres r (Some u)) (nv_gres n)))
      = concat (map (\<lambda>g. render_gres_row r g (Some u) w opts en) (filter (should_render_gres r (Some u)) (nv_gres n)))"
    by (rule arg_cong [where f = concat], rule map_cong [OF refl]) (simp add: row)
  moreover have "render_node_header lt (apply_user_filter (Some u) n) w opts en = render_node_header lt n w opts en"
    and "nv_stale (apply_user_filter (Some u) n) = nv_stale n"
    by (simp_all add: apply_user_filter_def render_node_header_def)
  ultimately show "render_node r lt w (Some u) opts en (apply_user_filter (Some u) n) = render_node r lt w (Some u) opts en n"
    unfolding render_node_def rows Let_def by (simp add: comp_def)
qed

lemma filtered_width:
  assumes "\<forall>n \<in> set nodes. named r n" "trim u = u" "u \<noteq> []"
  shows "gresname_width r (map (apply_user_filter (Some u)) nodes) (Some u) c = gresname_width r nodes (Some u) c"
proof -
  have "map (\<lambda>g. if trim (gv_name g) = [] then 3 else char_count (gv_name g))
          (filter (should_render_gres r (Some u)) (concat (map nv_gres (map (apply_user_filter (Some u)) nodes))))
      = map (\<lambda>g. if trim (gv_name g) = [] then 3 else char_count (gv_name g))
          (filter (should_render_gres r (Some u)) (concat (map nv_gres nodes)))"
    using assms by (induction nodes) (simp_all add: filtered_node(1))
  then show ?thesis unfolding gresname_width_def by (simp only: Let_def)
qed

lemma filtered_table:
  assumes "\<forall>n \<in> set nodes. named r n" "trim u = u" "u \<noteq> []"
  shows "render_table r lt (map (apply_user_filter (Some u)) nodes) (Some u) opts = render_table r lt nodes (Some u) opts"
  using assms by (simp add: render_table_def Let_def filtered_width filtered_node(2) cong: map_cong)

lemma sort_key_map_same: "(\<And>x. k (f x) = k x) \<Longrightarrow> sort_key k (map f xs) = map f (sort_key k xs)"
proof (induction xs)
  case (Cons x xs)
  have "insort_key k (f x) (map f ys) = map f (insort_key k x ys)" for ys
    using Cons.prems by (induction ys) simp_all
  with Cons show ?case by simp
qed simp

text \<open>C30: it does not matter who filters by user: the table of the backend's answer for one user is the
  table that the client prints of the whole answer with that user as its filter. The name is
  given without white space around it, and the user database has no user called \<open>?\<close>.\<close>

theorem user_filter_either_side:
  assumes "names_ok (ve_resolve env) cache" "ve_resolve env = resolve_username_for_uid getent"
    and "\<forall>uid. resolve_username_for_uid getent uid \<noteq> Some ''?''" "trim u = u" "u \<noteq> []"
  shows "render_table r lt (ar_nodes (snd (build_query_response env cache rows f (Some u)))) (Some u) opts
    = render_table r lt (ar_nodes (snd (build_query_response env cache rows f None))) (Some u) opts"
proof -
  let ?chosen = "filter (\<lambda>e. entry_matches_filter e (node_filter_parse f)) (map snd rows)"
  let ?nodes = "sort_key nv_connection_id (map (\<lambda>e. snd (node_view_from_entry env Map.empty e)) ?chosen)"
  have views: "snd (map_with (node_view_from_entry env) cache ?chosen) = map (\<lambda>e. snd (node_view_from_entry env Map.empty e)) ?chosen"
    using memo_safeD [OF memo_safe_map [OF node_memo] assms(1), of ?chosen] by simp
  have none: "apply_user_filter None = (\<lambda>n. n)"
    by (rule ext) (simp add: apply_user_filter_def)
  have "ar_nodes (snd (build_query_response env cache rows f None)) = ?nodes"
      "ar_nodes (snd (build_query_response env cache rows f (Some u))) = map (apply_user_filter (Some u)) ?nodes"
    using views by (simp_all add: build_query_response_def Let_def case_prod_beta none flip: sort_key_map_same)
  moreover have "\<forall>n \<in> set ?nodes. named r n" using named_entry [OF assms(3,2)] by simp
  ultimately show ?thesis using filtered_table assms(4,5) by simp
qed

theorem user_filter_either_side_witness:
  "render_table Map.empty Map.empty
      (ar_nodes (snd (build_query_response (demo_views\<lparr>ve_resolve := resolve_username_for_uid Map.empty\<rparr>)
        Map.empty demo_rows None (Some ''1000'')))) (Some ''1000'') render_options_default
    = render_table Map.empty Map.empty
      (ar_nodes (snd (build_query_response (demo_views\<lparr>ve_resolve := resolve_username_for_uid Map.empty\<rparr>)
        Map.empty demo_rows None None))) (Some ''1000'') render_options_default"
proof (rule user_filter_either_side)
  show "trim ''1000'' = ''1000''" by (rule trim_same) (simp_all add: ws_free_ascii)
qed (auto simp: resolve_username_for_uid_def demo_views_def)

text \<open>With white space around the name the two filters differ: the backend compares the name as it is
  given, the client trims it, so that a row with processes of the user is not printed at all.\<close>

theorem padded_user_hides_rows:
  assumes "gv_processes g = Some ps" "p \<in> set ps" "display_username r p = trim u" "trim u \<noteq> []"
    and "\<forall>p \<in> set ps. trim (pv_username p) = pv_username p" "trim u \<noteq> u"
    and "nv_gres n = [g]" "g' \<in> set (nv_gres (apply_user_filter (Some u) n))"
  shows "should_render_gres r (Some u) g \<and> \<not> should_render_gres r (Some u) g'"
proof -
  have "pv_username p \<noteq> u" if "p \<in> set ps" for p using assms(5,6) that by metis
  moreover have "u \<noteq> []" using assms(6) by auto
  ultimately have "gv_processes g' = Some []"
    using assms(1,7,8) by (auto simp: apply_user_filter_def filter_empty_conv)
  moreover have "normalized_user_filter (Some u) = Some (trim u)"
    using assms(4) by (simp add: normalized_user_filter_def)
  ultimately show ?thesis using assms(1-3) by (auto simp: should_render_gres_def list_ex_iff)
qed

theorem padded_user_hides_rows_witness:
  "\<exists>g'. g' \<in> set (nv_gres (apply_user_filter (Some '' alice'') demo_node)) \<and> \<not> should_render_gres Map.empty (Some '' alice'') g'"
proof -
  let ?p = "\<lparr>pv_uid = 1000, pv_username = ''alice'', pv_pid = 7, pv_command = Some ''python'', pv_used_memory_mb = 512\<rparr>"
  let ?g = "hd (nv_gres (apply_user_filter (Some '' alice'') demo_node))"
  have alice: "trim ''alice'' = ''alice''" by (rule trim_same) (simp_all add: ws_free_ascii)
  have trimmed: "trim '' alice'' = ''alice''" by code_simp
  have g: "gv_processes demo_gres = Some [?p]" "nv_gres demo_node = [demo_gres]" by (simp_all add: demo_gres_def demo_node_def)
  have member: "?g \<in> set (nv_gres (apply_user_filter (Some '' alice'') demo_node))"
    by (simp add: apply_user_filter_def g)
  have "display_username Map.empty ?p = trim '' alice''" by (simp add: display_username_def alice trimmed)
  from padded_user_hides_rows [OF g(1) _ this _ _ _ g(2) member] member show ?thesis
    by (auto simp: alice trimmed)
qed

end
