(* ===== verification/Cli_Schema.thy ===== *)
theory Cli_Schema
  imports Client_Views
begin

text \<open>
  The messages between the command line client and the backend as JSON values: how the backend
  writes its answers (\<^verbatim>\<open>crates/client-backend/src/adapter.rs\<close>), how the client reads them
  (\<^verbatim>\<open>crates/client-cli/src/backend.rs\<close>), and the request in the other direction. The functions
  are what the attributes of the two declarations of each type ask for: the names and the order of
  the fields, the fields left out when empty, the defaults of missing fields.
\<close>

section \<open>Numbers\<close>

definition json_signed :: "int \<Rightarrow> json" where
  "json_signed i =
     (if 0 \<le> i then JUnsigned (word_of_int i) else JOtherNumber (CHR ''-'' # nat_to_string (nat (- i))))"

fun json_int64 :: "json \<Rightarrow> int option" where
  "json_int64 (JUnsigned n) = (if unat n < 2 ^ 63 then Some (uint n) else None)"
| "json_int64 (JOtherNumber (c # ds)) =
     (if c = CHR ''-'' \<and> ds \<noteq> [] \<and> list_all is_ascii_digit ds \<and> 0 < digits_value ds \<and> digits_value ds \<le> 2 ^ 63
      then Some (- int (digits_value ds)) else None)"
| "json_int64 _ = None"

definition json_uint :: "'a::len word \<Rightarrow> json" where
  "json_uint v = JUnsigned (ucast v)"

definition json_word :: "json \<Rightarrow> 'a::len word option" where
  "json_word v = Option.bind (as_u64 v) (\<lambda>n. if unat n < 2 ^ LENGTH('a) then Some (ucast n) else None)"

section \<open>Fields\<close>

text \<open>An object's fields, or an array's items in the order of the declaration; a field that is given
  twice is an error.\<close>

fun json_fields :: "string list \<Rightarrow> json \<Rightarrow> (string \<times> json) list option" where
  "json_fields names (JObject kvs) =
     (if distinct (filter (\<lambda>k. k \<in> set names) (map fst kvs)) then Some kvs else None)"
| "json_fields names (JArray vs) = (if length vs \<le> length names then Some (zip names vs) else None)"
| "json_fields names _ = None"

definition required_field :: "string \<Rightarrow> (json \<Rightarrow> 'a option) \<Rightarrow> (string \<times> json) list \<Rightarrow> 'a option" where
  "required_field k read kvs = Option.bind (map_of kvs k) read"

definition default_field :: "string \<Rightarrow> 'a \<Rightarrow> (json \<Rightarrow> 'a option) \<Rightarrow> (string \<times> json) list \<Rightarrow> 'a option" where
  "default_field k d read kvs = (case map_of kvs k of None \<Rightarrow> Some d | Some v \<Rightarrow> read v)"

definition read_option :: "(json \<Rightarrow> 'a option) \<Rightarrow> json \<Rightarrow> 'a option option" where
  "read_option read v = (if v = JNull then Some None else map_option Some (read v))"

definition read_list :: "(json \<Rightarrow> 'a option) \<Rightarrow> json \<Rightarrow> 'a list option" where
  "read_list read v = Option.bind (as_array v) (\<lambda>vs. collect_options (map read vs))"

text \<open>A field with \<open>skip_serializing_if\<close>.\<close>

definition skip_none :: "string \<Rightarrow> ('a \<Rightarrow> json) \<Rightarrow> 'a option \<Rightarrow> (string \<times> json) list" where
  "skip_none k f x = (case x of None \<Rightarrow> [] | Some v \<Rightarrow> [(k, f v)])"

section \<open>What the backend writes\<close>

definition process_to_json :: "ProcessView \<Rightarrow> json" where
  "process_to_json p =
     JObject ([(''uid'', json_uint (pv_uid p)), (''username'', JString (pv_username p)), (''pid'', json_uint (pv_pid p))]
       @ skip_none ''command'' JString (pv_command p)
       @ [(''used_memory_mb'', json_uint (pv_used_memory_mb p))])"

definition gres_to_json :: "GresView \<Rightarrow> json" where
  "gres_to_json g =
     JObject ([(''index'', json_uint (gv_index g)), (''name'', JString (gv_name g))]
       @ skip_none ''temperature_c'' json_uint (gv_temperature_c g)
       @ [(''util'', json_uint (gv_util g)), (''mem_used_mb'', json_uint (gv_mem_used_mb g)),
          (''mem_total_mb'', json_uint (gv_mem_total_mb g))]
       @ skip_none ''processes'' (\<lambda>ps. JArray (map process_to_json ps)) (gv_processes g))"

definition node_to_json :: "NodeView \<Rightarrow> json" where
  "node_to_json n =
     JObject ([(''connection_id'', JString (nv_connection_id n)), (''hostname'', JString (nv_hostname n)),
          (''addr'', JString (nv_addr n)), (''timestamp_ms'', json_signed (nv_timestamp_ms n))]
       @ skip_none ''driver_version'' JString (nv_driver_version n)
       @ [(''num'', json_uint (nv_num n)), (''stale'', JBool (nv_stale n))]
       @ skip_none ''error'' JString (nv_error n)
       @ skip_none ''delay_us'' json_uint (nv_delay_us n)
       @ [(''gres'', JArray (map gres_to_json (nv_gres n)))])"

definition meta_to_json :: "QueryMeta \<Rightarrow> json" where
  "meta_to_json m =
     JObject [(''status'', JString (qm_status m)), (''timestamp_ms'', json_signed (qm_timestamp_ms m)),
       (''node_count'', JUnsigned (word_of_nat (qm_node_count m))), (''errors'', JArray (map JString (qm_errors m)))]"

definition response_to_json :: "ApiQueryResponse \<Rightarrow> json" where
  "response_to_json r =
     JObject [(''meta'', meta_to_json (ar_meta r)), (''nodes'', JArray (map node_to_json (ar_nodes r)))]"

section \<open>What the client writes\<close>

text \<open>Its declarations leave out fewer fields than the backend's: an empty field is \<open>null\<close>.\<close>

definition null_or :: "('a \<Rightarrow> json) \<Rightarrow> 'a option \<Rightarrow> json" where
  "null_or f x = (case x of None \<Rightarrow> JNull | Some v \<Rightarrow> f v)"

definition process_to_json_cli :: "ProcessView \<Rightarrow> json" where
  "process_to_json_cli p =
     JObject [(''uid'', json_uint (pv_uid p)), (''username'', JString (pv_username p)), (''pid'', json_uint (pv_pid p)),
       (''command'', null_or JString (pv_command p)), (''used_memory_mb'', json_uint (pv_used_memory_mb p))]"

definition gres_to_json_cli :: "GresView \<Rightarrow> json" where
  "gres_to_json_cli g =
     JObject [(''index'', json_uint (gv_index g)), (''name'', JString (gv_name g)),
       (''temperature_c'', null_or json_uint (gv_temperature_c g)), (''util'', json_uint (gv_util g)),
       (''mem_used_mb'', json_uint (gv_mem_used_mb g)), (''mem_total_mb'', json_uint (gv_mem_total_mb g)),
       (''processes'', null_or (\<lambda>ps. JArray (map process_to_json_cli ps)) (gv_processes g))]"

definition node_to_json_cli :: "NodeView \<Rightarrow> json" where
  "node_to_json_cli n =
     JObject ([(''connection_id'', JString (nv_connection_id n)), (''hostname'', JString (nv_hostname n)),
          (''addr'', JString (nv_addr n)), (''timestamp_ms'', json_signed (nv_timestamp_ms n))]
       @ skip_none ''driver_version'' JString (nv_driver_version n)
       @ [(''num'', json_uint (nv_num n)), (''stale'', JBool (nv_stale n)), (''error'', null_or JString (nv_error n))]
       @ skip_none ''delay_us'' json_uint (nv_delay_us n)
       @ [(''gres'', JArray (map gres_to_json_cli (nv_gres n)))])"

definition response_to_json_cli :: "ApiQueryResponse \<Rightarrow> json" where
  "response_to_json_cli r =
     JObject [(''meta'', meta_to_json (ar_meta r)), (''nodes'', JArray (map node_to_json_cli (ar_nodes r)))]"

section \<open>What the client reads\<close>

definition process_from_json :: "json \<Rightarrow> ProcessView option" where
  "process_from_json v =
     Option.bind (json_fields [''uid'', ''username'', ''pid'', ''command'', ''used_memory_mb''] v) (\<lambda>kvs.
     Option.bind (default_field ''uid'' 0 json_word kvs) (\<lambda>uid.
     Option.bind (default_field ''username'' [] as_str kvs) (\<lambda>username.
     Option.bind (required_field ''pid'' json_word kvs) (\<lambda>pid.
     Option.bind (default_field ''command'' None (read_option as_str) kvs) (\<lambda>command.
     map_option (\<lambda>used. \<lparr>pv_uid = uid, pv_username = username, pv_pid = pid, pv_command = command,
         pv_used_memory_mb = used\<rparr>)
       (default_field ''used_memory_mb'' 0 json_word kvs))))))"

definition gres_from_json :: "json \<Rightarrow> GresView option" where
  "gres_from_json v =
     Option.bind (json_fields [''index'', ''name'', ''temperature_c'', ''util'', ''mem_used_mb'', ''mem_total_mb'', ''processes''] v) (\<lambda>kvs.
     Option.bind (required_field ''index'' json_word kvs) (\<lambda>index.
     Option.bind (default_field ''name'' [] as_str kvs) (\<lambda>name.
     Option.bind (default_field ''temperature_c'' None (read_option json_word) kvs) (\<lambda>temperature.
     Option.bind (required_field ''util'' json_word kvs) (\<lambda>util.
     Option.bind (required_field ''mem_used_mb'' json_word kvs) (\<lambda>used.
     Option.bind (required_field ''mem_total_mb'' json_word kvs) (\<lambda>tot.
     map_option (\<lambda>ps. \<lparr>gv_index = index, gv_name = name, gv_temperature_c = temperature, gv_util = util,
         gv_mem_used_mb = used, gv_mem_total_mb = tot, gv_processes = ps\<rparr>)
       (default_field ''processes'' None (read_option (read_list process_from_json)) kvs))))))))"

definition node_from_json :: "json \<Rightarrow> NodeView option" where
  "node_from_json v =
     Option.bind (json_fields [''connection_id'', ''hostname'', ''addr'', ''timestamp_ms'', ''driver_version'', ''num'',
         ''stale'', ''error'', ''delay_us'', ''gres''] v) (\<lambda>kvs.
     Option.bind (default_field ''connection_id'' [] as_str kvs) (\<lambda>connection_id.
     Option.bind (required_field ''hostname'' as_str kvs) (\<lambda>hostname.
     Option.bind (default_field ''addr'' [] as_str kvs) (\<lambda>addr.
     Option.bind (default_field ''timestamp_ms'' 0 json_int64 kvs) (\<lambda>ts.
     Option.bind (default_field ''driver_version'' None (read_option as_str) kvs) (\<lambda>driver.
     Option.bind (default_field ''num'' 0 json_word kvs) (\<lambda>num.
     Option.bind (default_field ''stale'' False as_bool kvs) (\<lambda>stale.
     Option.bind (default_field ''error'' None (read_option as_str) kvs) (\<lambda>error.
     Option.bind (default_field ''delay_us'' None (read_option json_word) kvs) (\<lambda>delay.
     map_option (\<lambda>gres. \<lparr>nv_connection_id = connection_id, nv_hostname = hostname, nv_addr = addr,
         nv_timestamp_ms = ts, nv_driver_version = driver, nv_num = num, nv_stale = stale, nv_error = error,
         nv_delay_us = delay, nv_gres = gres\<rparr>)
       (required_field ''gres'' (read_list gres_from_json) kvs)))))))))))"

definition meta_from_json :: "json \<Rightarrow> QueryMeta option" where
  "meta_from_json v =
     Option.bind (json_fields [''status'', ''timestamp_ms'', ''node_count'', ''errors''] v) (\<lambda>kvs.
     Option.bind (required_field ''status'' as_str kvs) (\<lambda>status.
     Option.bind (required_field ''timestamp_ms'' json_int64 kvs) (\<lambda>ts.
     Option.bind (required_field ''node_count'' as_u64 kvs) (\<lambda>n.
     map_option (\<lambda>errors. \<lparr>qm_status = status, qm_timestamp_ms = ts, qm_node_count = unat n, qm_errors = errors\<rparr>)
       (default_field ''errors'' [] (read_list as_str) kvs)))))"

definition response_from_json :: "json \<Rightarrow> ApiQueryResponse option" where
  "response_from_json v =
     Option.bind (json_fields [''meta'', ''nodes''] v) (\<lambda>kvs.
     Option.bind (default_field ''meta'' query_meta_default meta_from_json kvs) (\<lambda>meta.
     map_option (\<lambda>nodes. \<lparr>ar_meta = meta, ar_nodes = nodes\<rparr>)
       (required_field ''nodes'' (read_list node_from_json) kvs)))"

section \<open>The request\<close>

fun json_option :: "string option \<Rightarrow> json" where
  "json_option None = JNull"
| "json_option (Some s) = JString s"

definition request_to_json :: "string option \<Rightarrow> string option \<Rightarrow> json" where
  "request_to_json node_filter user_filter =
     JObject [(''filter'', json_option node_filter), (''user'', json_option user_filter)]"

text \<open>A missing field of an object is none; an array must have both items.\<close>

definition request_from_json :: "json \<Rightarrow> ApiQueryRequest option" where
  "request_from_json v =
     Option.bind (json_fields [''filter'', ''user''] v) (\<lambda>kvs.
     if as_array v \<noteq> None \<and> length kvs < 2 then None
     else Option.bind (default_field ''filter'' None (read_option as_str) kvs) (\<lambda>f.
       map_option (\<lambda>u. \<lparr>aq_filter = f, aq_user = u\<rparr>) (default_field ''user'' None (read_option as_str) kvs)))"

section \<open>Round trips\<close>

named_theorems json_simps \<open>reading what was written\<close>

lemma json_word_uint [json_simps]: "LENGTH('a) \<le> 64 \<Longrightarrow> json_word (json_uint (v :: 'a::len word)) = Some v"
proof -
  assume le: "LENGTH('a) \<le> 64"
  have "unat v < 2 ^ LENGTH('a)" by simp
  moreover from this le have "unat v < 2 ^ 64"
    by (meson less_le_trans one_le_numeral power_increasing)
  then have "unat (ucast v :: u64) = unat v" by (simp add: unsigned_ucast_eq take_bit_nat_eq_self)
  moreover from le have "ucast (ucast v :: u64) = v"
    by (auto intro!: bit_word_eqI simp: bit_simps dest: bit_imp_le_length)
  ultimately show ?thesis by (simp add: json_word_def json_uint_def)
qed

lemma json_int64_signed [json_simps]: "- (2 ^ 63) \<le> i \<Longrightarrow> i < 2 ^ 63 \<Longrightarrow> json_int64 (json_signed i) = Some i"
proof (cases "0 \<le> i")
  case True
  moreover assume "i < 2 ^ 63"
  ultimately have "uint (word_of_int i :: u64) = i" by (simp add: uint_word_of_int)
  with True \<open>i < 2 ^ 63\<close> show ?thesis by (simp add: json_signed_def unat_eq_nat_uint nat_less_iff)
next
  case False
  moreover assume "- (2 ^ 63) \<le> i"
  ultimately show ?thesis using nat_to_string_digits [of "nat (- i)"] by (simp add: json_signed_def nat_le_iff)
qed

lemma collect_read [json_simps]: "(\<And>x. x \<in> set xs \<Longrightarrow> read (f x) = Some x) \<Longrightarrow> collect_options (map read (map f xs)) = Some xs"
  by (induction xs) simp_all

lemma read_list_map [json_simps]: "(\<And>x. x \<in> set xs \<Longrightarrow> read (f x) = Some x) \<Longrightarrow> read_list read (JArray (map f xs)) = Some xs"
  using collect_read [of xs read f] by (simp add: read_list_def comp_def)

lemma not_null [json_simps]: "json_uint v \<noteq> JNull"
  by (simp add: json_uint_def)

lemmas json_fields_simps = default_field_def required_field_def read_option_def skip_none_def null_or_def

lemma process_roundtrip [json_simps]:
  "process_from_json (process_to_json p) = Some p" "process_from_json (process_to_json_cli p) = Some p"
  by (cases "pv_command p";
      simp add: process_from_json_def process_to_json_def process_to_json_cli_def json_fields_simps json_simps)+

lemma gres_roundtrip [json_simps]:
  "gres_from_json (gres_to_json g) = Some g" "gres_from_json (gres_to_json_cli g) = Some g"
  by (cases "gv_temperature_c g"; cases "gv_processes g";
      simp add: gres_from_json_def gres_to_json_def gres_to_json_cli_def json_fields_simps json_simps)+

definition node_times_ok :: "NodeView \<Rightarrow> bool" where
  "node_times_ok n \<longleftrightarrow> - (2 ^ 63) \<le> nv_timestamp_ms n \<and> nv_timestamp_ms n < 2 ^ 63"

lemma node_roundtrip [json_simps]:
  assumes "node_times_ok n"
  shows "node_from_json (node_to_json n) = Some n" "node_from_json (node_to_json_cli n) = Some n"
  using assms
  by (cases "nv_driver_version n"; cases "nv_error n"; cases "nv_delay_us n";
      simp add: node_from_json_def node_to_json_def node_to_json_cli_def json_fields_simps json_simps node_times_ok_def)+

definition meta_ok :: "QueryMeta \<Rightarrow> bool" where
  "meta_ok m \<longleftrightarrow> - (2 ^ 63) \<le> qm_timestamp_ms m \<and> qm_timestamp_ms m < 2 ^ 63 \<and> qm_node_count m < 2 ^ 64"

lemma strings_roundtrip [json_simps]: "read_list as_str (JArray (map JString ss)) = Some ss"
  by (rule read_list_map) simp

lemma meta_roundtrip [json_simps]: "meta_ok m \<Longrightarrow> meta_from_json (meta_to_json m) = Some m"
  by (simp add: meta_from_json_def meta_to_json_def json_fields_simps json_simps meta_ok_def unat_of_nat)

lemma request_roundtrip: "request_from_json (request_to_json f u) = Some \<lparr>aq_filter = f, aq_user = u\<rparr>"
  by (cases f; cases u) (simp_all add: request_from_json_def request_to_json_def json_fields_simps)

text \<open>C26: the client reads every answer that the backend writes as what it is, each field, also the ones
  that were left out, for time stamps of 64 bits; and what the client itself prints as JSON reads
  back as the same answer.\<close>

theorem response_roundtrip:
  assumes "meta_ok (ar_meta r)" "\<forall>n \<in> set (ar_nodes r). node_times_ok n"
  shows "response_from_json (response_to_json r) = Some r \<and> response_from_json (response_to_json_cli r) = Some r"
  using assms read_list_map [of "ar_nodes r" node_from_json node_to_json]
    read_list_map [of "ar_nodes r" node_from_json node_to_json_cli]
  by (simp add: response_from_json_def response_to_json_def response_to_json_cli_def json_fields_simps json_simps)

definition demo_answer :: ApiQueryResponse where
  "demo_answer =
     \<lparr>ar_meta = \<lparr>qm_status = ''ok'', qm_timestamp_ms = -7, qm_node_count = 1, qm_errors = []\<rparr>,
      ar_nodes = [\<lparr>nv_connection_id = ''conn-001'', nv_hostname = ''node-a'', nv_addr = [], nv_timestamp_ms = 12,
        nv_driver_version = None, nv_num = 1, nv_stale = True, nv_error = Some ''transport timeout'',
        nv_delay_us = Some 280, nv_gres = [legacy_gres_view 3 42 1 2]\<rparr>]\<rparr>"

lemma demo_answer_ok: "meta_ok (ar_meta demo_answer)" "\<forall>n \<in> set (ar_nodes demo_answer). node_times_ok n"
  by (simp_all add: demo_answer_def meta_ok_def node_times_ok_def)

theorem response_roundtrip_witness:
  "response_from_json (response_to_json demo_answer) = Some demo_answer"
  using response_roundtrip [OF demo_answer_ok] by blast

end
