(* ===== verification/Local_Api.thy ===== *)
theory Local_Api
  imports Client_Pool
begin

text \<open>
  The commands of the client's local API, the second half of
  \<^verbatim>\<open>crates/client-backend/src/local_api.rs\<close>: \<open>LIST\<close>, \<open>QUERY\<close> with its discovery and its
  refresh of stale entries, and the debugging commands.
\<close>

section \<open>Numbers\<close>

text \<open>\<open>i64::saturating_sub\<close>, and the casts of unsigned numbers to \<open>i64\<close>, which wrap.\<close>

definition i64_saturating_sub :: "int \<Rightarrow> int \<Rightarrow> int" where
  "i64_saturating_sub a b = max (- (2 ^ 63)) (min (2 ^ 63 - 1) (a - b))"

definition as_i64 :: "nat \<Rightarrow> int" where
  "as_i64 n = sint (word_of_nat n :: 64 word)"

section \<open>Refreshing\<close>

record RefreshTarget =
  rt_connection_id :: string
  rt_hostname :: string
  rt_addr :: SocketAddr
  rt_had_snapshot :: bool

definition is_stale :: "int \<Rightarrow> u64 \<Rightarrow> ConnectionCacheEntry \<Rightarrow> bool" where
  "is_stale now ttl_ms e \<longleftrightarrow>
     cn_last_snapshot e = None \<or> i64_saturating_sub now (cn_record_timestamp e) > as_i64 (unat ttl_ms)"

definition refresh_target :: "ConnectionCacheEntry \<Rightarrow> RefreshTarget" where
  "refresh_target e =
     \<lparr>rt_connection_id = cn_connection_id e, rt_hostname = cn_hostname e, rt_addr = cn_addr e,
      rt_had_snapshot = (cn_last_snapshot e \<noteq> None)\<rparr>"

definition stale_targets :: "int \<Rightarrow> u64 \<Rightarrow> CacheMap \<Rightarrow> RefreshTarget list" where
  "stale_targets now ttl_ms rows = map refresh_target (filter (is_stale now ttl_ms) (map snd rows))"

text \<open>The connection of a target: the one in the pool, or the one that a new attempt puts there.\<close>

definition target_connection ::
    "('c, 'w) backend_env \<Rightarrow> RefreshTarget \<Rightarrow> 'c LocalApiState \<times> 'w \<Rightarrow> 'c option \<times> 'c LocalApiState \<times> 'w" where
  "target_connection env t = (\<lambda>(st, w).
     case map_of (la_connections st) (rt_addr t) of
       Some c \<Rightarrow> (Some c, st, w)
     | None \<Rightarrow>
         let node = \<lparr>dn_hostname = rt_hostname t, dn_addr = rt_addr t, dn_ts_ms = be_now_ms env w\<rparr>;
             (st, w) = establish_connections env [node] (st, w)
         in (map_of (la_connections st) (rt_addr t), st, w))"

definition target_unavailable ::
    "('c, 'w) backend_env \<Rightarrow> RefreshTarget \<Rightarrow> 'c LocalApiState \<times> 'w \<Rightarrow> 'c LocalApiState \<times> 'w" where
  "target_unavailable env t = (\<lambda>(st, w).
     let error = ''no '' @ protocol st @ '' connection for '' @ addr_to_string (rt_addr t) in
     (st\<lparr>la_cache :=
        if rt_had_snapshot t
        then mark_stale (be_now_ms env w) (la_cache st) (rt_connection_id t) (rt_addr t) (rt_hostname t) error
        else AList.delete (cache_key (rt_addr t)) (la_cache st)\<rparr>, w))"

definition query_target ::
    "('c, 'w) backend_env \<Rightarrow> RefreshTarget \<Rightarrow> 'c \<Rightarrow> 'c LocalApiState \<times> 'w \<Rightarrow> 'c LocalApiState \<times> 'w" where
  "query_target env t c = (\<lambda>(st, w).
     case be_query env c w of
       (Ok snapshot, w') \<Rightarrow>
         (st\<lparr>la_cache := upsert_snapshot (be_now_ms env w') (la_cache st) (rt_connection_id t) (rt_addr t) snapshot
            (Some (word_of_nat (min (be_elapsed_us env w w') (2 ^ 64 - 1))))\<rparr>, w')
     | (Err _, w') \<Rightarrow>
         (st\<lparr>la_connections := AList.delete (rt_addr t) (la_connections st),
             la_cache := AList.delete (cache_key (rt_addr t)) (la_cache st)\<rparr>, be_close env c w'))"

definition refresh_one ::
    "('c, 'w) backend_env \<Rightarrow> RefreshTarget \<Rightarrow> 'c LocalApiState \<times> 'w \<Rightarrow> 'c LocalApiState \<times> 'w" where
  "refresh_one env t s =
     (case target_connection env t s of
        (None, s) \<Rightarrow> target_unavailable env t s
      | (Some c, s) \<Rightarrow> query_target env t c s)"

definition refresh_stale_cache_for_query ::
    "('c, 'w) backend_env \<Rightarrow> 'c LocalApiState \<times> 'w \<Rightarrow> 'c LocalApiState \<times> 'w" where
  "refresh_stale_cache_for_query env = (\<lambda>(st, w).
     foldl (\<lambda>s t. refresh_one env t s) (st, w) (stale_targets (be_now_ms env w) (la_cache_ttl_ms st) (la_cache st)))"

section \<open>Discovery for a query\<close>

text \<open>The reconciliation of the pool with the discovered nodes. \<open>discover_nodes\<close> runs with the addresses
  of the state, which the world holds.\<close>

definition run_discovery_reconcile ::
    "('c, 'w) backend_env \<Rightarrow> 'c LocalApiState \<times> 'w \<Rightarrow> 'c LocalApiState \<times> 'w" where
  "run_discovery_reconcile env = (\<lambda>(st, w).
     let (multicast, w) = be_discover env (protocol st) w;
         discovered = merge_discovered_nodes
           (case multicast of Ok nodes \<Rightarrow> nodes | Err _ \<Rightarrow> [])
           (case be_static_nodes env w of Ok nodes \<Rightarrow> nodes | Err _ \<Rightarrow> [])
     in (if discovered = [] then (st, w)
         else establish_connections env discovered (add_discovered_nodes discovered st, w)))"

definition should_skip_query_discovery_reconcile ::
    "int \<Rightarrow> 'c LocalApiState \<Rightarrow> bool \<times> 'c LocalApiState" where
  "should_skip_query_discovery_reconcile now st =
     (let cache_len = length (la_cache st) in
      if cache_len = 0 then (False, st\<lparr>la_last_discovery_reconcile_ms := now\<rparr>)
      else if la_max_connections st \<le> cache_len then (True, st)
      else if i64_saturating_sub now (la_last_discovery_reconcile_ms st)
          < as_i64 (max (unat (la_discover_wait_secs st) * 1000) 1) then (True, st)
      else (False, st\<lparr>la_last_discovery_reconcile_ms := now\<rparr>))"

text \<open>With entries and connections at hand the reconciliation runs in a thread of its own; the flag of
  the result says that such a thread was started.\<close>

definition reconcile_discovery_for_query ::
    "('c, 'w) backend_env \<Rightarrow> 'c LocalApiState \<times> 'w \<Rightarrow> bool \<times> 'c LocalApiState \<times> 'w" where
  "reconcile_discovery_for_query env = (\<lambda>(st, w).
     case should_skip_query_discovery_reconcile (be_now_ms env w) st of
       (True, st) \<Rightarrow> (False, st, w)
     | (False, st) \<Rightarrow>
         if la_cache st \<noteq> [] \<and> la_connections st \<noteq> [] then (True, st, w)
         else (False, run_discovery_reconcile env (st, w)))"

section \<open>Commands\<close>

definition int_to_string :: "int \<Rightarrow> string" where
  "int_to_string i = (if i < 0 then CHR ''-'' # nat_to_string (nat (- i)) else nat_to_string (nat i))"

definition newline :: string where
  "newline = [char_of (10 :: nat)]"

definition list_line :: "ConnectionCacheEntry \<Rightarrow> string" where
  "list_line n = cn_connection_id n @ '' '' @ cn_hostname n @ '' '' @ addr_to_string (cn_addr n) @ '' ''
     @ int_to_string (cn_record_timestamp n) @ newline"

definition list_response :: "CacheMap \<Rightarrow> string" where
  "list_response rows = concat (map list_line (sort_key cn_connection_id (map snd rows)))"

text \<open>What the commands take from JSON and from the views: the parser and the encoder of the messages,
  and the environment of the views at the moment of the answer.\<close>

record 'w api_codec =
  ac_request :: "string \<Rightarrow> string + ApiQueryRequest"
  ac_response :: "ApiQueryResponse \<Rightarrow> string + string"
  ac_views :: "'w \<Rightarrow> view_env"

definition answer_query ::
    "'w api_codec \<Rightarrow> name_cache \<Rightarrow> ApiQueryRequest \<Rightarrow> 'c LocalApiState \<times> 'w \<Rightarrow> name_cache \<times> (string + string)" where
  "answer_query ac names req = (\<lambda>(st, w).
     let (names, resp) = build_query_response (ac_views ac w) names (la_cache st) (aq_filter req) (aq_user req)
     in (names, map_ok (\<lambda>json. json @ newline)
          (map_err (\<lambda>e. ''encode response failed: '' @ e) (ac_response ac resp))))"

definition handle_query_command ::
    "('c, 'w) backend_env \<Rightarrow> 'w api_codec \<Rightarrow> string \<Rightarrow> name_cache \<times> 'c LocalApiState \<times> 'w
      \<Rightarrow> (string + string) \<times> bool \<times> name_cache \<times> 'c LocalApiState \<times> 'w" where
  "handle_query_command env ac payload = (\<lambda>(names, s).
     case parse_query_request (ac_request ac) (trim payload) of
       Err e \<Rightarrow> (Err e, False, names, s)
     | Ok req \<Rightarrow>
         let (background, s) = reconcile_discovery_for_query env s;
             s = refresh_stale_cache_for_query env s;
             (names, r) = answer_query ac names req s
         in (r, background, names, s))"

text \<open>The commands behind the feature \<open>debug\<close> are part of the model when the flag is set.\<close>

definition handle_command ::
    "bool \<Rightarrow> ('c, 'w) backend_env \<Rightarrow> 'w api_codec \<Rightarrow> string \<Rightarrow> name_cache \<times> 'c LocalApiState \<times> 'w
      \<Rightarrow> (string + string) \<times> bool \<times> name_cache \<times> 'c LocalApiState \<times> 'w" where
  "handle_command debug env ac cmd = (\<lambda>(names, st, w).
     if cmd = ''LIST'' then (Ok (list_response (la_cache st)), False, names, st, w)
     else case strip_prefix cmd ''QUERY'' of
       Some payload \<Rightarrow> handle_query_command env ac payload (names, st, w)
     | None \<Rightarrow>
         (case if debug then strip_prefix cmd ''SHUTDOWN'' else None of
            Some reason \<Rightarrow>
              let reason = (if trim reason = [] then ''client backend shutdown'' else trim reason)
              in (Ok (''OK shutdown'' @ newline), False, names, st, shutdown env reason st w)
          | None \<Rightarrow>
              (case if debug then strip_prefix cmd ''DISCONNECT_HOST'' else None of
                 Some hostname \<Rightarrow>
                   (if trim hostname = [] then (Ok (''ERR missing hostname'' @ newline), False, names, st, w)
                    else
                      let (gone, st, w) = disconnect_hostname env (trim hostname) ''e2e host disconnect'' (st, w)
                      in (Ok (''OK disconnect_host hostname='' @ trim hostname @ '' count='' @ nat_to_string gone
                            @ newline), False, names, st, w))
               | None \<Rightarrow> (Ok (''ERR unsupported command: '' @ cmd @ newline), False, names, st, w))))"

text \<open>A client's session: one command per line, until the input ends, a command fails, or an answer
  cannot be written. The lines are what \<open>read_line\<close> gives, the result the answers that were
  written and the error that ended the session, if any.\<close>

fun handle_client ::
    "bool \<Rightarrow> ('c, 'w) backend_env \<Rightarrow> 'w api_codec \<Rightarrow> (string \<Rightarrow> string option) \<Rightarrow> (string + string) list
      \<Rightarrow> name_cache \<times> 'c LocalApiState \<times> 'w \<Rightarrow> string list \<times> (string + unit) \<times> name_cache \<times> 'c LocalApiState \<times> 'w" where
  "handle_client debug env ac write [] s = ([], Ok (), s)"
| "handle_client debug env ac write (Err e # ls) s = ([], Err (''read request failed: '' @ e), s)"
| "handle_client debug env ac write (Ok l # ls) s =
     (case handle_command debug env ac (trim l) s of
        (Err e, _, s) \<Rightarrow> ([], Err e, s)
      | (Ok response, _, s) \<Rightarrow>
          (case write response of
             Some e \<Rightarrow> ([], Err (''write response failed: '' @ e), s)
           | None \<Rightarrow> (case handle_client debug env ac write ls s of (out, r) \<Rightarrow> (response # out, r))))"

section \<open>The socket path\<close>

definition DEFAULT_BACKEND_SOCKET :: string where
  "DEFAULT_BACKEND_SOCKET = ''/run/clustat/client.sock''"

definition uds_path_from_config_or_env :: "string option \<Rightarrow> string option \<Rightarrow> string" where
  "uds_path_from_config_or_env env_path configured =
     (let given = (\<lambda>p. case p of Some s \<Rightarrow> (if trim s = [] then None else Some (trim s)) | None \<Rightarrow> None) in
      case given env_path of
        Some p \<Rightarrow> p
      | None \<Rightarrow> (case given configured of Some p \<Rightarrow> p | None \<Rightarrow> DEFAULT_BACKEND_SOCKET))"

section \<open>The interface of connections\<close>

text \<open>What the commands rely on: a connect function returns a connection to the address it was given.\<close>

text \<open>An entry that a query to its own node has just filled.\<close>

definition just_queried :: "('c, 'w) backend_env \<Rightarrow> ConnectionCacheEntry \<Rightarrow> bool" where
  "just_queried env e \<longleftrightarrow> (\<exists>c w w' s. be_addr env c = cn_addr e \<and> be_query env c w = (Ok s, w')
     \<and> cn_last_snapshot e = Some s \<and> cn_record_timestamp e = be_now_ms env w')"

locale server_connections =
  fixes env :: "('c, 'w) backend_env"
  assumes connect_udp_addr: "be_connect_udp env a w = (Ok c, w') \<Longrightarrow> be_addr env c = a"
    and connect_tcp_addr: "be_connect_tcp env a w = (Ok c, w') \<Longrightarrow> be_addr env c = a"
begin

lemma connect_addr: "connect_with_retry env st a w = (Ok c, w') \<Longrightarrow> be_addr env c = a"
  by (auto simp: connect_with_retry_def connect_udp_addr connect_tcp_addr split: if_splits)

lemma establish_one:
  assumes wf: "pool_wf env st" and step: "establish_one_connection env index addr (st, w) = (st', w')"
  shows "pool_wf env st'" and "outside (cache_key addr) (la_cache st) (la_cache st')"
proof -
  have "pool_wf env st' \<and> outside (cache_key addr) (la_cache st) (la_cache st')"
  proof (cases "may_connect addr st")
    case True
    show ?thesis
    proof (cases "claim addr st")
      case None
      with step True wf show ?thesis by (simp add: establish_one_connection_def)
    next
      case (Some st1)
      then have wf1: "pool_wf env st1" and rows1: "la_cache st1 = la_cache st"
        using claim_wf [OF wf] by (auto simp: claim_def split: if_splits)
      obtain r w1 where r: "connect_with_retry env st1 addr w = (r, w1)" by fastforce
      show ?thesis
      proof (cases r)
        case (Inl e)
        with step True Some r wf1 rows1 show ?thesis
          by (auto simp: establish_one_connection_def Let_def release_def pool_wf_def)
      next
        case (Inr c)
        from r Inr have c: "be_addr env c = addr" using connect_addr by simp
        obtain b st2 w2 where k: "commit env addr c (release addr st1, w1) = (b, st2, w2)"
          by (metis prod_cases3)
        have wf2: "pool_wf env st2"
          using commit_wf [OF _ c k] wf1 by simp
        have rows2: "outside (cache_key addr) (la_cache st) (la_cache st2)"
          using k rows1 by (auto simp: commit_def drop_same_host_def release_def Let_def
              split: if_splits option.splits)
        show ?thesis
        proof (cases b)
          case True
          have "st' = upsert_connection_placeholder env index c w2 st2"
            using step \<open>may_connect addr st\<close> Some r Inr k True
            by (auto simp: establish_one_connection_def Let_def)
          moreover from c have "outside (cache_key addr) (la_cache st2) (la_cache (upsert_connection_placeholder env index c w2 st2))"
            by (simp add: upsert_connection_placeholder_def Let_def)
          ultimately show ?thesis using placeholder_wf [OF wf2] outside_trans [OF rows2] by simp
        next
          case False
          with step \<open>may_connect addr st\<close> Some r Inr k wf2 rows2 show ?thesis
            by (simp add: establish_one_connection_def Let_def)
        qed
      qed
    qed
  qed (use wf step in \<open>simp add: establish_one_connection_def\<close>)
  then show "pool_wf env st'" "outside (cache_key addr) (la_cache st) (la_cache st')" by simp_all
qed

lemma establish_connections_wf:
  "pool_wf env (fst s) \<Longrightarrow> pool_wf env (fst (establish_connections env nodes s))"
proof -
  have "pool_wf env (fst s) \<Longrightarrow>
      pool_wf env (fst (foldl (\<lambda>s (idx, node). establish_one_connection env (b + idx + 1) (dn_addr node) s) s ns))"
    for s ns b
  proof (induction ns arbitrary: s)
    case (Cons n ns)
    obtain idx node where n: "n = (idx, node)" by (cases n)
    have "pool_wf env (fst (establish_one_connection env (b + idx + 1) (dn_addr node) s))"
      using establish_one(1) [OF Cons.prems] by (metis prod.collapse)
    with Cons.IH n show ?case by simp
  qed simp
  then show "pool_wf env (fst s) \<Longrightarrow> ?thesis"
    by (simp add: establish_connections_def case_prod_beta [of _ s] Let_def)
qed

lemma run_discovery_reconcile_wf:
  "pool_wf env (fst s) \<Longrightarrow> pool_wf env (fst (run_discovery_reconcile env s))"
  by (auto simp: run_discovery_reconcile_def case_prod_beta Let_def establish_connections_wf add_discovered_nodes_wf)

lemma reconcile_wf:
  assumes "pool_wf env (fst s)"
  shows "pool_wf env (fst (snd (reconcile_discovery_for_query env s)))"
proof -
  have "pool_wf env (snd (should_skip_query_discovery_reconcile now (fst s)))" for now
    using assms by (auto simp: should_skip_query_discovery_reconcile_def Let_def pool_wf_def)
  then show ?thesis
    using run_discovery_reconcile_wf
    by (auto simp: reconcile_discovery_for_query_def case_prod_beta Let_def split: bool.split prod.split)
qed

lemma target_connection_spec:
  assumes wf: "pool_wf env st" and step: "target_connection env t (st, w) = (r, st', w')"
  shows "pool_wf env st'" and "outside (cache_key (rt_addr t)) (la_cache st) (la_cache st')"
    and "r = map_of (la_connections st') (rt_addr t)"
proof -
  let ?st = "fst (establish_connections env [\<lparr>dn_hostname = rt_hostname t, dn_addr = rt_addr t, dn_ts_ms = be_now_ms env w\<rparr>] (st, w))"
  have one: "establish_connections env [\<lparr>dn_hostname = h, dn_addr = a, dn_ts_ms = n\<rparr>] (st, w) =
      establish_one_connection env (length (la_cache st) + 1) a (st, w)" for h a n
    by (simp add: establish_connections_def enumerate_eq_zip)
  have "pool_wf env st' \<and> outside (cache_key (rt_addr t)) (la_cache st) (la_cache st')
      \<and> r = map_of (la_connections st') (rt_addr t)"
  proof (cases "map_of (la_connections st) (rt_addr t)")
    case None
    with step have "establish_one_connection env (length (la_cache st) + 1) (rt_addr t) (st, w) = (st', w')"
      and "r = map_of (la_connections st') (rt_addr t)"
      by (auto simp: target_connection_def Let_def one split: prod.splits)
    with establish_one [OF wf] show ?thesis by blast
  qed (use wf step in \<open>auto simp: target_connection_def\<close>)
  then show "pool_wf env st'" "outside (cache_key (rt_addr t)) (la_cache st) (la_cache st')"
    "r = map_of (la_connections st') (rt_addr t)" by simp_all
qed

lemma target_unavailable_spec:
  assumes "pool_wf env st" "target_unavailable env t (st, w) = (st', w')"
  shows "pool_wf env st'" and "outside (cache_key (rt_addr t)) (la_cache st) (la_cache st')"
    and "map_of (la_cache st') (cache_key (rt_addr t)) = Some e \<Longrightarrow> cn_last_error e \<noteq> None"
proof -
  show "pool_wf env st'"
    using assms by (auto simp: target_unavailable_def Let_def pool_wf_def rows_wf_delete mark_stale_wf)
  show "outside (cache_key (rt_addr t)) (la_cache st) (la_cache st')"
    using assms(2) by (auto simp: target_unavailable_def Let_def mark_stale_def)
  assume "map_of (la_cache st') (cache_key (rt_addr t)) = Some e"
  with assms(2) show "cn_last_error e \<noteq> None"
    by (auto simp: target_unavailable_def Let_def mark_stale_def update_conv' delete_conv' split: if_splits)
qed

lemma query_target_spec:
  assumes "pool_wf env st" "query_target env t c (st, w) = (st', w')"
  shows "pool_wf env st'" and "outside (cache_key (rt_addr t)) (la_cache st) (la_cache st')"
    and "be_addr env c = rt_addr t \<Longrightarrow> map_of (la_cache st') (cache_key (rt_addr t)) = Some e \<Longrightarrow> just_queried env e"
proof -
  have len: "length (AList.delete (rt_addr t) (la_connections st)) \<le> la_max_connections st"
    using assms(1) length_delete_le [of "rt_addr t" "la_connections st"] by (auto simp: pool_wf_def)
  with assms show "pool_wf env st'"
    by (auto simp: query_target_def pool_wf_def rows_wf_delete upsert_snapshot_wf keyed_delete
        split: prod.splits sum.splits)
  show "outside (cache_key (rt_addr t)) (la_cache st) (la_cache st')"
    using assms(2) by (auto simp: query_target_def upsert_snapshot_def split: prod.splits sum.splits)
  assume "be_addr env c = rt_addr t" "map_of (la_cache st') (cache_key (rt_addr t)) = Some e"
  with assms(2) show "just_queried env e"
    by (auto simp: query_target_def just_queried_def upsert_snapshot_def update_conv' delete_conv'
        entry_from_snapshot_def split: prod.splits sum.splits) blast
qed

lemma refresh_one_spec:
  assumes wf: "pool_wf env st" and step: "refresh_one env t (st, w) = (st', w')"
  shows "pool_wf env st'" and "outside (cache_key (rt_addr t)) (la_cache st) (la_cache st')"
    and "map_of (la_cache st') (cache_key (rt_addr t)) = Some e \<Longrightarrow> cn_last_error e \<noteq> None \<or> just_queried env e"
proof -
  obtain r st1 w1 where conn: "target_connection env t (st, w) = (r, st1, w1)" by (metis prod_cases3)
  note c = target_connection_spec [OF wf conn]
  have "pool_wf env st' \<and> outside (cache_key (rt_addr t)) (la_cache st1) (la_cache st')
    \<and> (map_of (la_cache st') (cache_key (rt_addr t)) = Some e \<longrightarrow> cn_last_error e \<noteq> None \<or> just_queried env e)"
  proof (cases r)
    case None
    with step conn have "target_unavailable env t (st1, w1) = (st', w')" by (simp add: refresh_one_def)
    from target_unavailable_spec [OF c(1) this] show ?thesis by blast
  next
    case (Some h)
    with step conn have q: "query_target env t h (st1, w1) = (st', w')" by (simp add: refresh_one_def)
    have "be_addr env h = rt_addr t"
      using c(1,3) Some keyed_lookup by (metis pool_wf_def)
    with query_target_spec [OF c(1) q] show ?thesis by blast
  qed
  with outside_trans [OF c(2)] show "pool_wf env st'" "outside (cache_key (rt_addr t)) (la_cache st) (la_cache st')"
    "map_of (la_cache st') (cache_key (rt_addr t)) = Some e \<Longrightarrow> cn_last_error e \<noteq> None \<or> just_queried env e"
    by blast+
qed

lemma refresh_all:
  "pool_wf env (fst s) \<Longrightarrow>
   (\<forall>k e. map_of (la_cache (fst s)) k = Some e \<longrightarrow> good e \<or> k \<in> (\<lambda>t. cache_key (rt_addr t)) ` set ts) \<Longrightarrow>
   (\<forall>e. cn_last_error e \<noteq> None \<or> just_queried env e \<longrightarrow> good e) \<Longrightarrow>
   s' = foldl (\<lambda>s t. refresh_one env t s) s ts \<Longrightarrow>
   pool_wf env (fst s') \<and> (\<forall>k e. map_of (la_cache (fst s')) k = Some e \<longrightarrow> good e)"
proof (induction ts arbitrary: s)
  case (Cons t ts)
  obtain st w st1 w1 where s: "s = (st, w)" and step: "refresh_one env t (st, w) = (st1, w1)"
    by (metis surj_pair)
  from Cons.prems(1) s have wf: "pool_wf env st" by simp
  note one = refresh_one_spec [OF wf step]
  have "\<forall>k e. map_of (la_cache st1) k = Some e \<longrightarrow> good e \<or> k \<in> (\<lambda>t. cache_key (rt_addr t)) ` set ts"
  proof (intro allI impI)
    fix k e
    assume e: "map_of (la_cache st1) k = Some e"
    show "good e \<or> k \<in> (\<lambda>t. cache_key (rt_addr t)) ` set ts"
    proof (cases "k = cache_key (rt_addr t)")
      case True
      with e one(3) Cons.prems(3) show ?thesis by blast
    next
      case False
      with e one(2) have "map_of (la_cache st) k = Some e" by (simp add: outside_def)
      with Cons.prems(2) s False show ?thesis by auto
    qed
  qed
  with Cons.IH [of "(st1, w1)"] one(1) Cons.prems(3,4) s step show ?case by simp
qed simp

lemma refresh_stale_cache:
  assumes wf: "pool_wf env st" and step: "refresh_stale_cache_for_query env (st, w) = (st', w')"
  shows "pool_wf env st'"
    and "map_of (la_cache st') k = Some e \<Longrightarrow>
      cn_last_error e \<noteq> None \<or> just_queried env e
        \<or> (e \<in> set (map snd (la_cache st)) \<and> \<not> is_stale (be_now_ms env w) (la_cache_ttl_ms st) e)"
proof -
  let ?ts = "stale_targets (be_now_ms env w) (la_cache_ttl_ms st) (la_cache st)"
  let ?good = "\<lambda>e. cn_last_error e \<noteq> None \<or> just_queried env e
        \<or> (e \<in> set (map snd (la_cache st)) \<and> \<not> is_stale (be_now_ms env w) (la_cache_ttl_ms st) e)"
  have start: "\<forall>k e. map_of (la_cache st) k = Some e \<longrightarrow> ?good e \<or> k \<in> (\<lambda>t. cache_key (rt_addr t)) ` set ?ts"
  proof (intro allI impI)
    fix k e
    assume e: "map_of (la_cache st) k = Some e"
    then have "e \<in> set (map snd (la_cache st))" by (force dest: map_of_SomeD)
    moreover from wf e have "k = cache_key (cn_addr e)" using rows_wf_entry by (auto simp: pool_wf_def)
    ultimately show "?good e \<or> k \<in> (\<lambda>t. cache_key (rt_addr t)) ` set ?ts"
      by (auto simp: stale_targets_def refresh_target_def image_iff)
  qed
  have "(st', w') = foldl (\<lambda>s t. refresh_one env t s) (st, w) ?ts"
    using step by (simp add: refresh_stale_cache_for_query_def)
  from refresh_all [OF _ _ _ this, of ?good] wf start
  show "pool_wf env st'" and "map_of (la_cache st') k = Some e \<Longrightarrow> ?good e" by auto
qed

lemma handle_query_command_spec:
  assumes wf: "pool_wf env st"
    and step: "handle_query_command env ac payload (names, st, w) = (Ok answer, background, names', st', w')"
  shows "\<exists>w0 st0. pool_wf env st0 \<and> refresh_stale_cache_for_query env (st0, w0) = (st', w')"
proof -
  let ?s = "reconcile_discovery_for_query env (st, w)"
  have "pool_wf env (fst (snd ?s))" using reconcile_wf [of "(st, w)"] wf by simp
  moreover have "refresh_stale_cache_for_query env (snd ?s) = (st', w')"
    using step by (auto simp: handle_query_command_def Let_def split: sum.splits prod.splits)
  ultimately show ?thesis by (metis prod.collapse)
qed

lemma handle_command_wf:
  assumes wf: "pool_wf env st"
    and step: "handle_command debug env ac cmd (names, st, w) = (r, background, names', st', w')"
  shows "pool_wf env st'"
proof -
  have query: "pool_wf env (fst (snd (snd (snd (handle_query_command env ac payload (names, st, w))))))" for payload
  proof -
    let ?s = "reconcile_discovery_for_query env (st, w)"
    have "pool_wf env (fst (snd ?s))" using reconcile_wf [of "(st, w)"] wf by simp
    then have "pool_wf env (fst (refresh_stale_cache_for_query env (snd ?s)))"
      using refresh_stale_cache(1) by (metis prod.collapse)
    with wf show ?thesis
      by (auto simp: handle_query_command_def case_prod_beta Let_def split: sum.split)
  qed
  have host: "pool_wf env (fst (snd (disconnect_hostname env h x (st, w))))" for h x
    using disconnect_hostname_wf [OF wf] by (metis prod.collapse)
  show ?thesis
    using step wf query host
    by (auto simp: handle_command_def Let_def case_prod_beta split: if_splits option.splits) (metis fst_conv snd_conv)+
qed

end

end
