(* ===== verification/Client_Backend.thy ===== *)
theory Client_Backend
  imports Local_Api Udp_Client Tcp_Client
begin

text \<open>
  The client backend as a whole, \<^verbatim>\<open>crates/client-backend/src/main.rs\<close> and \<^verbatim>\<open>config.rs\<close>, and the
  connections that it really uses: the UDP and TCP clients behind the interface of the pool. A
  connection is a number, the place of the client's state in the world, with its address.
  The network is given by peers: what an attempt to connect to an address meets.
\<close>

section \<open>Configuration\<close>

definition DEFAULT_CLIENT_CONFIG_PATH :: string where
  "DEFAULT_CLIENT_CONFIG_PATH = ''/etc/clustat/client.toml''"

definition get_client_config_path :: "string option \<Rightarrow> string" where
  "get_client_config_path env_path = (case env_path of Some p \<Rightarrow> p | None \<Rightarrow> DEFAULT_CLIENT_CONFIG_PATH)"

definition load_client_config ::
    "(string \<Rightarrow> string + string) \<Rightarrow> (string \<Rightarrow> string + Config) \<Rightarrow> string \<Rightarrow> string + Config" where
  "load_client_config read_to_string from_toml path =
     and_then (map_err (\<lambda>e. ''read config failed at '' @ path @ '': '' @ e) (read_to_string path)) (\<lambda>raw.
     and_then (map_err (\<lambda>e. ''parse config failed at '' @ path @ '': '' @ e) (from_toml raw)) (\<lambda>cfg.
       let c = cf_connecting cfg; p = to_ascii_lowercase (trim (cc_protocol c)) in
       if p = ''udp'' \<or> p = ''tcp'' then
         if cc_heartbeat_interval c = 0 then Err ''invalid connecting.heartbeat_interval: must be > 0''
         else if cc_connection_idle_timeout c = 0
           then Err ''invalid connecting.connection_idle_timeout: must be > 0''
         else if cc_max_connections c = 0 then Err ''invalid connecting.max_connections: must be > 0''
         else Ok cfg
       else Err (''invalid connecting.protocol '' @ quote p @ '': expected '' @ quote ''udp'' @ '' or '' @ quote ''tcp'')))"

section \<open>Start and announcements\<close>

definition start_state :: "Config \<Rightarrow> DiscoveredNode list \<Rightarrow> 'c LocalApiState" where
  "start_state cfg discovered =
     (let c = cf_connecting cfg in
      local_api_state_new (build_cache discovered) (sv_cache_ttl_ms (cf_services cfg))
        (to_ascii_lowercase (trim (cc_protocol c))) (cc_udp_mtu c) (cc_multicast_addr c)
        (cc_discover_wait_secs c) (cc_heartbeat_interval c) (cc_connection_idle_timeout c)
        (cc_max_connections c) (cc_multicast_outbound_ip c))"

definition startup_connect ::
    "('c, 'w) backend_env \<Rightarrow> Config \<Rightarrow> DiscoveredNode list \<Rightarrow> 'c LocalApiState \<times> 'w \<Rightarrow> 'c LocalApiState \<times> 'w" where
  "startup_connect env cfg discovered s =
     (if discovered = [] then s
      else if eq_ignore_ascii_case (cc_protocol (cf_connecting cfg)) ''tcp''
      then establish_tcp_connections env discovered s
      else establish_udp_connections env discovered s)"

text \<open>The start of the backend: the state before the local API is served, and the nodes that the
  connecting thread works on.\<close>

definition run_client ::
    "('c, 'w) backend_env \<Rightarrow> Config \<Rightarrow> 'w \<Rightarrow> DiscoveredNode list \<times> 'c LocalApiState \<times> 'w" where
  "run_client env cfg w =
     (let (multicast, w) = be_discover env (cc_protocol (cf_connecting cfg)) w;
          discovered = merge_discovered_nodes
            (case multicast of Ok nodes \<Rightarrow> nodes | Err _ \<Rightarrow> [])
            (case be_static_nodes env w of Ok nodes \<Rightarrow> nodes | Err _ \<Rightarrow> [])
      in (discovered, start_state cfg discovered, w))"

text \<open>What the listener does with an announcement.\<close>

definition announce_heard ::
    "('c, 'w) backend_env \<Rightarrow> string \<Rightarrow> DiscoveredNode \<Rightarrow> 'c LocalApiState \<times> 'w \<Rightarrow> 'c LocalApiState \<times> 'w" where
  "announce_heard env proto node = (\<lambda>(st, w).
     let s = (add_discovered_nodes [node] st, w);
         s = (if eq_ignore_ascii_case proto ''tcp'' then establish_tcp_connections env [node] s else s)
     in (if eq_ignore_ascii_case proto ''udp'' then establish_udp_connections env [node] s else s))"

section \<open>The connections\<close>

text \<open>The display form of client errors; \<open>debug_cause\<close> and \<open>debug_transport\<close> are the derived debug
  texts.\<close>

fun client_error_text :: "(decode_cause \<Rightarrow> string) \<Rightarrow> (ClientTransportError \<Rightarrow> string) \<Rightarrow> ClientError \<Rightarrow> string" where
  "client_error_text debug_cause debug_transport (Io m) = ''I/O error: '' @ m"
| "client_error_text debug_cause debug_transport (Server m) = ''server error: '' @ m"
| "client_error_text debug_cause debug_transport (Decode c) = ''decode error: '' @ debug_cause c"
| "client_error_text debug_cause debug_transport (Transport e) = ''transport error: '' @ debug_transport e"

text \<open>A peer: the errors of the socket calls, what a send does, the datagrams and the stream that are
  still to be received, and how long an exchange takes.\<close>

record peer =
  pe_bind :: "string option"
  pe_connect :: "string option"
  pe_send :: "bytes \<Rightarrow> string option"
  pe_datagrams :: "recv_step list"
  pe_stream :: tcp_stream
  pe_ns :: nat

datatype live_connection = LiveUdp ConnectedUdpNode peer | LiveTcp ConnectedTcpNode peer

record client_world =
  cw_live :: "live_connection list"
  cw_peers :: "SocketAddr \<Rightarrow> nat \<Rightarrow> peer"
  cw_attempts :: nat
  cw_clock_ns :: nat
  cw_rounds :: "(instant \<times> announce_event list) list"

record 'h client_setup =
  cs_crc :: "'h crc32"
  cs_codecs :: client_codecs
  cs_route_mtu :: "SocketAddr \<Rightarrow> nat option"
  cs_udp_mtu :: u16
  cs_timeout_ns :: nat
  cs_error_text :: "ClientError \<Rightarrow> string"
  cs_resolve :: "string \<Rightarrow> string + SocketAddr list"
  cs_query_to_vec :: "DiscoveryQuery \<Rightarrow> string + bytes"
  cs_sockets :: discovery_sockets
  cs_parsers :: announce_parsers
  cs_multicast_addr :: string
  cs_discover_wait_ns :: nat
  cs_outbound_ips :: "string list"
  cs_static_var :: env_var

type_synonym handle = "nat \<times> SocketAddr"

text \<open>The next attempt at an address meets its next peer.\<close>

definition next_peer :: "SocketAddr \<Rightarrow> client_world \<Rightarrow> peer \<times> client_world" where
  "next_peer a w =
     (let p = cw_peers w a (cw_attempts w)
      in (p, w\<lparr>cw_attempts := cw_attempts w + 1, cw_clock_ns := cw_clock_ns w + pe_ns p\<rparr>))"

definition add_live :: "SocketAddr \<Rightarrow> live_connection \<Rightarrow> client_world \<Rightarrow> (string + handle) \<times> client_world" where
  "add_live a l w = (Ok (length (cw_live w), a), w\<lparr>cw_live := cw_live w @ [l]\<rparr>)"

text \<open>The sockets have a read timeout: when nothing more arrives, a receive ends with it.\<close>

definition timed_out :: ClientError where
  "timed_out = Io ''timeout while waiting for UDP frame''"

definition udp_connect :: "'h client_setup \<Rightarrow> SocketAddr \<Rightarrow> client_world \<Rightarrow> (string + handle) \<times> client_world" where
  "udp_connect s a w =
     (let (p, w') = next_peer a w in
      case Udp_Client.connect_node (cs_crc s) (cs_codecs s) (cs_route_mtu s) (pe_bind p) (pe_connect p) (pe_send p)
             a (cs_timeout_ns s) (cs_udp_mtu s) (cw_clock_ns w) (pe_datagrams p) of
        (_, None, _) \<Rightarrow> (Err (cs_error_text s timed_out), w')
      | (_, Some (Err e), _) \<Rightarrow> (Err (cs_error_text s e), w')
      | (_, Some (Ok n), rest) \<Rightarrow> add_live a (LiveUdp n (p\<lparr>pe_datagrams := rest\<rparr>)) w')"

definition tcp_connect :: "'h client_setup \<Rightarrow> SocketAddr \<Rightarrow> client_world \<Rightarrow> (string + handle) \<times> client_world" where
  "tcp_connect s a w =
     (let (p, w') = next_peer a w in
      case Tcp_Client.connect_node (cs_codecs s) (pe_connect p) (pe_send p) a (pe_stream p) of
        (_, Err e) \<Rightarrow> (Err (cs_error_text s e), w')
      | (_, Ok (n, rest)) \<Rightarrow> add_live a (LiveTcp n (p\<lparr>pe_stream := rest\<rparr>)) w')"

definition set_live :: "handle \<Rightarrow> live_connection \<Rightarrow> client_world \<Rightarrow> client_world" where
  "set_live h l w = w\<lparr>cw_live := (cw_live w)[fst h := l]\<rparr>"

definition live_of :: "handle \<Rightarrow> client_world \<Rightarrow> live_connection option" where
  "live_of h w = (if fst h < length (cw_live w) then Some (cw_live w ! fst h) else None)"

definition live_hostname :: "handle \<Rightarrow> client_world \<Rightarrow> string" where
  "live_hostname h w =
     (case live_of h w of Some (LiveUdp n _) \<Rightarrow> udp_hostname n | Some (LiveTcp n _) \<Rightarrow> tcp_hostname n | None \<Rightarrow> [])"

definition live_gres_num :: "handle \<Rightarrow> client_world \<Rightarrow> u8" where
  "live_gres_num h w =
     (case live_of h w of Some (LiveUdp n _) \<Rightarrow> udp_gres_num n | Some (LiveTcp n _) \<Rightarrow> tcp_gres_num n | None \<Rightarrow> 0)"

text \<open>After a failed TCP query the stream is not used any more: the pool drops the connection.\<close>

definition closed_stream :: tcp_stream where
  "closed_stream = \<lparr>st_data = [], st_end = EndOfFile\<rparr>"

definition live_query ::
    "'h client_setup \<Rightarrow> handle \<Rightarrow> client_world \<Rightarrow> (string + ServerGresSnapshot) \<times> client_world" where
  "live_query s h w =
     (case live_of h w of
        Some (LiveUdp n p) \<Rightarrow>
          (case Udp_Client.query_connected (cs_crc s) (cs_codecs s) (pe_send p) (cs_timeout_ns s) (cw_clock_ns w)
                  (cw_clock_ns w) n (pe_datagrams p) of
             (_, n', r, rest) \<Rightarrow>
               (case r of
                  Some (Ok snapshot) \<Rightarrow> Ok snapshot
                | Some (Err e) \<Rightarrow> Err (cs_error_text s e)
                | None \<Rightarrow> Err (cs_error_text s timed_out),
                set_live h (LiveUdp n' (p\<lparr>pe_datagrams := rest\<rparr>)) (w\<lparr>cw_clock_ns := cw_clock_ns w + pe_ns p\<rparr>)))
      | Some (LiveTcp n p) \<Rightarrow>
          (case Tcp_Client.query_connected (cs_codecs s) (pe_send p) n (pe_stream p) of
             (_, n', Ok (snapshot, rest)) \<Rightarrow>
               (Ok snapshot, set_live h (LiveTcp n' (p\<lparr>pe_stream := rest\<rparr>)) (w\<lparr>cw_clock_ns := cw_clock_ns w + pe_ns p\<rparr>))
           | (_, n', Err e) \<Rightarrow>
               (Err (cs_error_text s e),
                set_live h (LiveTcp n' (p\<lparr>pe_stream := closed_stream\<rparr>)) (w\<lparr>cw_clock_ns := cw_clock_ns w + pe_ns p\<rparr>)))
      | None \<Rightarrow> (Err [], w))"

definition live_disconnect :: "'h client_setup \<Rightarrow> string \<Rightarrow> handle \<Rightarrow> client_world \<Rightarrow> client_world" where
  "live_disconnect s reason h w =
     (case live_of h w of
        Some (LiveUdp n p) \<Rightarrow>
          (case Udp_Client.disconnect (cs_crc s) (pe_send p) n reason of (_, n', _) \<Rightarrow> set_live h (LiveUdp n' p) w)
      | Some (LiveTcp n p) \<Rightarrow> set_live h (LiveTcp n (p\<lparr>pe_stream := closed_stream\<rparr>)) w
      | None \<Rightarrow> w)"

definition live_close :: "handle \<Rightarrow> client_world \<Rightarrow> client_world" where
  "live_close h w =
     (case live_of h w of
        Some (LiveTcp n p) \<Rightarrow> set_live h (LiveTcp n (p\<lparr>pe_stream := closed_stream\<rparr>)) w
      | _ \<Rightarrow> w)"

text \<open>Discovery uses the events up to the deadline.\<close>

definition world_discover ::
    "'h client_setup \<Rightarrow> string \<Rightarrow> client_world \<Rightarrow> (string + DiscoveredNode list) \<times> client_world" where
  "world_discover s proto w =
     (let deadline = cw_clock_ns w + cs_discover_wait_ns s;
          r = discover_nodes (cs_resolve s) (cs_query_to_vec s) (cs_sockets s) (cs_parsers s) (cs_multicast_addr s)
                (cs_discover_wait_ns s) (cs_outbound_ips s) proto (cw_clock_ns w)
                (cw_rounds w @ [(deadline, [])])
      in (case r of Some x \<Rightarrow> x | None \<Rightarrow> Ok [],
          w\<lparr>cw_clock_ns := deadline, cw_rounds := dropWhile (\<lambda>(t, _). t < deadline) (cw_rounds w)\<rparr>))"

definition client_env :: "'h client_setup \<Rightarrow> (handle, client_world) backend_env" where
  "client_env s =
     \<lparr>be_addr = snd, be_hostname = live_hostname, be_gres_num = live_gres_num, be_wants_heartbeat = (\<lambda>_. False),
      be_query = live_query s, be_disconnect = live_disconnect s, be_close = live_close,
      be_connect_udp = udp_connect s, be_connect_tcp = tcp_connect s, be_discover = world_discover s,
      be_static_nodes = (\<lambda>w. static_nodes_from_env (cs_resolve s) (\<lambda>_. int (cw_clock_ns w) div 1000000) (cs_static_var s)),
      be_now_ms = (\<lambda>w. int (cw_clock_ns w) div 1000000),
      be_elapsed_us = (\<lambda>w w'. (cw_clock_ns w' - cw_clock_ns w) div 1000)\<rparr>"

interpretation backend: server_connections "client_env s" for s
proof
  fix a w c w'
  show "be_addr (client_env s) c = a" if "be_connect_udp (client_env s) a w = (Ok c, w')"
    using that by (auto simp: client_env_def udp_connect_def add_live_def Let_def
        split: prod.splits option.splits sum.splits)
  show "be_addr (client_env s) c = a" if "be_connect_tcp (client_env s) a w = (Ok c, w')"
    using that by (auto simp: client_env_def tcp_connect_def add_live_def Let_def split: prod.splits sum.splits)
qed

section \<open>Everything the backend does keeps the pool well-formed\<close>

lemma start_state_wf [simp]: "pool_wf env (start_state cfg nodes)"
  by (simp add: start_state_def local_api_state_new_def Let_def pool_wf_def build_cache_wf)

text \<open>The states that the start, the announcements, the commands of clients and the reconciliations of the
  background can produce, with the connections of the two protocols.\<close>

inductive backend_reach :: "'h client_setup \<Rightarrow> Config \<Rightarrow> handle LocalApiState \<times> client_world \<Rightarrow> bool" for s cfg where
  start: "run_client (client_env s) cfg w = (nodes, x) \<Longrightarrow> backend_reach s cfg x"
| connect: "backend_reach s cfg x \<Longrightarrow> backend_reach s cfg (startup_connect (client_env s) cfg nodes x)"
| announce: "backend_reach s cfg x \<Longrightarrow> backend_reach s cfg (announce_heard (client_env s) proto node x)"
| reconcile: "backend_reach s cfg x \<Longrightarrow> backend_reach s cfg (run_discovery_reconcile (client_env s) x)"
| command: "backend_reach s cfg x \<Longrightarrow>
    handle_command debug (client_env s) ac cmd (names, x) = (r, background, names', x') \<Longrightarrow> backend_reach s cfg x'"

lemma startup_connect_wf:
  "pool_wf (client_env s) (fst x) \<Longrightarrow> pool_wf (client_env s) (fst (startup_connect (client_env s) cfg nodes x))"
  by (simp add: startup_connect_def establish_tcp_connections_def establish_udp_connections_def
      backend.establish_connections_wf)

lemma announce_heard_wf:
  "pool_wf (client_env s) (fst x) \<Longrightarrow> pool_wf (client_env s) (fst (announce_heard (client_env s) p node x))"
  by (simp add: announce_heard_def Let_def case_prod_beta establish_tcp_connections_def establish_udp_connections_def
      backend.establish_connections_wf add_discovered_nodes_wf)

lemma backend_reach_wf: "backend_reach s cfg x \<Longrightarrow> pool_wf (client_env s) (fst x)"
proof (induction rule: backend_reach.induct)
  case (start w nodes x)
  then show ?case by (auto simp: run_client_def Let_def split: prod.splits)
next
  case (command x debug ac cmd names r background names' x')
  then show ?case using backend.handle_command_wf by (metis prod.collapse)
qed (simp_all add: startup_connect_wf announce_heard_wf backend.run_discovery_reconcile_wf)

section \<open>Properties\<close>

text \<open>C12: in every state the backend reaches, the pool holds at most the configured number of
  connections, at most one per address and each under its own address, and every entry of the
  cache is filed under the key of its node.\<close>

theorem backend_pool_bounded:
  assumes "backend_reach s cfg (st, w)"
  shows "length (la_connections st) \<le> la_max_connections st
    \<and> distinct (map fst (la_connections st)) \<and> (\<forall>p. p \<in> set (la_connections st) \<longrightarrow> snd (snd p) = fst p)
    \<and> distinct (map fst (la_cache st)) \<and> (\<forall>p. p \<in> set (la_cache st) \<longrightarrow> fst p = cache_key (cn_addr (snd p)))"
  using backend_reach_wf [OF assms]
  by (auto simp: pool_wf_def keyed_def rows_wf_def client_env_def)

definition demo_setup :: "u32 client_setup" where
  "demo_setup = \<lparr>cs_crc = sum_crc, cs_codecs = demo_client, cs_route_mtu = (\<lambda>_. None), cs_udp_mtu = 0,
     cs_timeout_ns = 5, cs_error_text = (\<lambda>_. ''failed''), cs_resolve = (\<lambda>_. Err ''unknown''),
     cs_query_to_vec = (\<lambda>_. Ok []), cs_sockets = demo_sockets, cs_parsers = demo_parsers, cs_multicast_addr = [],
     cs_discover_wait_ns = 5, cs_outbound_ips = [], cs_static_var = VarMissing\<rparr>"

definition silent_peer :: peer where
  "silent_peer = \<lparr>pe_bind = None, pe_connect = Some ''refused'', pe_send = (\<lambda>_. None), pe_datagrams = [],
     pe_stream = closed_stream, pe_ns = 1\<rparr>"

definition demo_world :: client_world where
  "demo_world = \<lparr>cw_live = [], cw_peers = (\<lambda>_ _. silent_peer), cw_attempts = 0, cw_clock_ns = 0, cw_rounds = []\<rparr>"

theorem backend_pool_bounded_witness:
  "length (la_connections (start_state sample_config [] :: handle LocalApiState)) \<le> cc_max_connections (cf_connecting sample_config)"
proof -
  have "run_client (client_env demo_setup) sample_config demo_world =
      ([], start_state sample_config [], snd (world_discover demo_setup (cc_protocol (cf_connecting sample_config)) demo_world))"
    by (simp add: run_client_def client_env_def world_discover_def discover_nodes_def resolve_addr_def demo_setup_def
        static_nodes_from_env_def merge_discovered_nodes_def sorted_nodes_def Let_def)
  from backend_pool_bounded [OF backend_reach.start [OF this]]
  show ?thesis by (simp add: start_state_def local_api_state_new_def Let_def)
qed


definition fresh_entry :: ConnectionCacheEntry where
  "fresh_entry = entry_from_snapshot 0 ''conn-001'' (V4 0x0a000001 30000) sample_snapshot None"

definition fresh_state :: "handle LocalApiState" where
  "fresh_state = local_api_state_new [(cache_key (V4 0x0a000001 30000), fresh_entry)] 1000 ''udp'' 0 [] 5 5 5 1 []"

definition demo_api :: "client_world api_codec" where
  "demo_api = \<lparr>ac_request = (\<lambda>_. Err ''no''), ac_response = (\<lambda>_. Ok ''{}''), ac_views = (\<lambda>_. demo_views)\<rparr>"


section \<open>Padded protocol names\<close>

text \<open>A protocol name with white space around it is accepted by the configuration and used by
  the state, but the start and the announcement listener compare the name as it was
  written, so they never connect to anything: the start leaves the state as it was, and an
  announcement only adds its node to the cache.\<close>

theorem padded_protocol_never_connects:
  assumes "to_ascii_lowercase (trim (cc_protocol (cf_connecting cfg))) = ''tcp''"
    and "\<not> eq_ignore_ascii_case (cc_protocol (cf_connecting cfg)) ''tcp''"
    and "\<not> eq_ignore_ascii_case (cc_protocol (cf_connecting cfg)) ''udp''"
  shows "startup_connect env cfg nodes (start_state cfg nodes, w) = (start_state cfg nodes, w)
    \<and> announce_heard env (cc_protocol (cf_connecting cfg)) node (st, w) = (add_discovered_nodes [node] st, w)"
  using assms
  by (simp add: startup_connect_def establish_udp_connections_def protocol_def start_state_def Let_def
      local_api_state_new_def announce_heard_def)

definition padded_config :: Config where
  "padded_config = sample_config\<lparr>cf_connecting := cf_connecting sample_config\<lparr>cc_protocol := '' tcp''\<rparr>\<rparr>"

theorem padded_protocol_never_connects_witness:
  "startup_connect (client_env demo_setup) padded_config [\<lparr>dn_hostname = ''a'', dn_addr = V4 1 2, dn_ts_ms = 3\<rparr>] (start_state padded_config [\<lparr>dn_hostname = ''a'', dn_addr = V4 1 2, dn_ts_ms = 3\<rparr>], demo_world) =
     (start_state padded_config [\<lparr>dn_hostname = ''a'', dn_addr = V4 1 2, dn_ts_ms = 3\<rparr>], demo_world)"
proof -
  have p: "cc_protocol (cf_connecting padded_config) = '' tcp''" by (simp add: padded_config_def)
  have "trim '' tcp'' = ''tcp''" by code_simp
  moreover have "to_ascii_lowercase ''tcp'' = ''tcp''" "to_ascii_lowercase ''udp'' = ''udp''"
    "to_ascii_lowercase '' tcp'' = '' tcp''" by code_simp+
  ultimately show ?thesis
    by (intro padded_protocol_never_connects [of padded_config, THEN conjunct1]) (simp_all add: p eq_ignore_ascii_case_def)
qed

section \<open>Connection ids\<close>

text \<open>C40: connection ids are not unique. Of two known nodes, a failed query removes the first; the
  next node to be discovered then gets the id of the second, because it is numbered by the
  size of the table.\<close>

theorem connection_ids_collide:
  assumes "la_cache st = build_cache [\<lparr>dn_hostname = h1, dn_addr = V4 a1 p1, dn_ts_ms = t1\<rparr>, \<lparr>dn_hostname = h2, dn_addr = V4 a2 p2, dn_ts_ms = t2\<rparr>]"
    and "be_query env c w = (Err x, w')"
    and "a1 \<noteq> a2" "a3 \<noteq> a2" "h3 \<noteq> h2"
  shows "map cn_connection_id (map snd (la_cache (add_discovered_nodes [\<lparr>dn_hostname = h3, dn_addr = V4 a3 p3, dn_ts_ms = t3\<rparr>]
     (fst (query_target env (refresh_target (new_entry 1 \<lparr>dn_hostname = h1, dn_addr = V4 a1 p1, dn_ts_ms = t1\<rparr>)) c (st, w))))))
     = [''conn-002'', ''conn-002'']"
proof -
  have id: "conn_id (Suc (Suc 0)) = ''conn-002''"
    by code_simp
  show ?thesis
    using assms
    by (simp add: build_cache_def enumerate_eq_zip cache_key_inject query_target_def refresh_target_def new_entry_def
        add_discovered_nodes_def insert_absent_def id)
qed

theorem connection_ids_collide_witness:
  "\<exists>st. map cn_connection_id (map snd (la_cache (st :: handle LocalApiState))) = [''conn-002'', ''conn-002'']"
proof -
  have "be_query (client_env demo_setup) (0, V4 1 1) demo_world = (Err [], demo_world)"
    by (simp add: client_env_def live_query_def live_of_def demo_world_def)
  moreover have "(1 :: u32) \<noteq> 2" "(3 :: u32) \<noteq> 2" "''c'' \<noteq> ''b''" by simp_all
  ultimately have collide: "\<And>st. la_cache st = build_cache [\<lparr>dn_hostname = ''a'', dn_addr = V4 1 1, dn_ts_ms = 0\<rparr>,
        \<lparr>dn_hostname = ''b'', dn_addr = V4 2 1, dn_ts_ms = 0\<rparr>] \<Longrightarrow>
      map cn_connection_id (map snd (la_cache (add_discovered_nodes [\<lparr>dn_hostname = ''c'', dn_addr = V4 3 1, dn_ts_ms = 0\<rparr>]
        (fst (query_target (client_env demo_setup) (refresh_target (new_entry 1 \<lparr>dn_hostname = ''a'', dn_addr = V4 1 1, dn_ts_ms = 0\<rparr>))
          (0, V4 1 1) (st, demo_world)))))) = [''conn-002'', ''conn-002'']"
    by (rule connection_ids_collide [rotated])
  show ?thesis
    by (intro exI, rule collide [of "local_api_state_new (build_cache
        [\<lparr>dn_hostname = ''a'', dn_addr = V4 1 1, dn_ts_ms = 0\<rparr>, \<lparr>dn_hostname = ''b'', dn_addr = V4 2 1, dn_ts_ms = 0\<rparr>])
        1 [] 0 [] 0 0 0 9 []"]) (simp add: local_api_state_new_def)
qed

end
