(* ===== verification/Cli_Backend.thy ===== *)
theory Cli_Backend
  imports Cli_Render Cli_Schema Client_Backend
begin

text \<open>
  The command line client as a whole, \<^verbatim>\<open>crates/client-cli/src/backend.rs\<close> and \<^verbatim>\<open>main.rs\<close>:
  where the backend is, one query over its socket, the refresh loop and the exit of the program.
  Environment variables, files, sockets and standard output are parameters; JSON texts are too,
  the values they stand for are not.
\<close>

section \<open>Settings\<close>

record cli_env =
  ce_var :: "string \<Rightarrow> string option"
  ce_read_file :: "string \<Rightarrow> string option"
  ce_from_toml :: "string \<Rightarrow> Config option"

definition BACKEND_SOCKET_ENV :: string where "BACKEND_SOCKET_ENV = ''CLUSTAT_BACKEND_SOCKET''"
definition CONFIG_PATH_ENV :: string where "CONFIG_PATH_ENV = ''CLUSTAT_CONFIG''"
definition DEFAULT_CLI_CONFIG_PATH :: string where "DEFAULT_CLI_CONFIG_PATH = ''/etc/clustat/client.toml''"
definition DEFAULT_CLI_BACKEND_SOCKET :: string where "DEFAULT_CLI_BACKEND_SOCKET = ''/run/clustat/client.sock''"

definition trimmed_path :: "string option \<Rightarrow> string option" where
  "trimmed_path p = Option.bind p (\<lambda>s. if trim s = [] then None else Some (trim s))"

definition cli_config :: "cli_env \<Rightarrow> Config option" where
  "cli_config env =
     (let path = (case ce_var env CONFIG_PATH_ENV of Some p \<Rightarrow> p | None \<Rightarrow> DEFAULT_CLI_CONFIG_PATH)
      in Option.bind (ce_read_file env path) (ce_from_toml env))"

definition configured_uds_path :: "cli_env \<Rightarrow> string option" where
  "configured_uds_path env = Option.bind (cli_config env) (\<lambda>cfg. trimmed_path (sv_uds_path (cf_services cfg)))"

definition backend_socket_from_options :: "cli_env \<Rightarrow> CliOptions \<Rightarrow> string" where
  "backend_socket_from_options env opts =
     (case trimmed_path (co_backend_socket opts) of
        Some p \<Rightarrow> p
      | None \<Rightarrow>
          (case trimmed_path (ce_var env BACKEND_SOCKET_ENV) of
             Some p \<Rightarrow> p
           | None \<Rightarrow> (case configured_uds_path env of Some p \<Rightarrow> p | None \<Rightarrow> DEFAULT_CLI_BACKEND_SOCKET)))"

definition configured_latency_display :: "cli_env \<Rightarrow> bool option" where
  "configured_latency_display env = map_option (\<lambda>cfg. sv_latency_display (cf_services cfg)) (cli_config env)"

definition latency_display_from_options :: "cli_env \<Rightarrow> CliOptions \<Rightarrow> bool" where
  "latency_display_from_options env opts =
     (case co_latency_display opts of
        Some b \<Rightarrow> b
      | None \<Rightarrow> (case configured_latency_display env of Some b \<Rightarrow> b | None \<Rightarrow> True))"

section \<open>A query\<close>

text \<open>JSON texts: the parser, the error it gives for a text, the compact and the pretty printer.\<close>

record json_text =
  jt_parse :: "string \<Rightarrow> json option"
  jt_error :: "string \<Rightarrow> string"
  jt_print :: "json \<Rightarrow> string"
  jt_pretty :: "json \<Rightarrow> string"

definition build_query_command :: "json_text \<Rightarrow> CliOptions \<Rightarrow> string" where
  "build_query_command jt opts =
     ''QUERY '' @ jt_print jt (request_to_json (co_node_filter opts) (co_user_filter opts)) @ newline"

definition decode_response :: "json_text \<Rightarrow> string \<Rightarrow> string + ApiQueryResponse" where
  "decode_response jt raw =
     (case Option.bind (jt_parse jt raw) response_from_json of
        Some r \<Rightarrow> Ok r
      | None \<Rightarrow> Err (''invalid backend response: '' @ jt_error jt raw))"

text \<open>Sockets: what a connection attempt gives, what writing a text gives, the next line.\<close>

record ('k, 'w) uds_net =
  un_connect :: "string \<Rightarrow> 'w \<Rightarrow> (string + 'k) \<times> 'w"
  un_write :: "'k \<Rightarrow> string \<Rightarrow> 'w \<Rightarrow> string option \<times> 'w"
  un_read_line :: "'k \<Rightarrow> 'w \<Rightarrow> (string + string) \<times> 'w"

definition query_stream ::
    "json_text \<Rightarrow> ('k, 'w) uds_net \<Rightarrow> 'k \<Rightarrow> CliOptions \<Rightarrow> 'w \<Rightarrow> (string + ApiQueryResponse) \<times> 'w" where
  "query_stream jt net k opts w =
     (case un_write net k (build_query_command jt opts) w of
        (Some e, w) \<Rightarrow> (Err (''send QUERY failed: '' @ e), w)
      | (None, w) \<Rightarrow>
          (case un_read_line net k w of
             (Err e, w) \<Rightarrow> (Err (''read QUERY response failed: '' @ e), w)
           | (Ok line, w) \<Rightarrow> (decode_response jt (trim line), w)))"

definition not_running :: "string \<Rightarrow> string \<Rightarrow> string" where
  "not_running path e =
     ''backend UDS '' @ ascii [0xE6, 0x9C, 0xAA, 0xE8, 0xBF, 0x90, 0xE8, 0xA1, 0x8C, 0xEF, 0xBC, 0x9A, 0xE8, 0xAF, 0xB7, 0xE5, 0x85,
       0x88, 0xE5, 0x90, 0xAF, 0xE5, 0x8A, 0xA8] @ '' clustat-backend'' @ ascii [0xEF, 0xBC, 0x88] @ path
     @ ascii [0xEF, 0xBC, 0x89, 0xE3, 0x80, 0x82, 0xE8, 0xBF, 0x9E, 0xE6, 0x8E, 0xA5, 0xE5, 0xA4, 0xB1, 0xE8, 0xB4, 0xA5] @ '': '' @ e"

definition unsupported_backend :: string where
  "unsupported_backend =
     ''clustat client on this platform can render data but cannot connect to the local UDS backend yet; ''
     @ ''use Linux or macOS for live cluster queries''"

text \<open>The flag says whether the program is built for a Unix system.\<close>

definition connect_backend ::
    "bool \<Rightarrow> cli_env \<Rightarrow> ('k, 'w) uds_net \<Rightarrow> CliOptions \<Rightarrow> 'w \<Rightarrow> (string + 'k) \<times> 'w" where
  "connect_backend unix env net opts w =
     (if \<not> unix then (Err unsupported_backend, w)
      else
        let path = backend_socket_from_options env opts;
            (r, w) = un_connect net path w
        in (map_err (not_running path) r, w))"

definition query_backend ::
    "bool \<Rightarrow> cli_env \<Rightarrow> json_text \<Rightarrow> ('k, 'w) uds_net \<Rightarrow> CliOptions \<Rightarrow> 'w \<Rightarrow> (string + ApiQueryResponse) \<times> 'w" where
  "query_backend unix env jt net opts w =
     (case connect_backend unix env net opts w of
        (Err e, w) \<Rightarrow> (Err e, w)
      | (Ok k, w) \<Rightarrow> query_stream jt net k opts w)"

section \<open>The refresh loop\<close>

datatype io_failure = BrokenPipe | IoFailure string

text \<open>Standard output and time: writing and flushing may fail, the loop may sleep.\<close>

record 'w terminal =
  tm_write :: "string \<Rightarrow> 'w \<Rightarrow> io_failure option \<times> 'w"
  tm_flush :: "'w \<Rightarrow> io_failure option \<times> 'w"
  tm_sleep :: "nat \<Rightarrow> 'w \<Rightarrow> 'w"
  tm_is_terminal :: bool
  tm_resolve :: "u32 \<Rightarrow> string option"
  tm_local_time :: "int \<Rightarrow> string option"

definition write_stdout :: "'w terminal \<Rightarrow> string \<Rightarrow> 'w \<Rightarrow> (string + bool) \<times> 'w" where
  "write_stdout tm output w =
     (case tm_write tm output w of
        (Some BrokenPipe, w) \<Rightarrow> (Ok False, w)
      | (Some (IoFailure e), w) \<Rightarrow> (Err (''write output failed: '' @ e), w)
      | (None, w) \<Rightarrow>
          (case tm_flush tm w of
             (Some BrokenPipe, w) \<Rightarrow> (Ok False, w)
           | (Some (IoFailure e), w) \<Rightarrow> (Err (''flush output failed: '' @ e), w)
           | (None, w) \<Rightarrow> (Ok True, w)))"

definition clear_screen :: string where
  "clear_screen = [escape] @ ''[2J'' @ [escape] @ ''[H''"

text \<open>What one round prints.\<close>

definition round_output ::
    "json_text \<Rightarrow> 'w terminal \<Rightarrow> CliOptions \<Rightarrow> RenderOptions \<Rightarrow> node_rows \<Rightarrow> ApiQueryResponse \<Rightarrow> (string + string) \<times> node_rows" where
  "round_output jt tm opts ro rows resp =
     (let clear = (if co_watch opts then clear_screen else []) in
      if co_json opts then
        (map_ok (\<lambda>json. clear @ json) (render_json (\<lambda>r. Ok (jt_pretty jt (response_to_json_cli r))) resp), rows)
      else
        let (table, rows) = render_full (tm_resolve tm) (tm_local_time tm) rows (ar_nodes resp) (co_user_filter opts) ro
        in (Ok (clear @ table), rows))"

text \<open>The loop returns the number of rounds. In watch mode it may run for ever, then it is \<open>None\<close>.\<close>

definition last_round :: "CliOptions \<Rightarrow> nat option \<Rightarrow> nat \<Rightarrow> bool" where
  "last_round opts max_rounds rounds \<longleftrightarrow>
     \<not> co_watch opts \<or> (case max_rounds of Some m \<Rightarrow> m \<le> rounds | None \<Rightarrow> False)"

definition refresh_round ::
    "json_text \<Rightarrow> 'w terminal \<Rightarrow> CliOptions \<Rightarrow> RenderOptions \<Rightarrow> ('w \<Rightarrow> (string + ApiQueryResponse) \<times> 'w)
      \<Rightarrow> node_rows \<times> 'w \<Rightarrow> (string + bool) \<times> node_rows \<times> 'w" where
  "refresh_round jt tm opts ro fetch = (\<lambda>(rows, w).
     case fetch w of
       (Err e, w) \<Rightarrow> (Err e, rows, w)
     | (Ok resp, w) \<Rightarrow>
         (case round_output jt tm opts ro rows resp of
            (Err e, rows) \<Rightarrow> (Err e, rows, w)
          | (Ok out, rows) \<Rightarrow> (case write_stdout tm out w of (r, w) \<Rightarrow> (r, rows, w))))"

partial_function (option) refresh_loop ::
    "json_text \<Rightarrow> 'w terminal \<Rightarrow> CliOptions \<Rightarrow> RenderOptions \<Rightarrow> ('w \<Rightarrow> (string + ApiQueryResponse) \<times> 'w)
      \<Rightarrow> nat option \<Rightarrow> nat \<Rightarrow> node_rows \<times> 'w \<Rightarrow> ((string + nat) \<times> 'w) option" where
  "refresh_loop jt tm opts ro fetch max_rounds rounds s =
     (case refresh_round jt tm opts ro fetch s of
        (r, rows, w) \<Rightarrow>
          (case r of
             Err e \<Rightarrow> Some (Err e, w)
           | Ok written \<Rightarrow>
               if \<not> written then Some (Ok rounds, w)
               else if last_round opts max_rounds (rounds + 1) then Some (Ok (rounds + 1), w)
               else refresh_loop jt tm opts ro fetch max_rounds (rounds + 1)
                      (rows, tm_sleep tm (co_refresh_interval_ns opts) w)))"

definition run_refresh_loop ::
    "cli_env \<Rightarrow> json_text \<Rightarrow> 'w terminal \<Rightarrow> CliOptions \<Rightarrow> ('w \<Rightarrow> (string + ApiQueryResponse) \<times> 'w) \<Rightarrow> nat option
      \<Rightarrow> 'w \<Rightarrow> ((string + nat) \<times> 'w) option" where
  "run_refresh_loop env jt tm opts fetch max_rounds w =
     refresh_loop jt tm opts (render_options_from_cli (tm_is_terminal tm) (latency_display_from_options env opts) opts)
       fetch max_rounds 0 (Map.empty, w)"

section \<open>The program\<close>

text \<open>\<open>run\<close>: watch mode keeps one connection, otherwise each query has its own.\<close>

definition run_cli ::
    "bool \<Rightarrow> cli_env \<Rightarrow> json_text \<Rightarrow> ('k, 'w) uds_net \<Rightarrow> 'w terminal \<Rightarrow> string list \<Rightarrow> 'w \<Rightarrow> ((cli_failure + unit) \<times> 'w) option" where
  "run_cli unix env jt net tm args w =
     (let finish = map_option (\<lambda>(r, w). (map_ok (\<lambda>_. ()) (map_err Refused r), w)) in
      case parse_args args of
        Err e \<Rightarrow> Some (Err e, w)
      | Ok opts \<Rightarrow>
          if co_watch opts then
            (case connect_backend unix env net opts w of
               (Err e, w) \<Rightarrow> Some (Err (Refused e), w)
             | (Ok k, w) \<Rightarrow> finish (run_refresh_loop env jt tm opts (query_stream jt net k opts) None w))
          else finish (run_refresh_loop env jt tm opts (query_backend unix env jt net opts) None w))"

text \<open>How the program ends: its exit code and what it prints besides the rounds, on standard output and
  on standard error. A panic is 101.\<close>

record cli_exit =
  cx_code :: nat
  cx_stdout :: string
  cx_stderr :: string

definition exit_of :: "cli_failure + unit \<Rightarrow> cli_exit" where
  "exit_of r =
     (case r of
        Ok () \<Rightarrow> \<lparr>cx_code = 0, cx_stdout = [], cx_stderr = []\<rparr>
      | Err Panicked \<Rightarrow> \<lparr>cx_code = 101, cx_stdout = [], cx_stderr = ''panic''\<rparr>
      | Err (Refused e) \<Rightarrow>
          if starts_with e ''Usage:'' \<or> starts_with e ''clustat '' then \<lparr>cx_code = 0, cx_stdout = e @ newline, cx_stderr = []\<rparr>
          else \<lparr>cx_code = 1, cx_stdout = [], cx_stderr = ''[clustat][error] '' @ e @ newline\<rparr>)"

definition main_cli ::
    "bool \<Rightarrow> cli_env \<Rightarrow> json_text \<Rightarrow> ('k, 'w) uds_net \<Rightarrow> 'w terminal \<Rightarrow> string list \<Rightarrow> 'w \<Rightarrow> (cli_exit \<times> 'w) option" where
  "main_cli unix env jt net tm args w = map_option (\<lambda>(r, w). (exit_of r, w)) (run_cli unix env jt net tm args w)"

end
