(* ===== verification/Cli_Session.thy ===== *)
theory Cli_Session
  imports Cli_Backend "HOL-Library.Countable"
begin

text \<open>
  The command line client in use: one query against the local API of the backend, the refresh
  loop, the socket both sides choose, and the exit of the program.
\<close>

section \<open>The socket\<close>

lemma trimmed_path_cases:
  "trimmed_path p = (case p of Some s \<Rightarrow> (if trim s = [] then None else Some (trim s)) | None \<Rightarrow> None)"
  by (cases p) (simp_all add: trimmed_path_def)

text \<open>C36: without a socket among its arguments the client looks for the backend where the backend serves:
  with the same environment and the same configuration file, which the backend accepted, both
  choose the same path.\<close>

theorem socket_paths_agree:
  assumes "trimmed_path (co_backend_socket opts) = None"
    and "load_client_config (\<lambda>p. case ce_read_file env p of Some raw \<Rightarrow> Ok raw | None \<Rightarrow> Err e)
           (\<lambda>raw. case ce_from_toml env raw of Some c \<Rightarrow> Ok c | None \<Rightarrow> Err e')
           (get_client_config_path (ce_var env CONFIG_PATH_ENV)) = Ok cfg"
  shows "backend_socket_from_options env opts =
    uds_path_from_config_or_env (ce_var env BACKEND_SOCKET_ENV) (sv_uds_path (cf_services cfg))"
proof -
  have "cli_config env = Some cfg"
    using assms(2)
    by (auto simp: load_client_config_def cli_config_def get_client_config_path_def Let_def result_simps
        DEFAULT_CLIENT_CONFIG_PATH_def DEFAULT_CLI_CONFIG_PATH_def split: option.splits if_splits)
  then have "configured_uds_path env = trimmed_path (sv_uds_path (cf_services cfg))"
    by (simp add: configured_uds_path_def)
  with assms(1) show ?thesis
    by (simp add: backend_socket_from_options_def uds_path_from_config_or_env_def
        DEFAULT_BACKEND_SOCKET_def DEFAULT_CLI_BACKEND_SOCKET_def Let_def flip: trimmed_path_cases split: option.split)
qed

definition demo_cli_env :: cli_env where
  "demo_cli_env = \<lparr>ce_var = [''CLUSTAT_CONFIG'' \<mapsto> ''client.toml''], ce_read_file = [''client.toml'' \<mapsto> []],
     ce_from_toml = (\<lambda>_. Some sample_config)\<rparr>"

theorem socket_paths_agree_witness:
  "backend_socket_from_options demo_cli_env cli_options_default =
    uds_path_from_config_or_env None (sv_uds_path (cf_services sample_config))"
proof -
  have var: "ce_var demo_cli_env BACKEND_SOCKET_ENV = None"
    by (simp add: demo_cli_env_def BACKEND_SOCKET_ENV_def)
  have none: "trimmed_path (co_backend_socket cli_options_default) = None"
    by (simp add: trimmed_path_def cli_options_default_def)
  have "to_ascii_lowercase (trim (cc_protocol (cf_connecting sample_config))) = ''udp''
      \<or> to_ascii_lowercase (trim (cc_protocol (cf_connecting sample_config))) = ''tcp''"
    by code_simp
  then have "load_client_config (\<lambda>p. case ce_read_file demo_cli_env p of Some raw \<Rightarrow> Ok raw | None \<Rightarrow> Err [])
      (\<lambda>raw. case ce_from_toml demo_cli_env raw of Some c \<Rightarrow> Ok c | None \<Rightarrow> Err [])
      (get_client_config_path (ce_var demo_cli_env CONFIG_PATH_ENV)) = Ok sample_config"
    by (simp add: load_client_config_def demo_cli_env_def get_client_config_path_def CONFIG_PATH_ENV_def
        sample_config_def sample_connecting_def Let_def)
  from socket_paths_agree [OF none this] show ?thesis unfolding var .
qed

section \<open>The refresh loop\<close>


text \<open>JSON texts for the examples: the number of a value in braces.\<close>

instance json :: countable
  by countable_datatype

definition demo_json :: json_text where
  "demo_json = \<lparr>jt_parse = (\<lambda>s. Some (from_nat (digits_value (butlast (tl s))))), jt_error = (\<lambda>_. []),
     jt_print = (\<lambda>v. ''{'' @ nat_to_string (to_nat v) @ ''}''), jt_pretty = (\<lambda>v. ''{'' @ nat_to_string (to_nat v) @ ''}'')\<rparr>"

definition demo_terminal :: "'w terminal" where
  "demo_terminal = \<lparr>tm_write = (\<lambda>_ w. (None, w)), tm_flush = (\<lambda>w. (None, w)), tm_sleep = (\<lambda>_ w. w),
     tm_is_terminal = False, tm_resolve = Map.empty, tm_local_time = Map.empty\<rparr>"


text \<open>In watch mode without a limit the loop only ever ends because a round failed, with that error,
  or because the reader of the output went away.\<close>

theorem watch_ends_on_failure_only:
  assumes "run_refresh_loop env jt tm opts fetch None w = Some (r, w')" "co_watch opts"
  shows "\<exists>rows w0 rows' result.
    refresh_round jt tm opts (render_options_from_cli (tm_is_terminal tm) (latency_display_from_options env opts) opts)
      fetch (rows, w0) = (result, rows', w')
    \<and> ((\<exists>e. result = Err e \<and> r = Err e) \<or> (result = Ok False \<and> \<not> isl r))"
proof -
  let ?ro = "render_options_from_cli (tm_is_terminal tm) (latency_display_from_options env opts) opts"
  let ?ends = "\<lambda>(r :: string + nat, w'). \<exists>rows w0 rows' result. refresh_round jt tm opts ?ro fetch (rows, w0) = (result, rows', w')
      \<and> ((\<exists>e. result = Err e \<and> r = Err e) \<or> (result = Ok False \<and> \<not> isl r))"
  have "ro = ?ro \<Longrightarrow> max_rounds = None \<Longrightarrow> co_watch opts \<Longrightarrow> ?ends y"
    if "refresh_loop jt tm opts ro fetch max_rounds rounds s = Some y" for ro max_rounds rounds s y
    using that
  proof (induction jt tm opts ro fetch max_rounds rounds s y rule: refresh_loop.raw_induct [rotated, consumes 1])
    case (1 loop jt tm opts ro fetch max_rounds rounds s y)
    obtain result rows w where round: "refresh_round jt tm opts ro fetch s = (result, rows, w)" by (metis prod_cases3)
    show ?case
    proof (cases "result = Ok True")
      case True
      then have "loop jt tm opts ro fetch max_rounds (rounds + 1) (rows, tm_sleep tm (co_refresh_interval_ns opts) w) = Some y"
        using 1(2-) round by (simp add: last_round_def)
      from 1(1) [OF this 1(3-)] show ?thesis .
    next
      case False
      with 1(2-) round show ?thesis by (cases s) (fastforce split: sum.splits)
    qed
  qed
  from this [OF assms(1) [unfolded run_refresh_loop_def] refl refl assms(2)] show ?thesis by (simp only: prod.case)
qed

theorem watch_ends_on_failure_only_witness:
  "\<exists>rows w0 rows' result.
    refresh_round demo_json (demo_terminal :: unit terminal) (cli_options_default\<lparr>co_watch := True\<rparr>)
      (render_options_from_cli (tm_is_terminal (demo_terminal :: unit terminal))
        (latency_display_from_options demo_cli_env (cli_options_default\<lparr>co_watch := True\<rparr>)) (cli_options_default\<lparr>co_watch := True\<rparr>))
      (\<lambda>w. (Err ''gone'', w)) (rows, w0) = (result, rows', ())
    \<and> ((\<exists>e. result = Err e \<and> Err ''gone'' = (Err e :: string + nat)) \<or> (result = Ok False \<and> \<not> isl (Err ''gone'' :: string + nat)))"
proof -
  have "run_refresh_loop demo_cli_env demo_json (demo_terminal :: unit terminal) (cli_options_default\<lparr>co_watch := True\<rparr>)
      (\<lambda>w. (Err ''gone'', w)) None () = Some (Err ''gone'', ())"
    by (simp add: run_refresh_loop_def refresh_loop.simps refresh_round_def Let_def)
  from watch_ends_on_failure_only [OF this] show ?thesis by simp
qed

section \<open>A query to the backend\<close>

text \<open>What the documentation of the JSON library promises of its texts: a printed value reads back, is a
  single line, and an object is between braces.\<close>

definition json_text_ok :: "json_text \<Rightarrow> bool" where
  "json_text_ok jt \<longleftrightarrow>
     (\<forall>v. jt_parse jt (jt_print jt v) = Some v)
     \<and> (\<forall>kvs. \<exists>body. jt_print jt (JObject kvs) = ''{'' @ body @ ''}'')"

text \<open>The local API at the other end of the socket, with the same JSON library: a line that is written is a
  command of the session, and the answers are read in order.\<close>

definition api_codec_of :: "json_text \<Rightarrow> ('w \<Rightarrow> view_env) \<Rightarrow> 'w api_codec" where
  "api_codec_of jt views =
     \<lparr>ac_request = (\<lambda>s. case Option.bind (jt_parse jt s) request_from_json of Some r \<Rightarrow> Ok r | None \<Rightarrow> Err (jt_error jt s)),
      ac_response = (\<lambda>r. Ok (jt_print jt (response_to_json r))), ac_views = views\<rparr>"

definition local_api_peer ::
    "('c, 'w) backend_env \<Rightarrow> 'w api_codec \<Rightarrow> (unit, string list \<times> name_cache \<times> 'c LocalApiState \<times> 'w) uds_net" where
  "local_api_peer env ac =
     \<lparr>un_connect = (\<lambda>_ w. (Ok (), w)),
      un_write = (\<lambda>_ line (replies, s).
        case handle_client False env ac (\<lambda>_. None) [Ok line] s of (out, _, s) \<Rightarrow> (None, (replies @ out, s))),
      un_read_line = (\<lambda>_ (replies, s).
        case replies of [] \<Rightarrow> (Ok [], ([], s)) | line # rest \<Rightarrow> (Ok line, (rest, s)))\<rparr>"

lemma brace_ws_free [simp]: "ws_free (CHR ''{'')" "ws_free (CHR ''}'')" "ws_free (CHR ''Q'')"
  by (simp_all add: ws_free_ascii)

lemma trim_object: "trim (''{'' @ body @ ''}'') = ''{'' @ body @ ''}''"
  by (rule trim_same) simp_all

lemma strip_code_step:
  assumes "w \<in> set ws" "w \<noteq> []" "\<And>v s. v \<in> set ws \<Longrightarrow> v \<noteq> [] \<Longrightarrow> prefix v (w @ s) \<Longrightarrow> v = w"
  shows "strip_codes ws (w @ s) = strip_codes ws s"
proof -
  obtain v where v: "find (\<lambda>w'. w' \<noteq> [] \<and> prefix w' (w @ s)) ws = Some v"
    using assms(1,2) by (cases "find (\<lambda>w'. w' \<noteq> [] \<and> prefix w' (w @ s)) ws") (auto simp: find_None_iff)
  then have "v = w" using assms(3) [of v s] by (auto simp: find_Some_iff)
  with v show ?thesis by (simp add: strip_codes.simps [of ws "w @ s"])
qed

lemma trim_blank_front: "trim (CHR '' '' # s) = trim s"
proof -
  have "strip_codes whitespace_codes ('' '' @ s) = strip_codes whitespace_codes s"
  proof (rule strip_code_step)
    show "'' '' \<in> set whitespace_codes" by code_simp
    fix v s
    assume "v \<in> set whitespace_codes" "v \<noteq> []" "prefix v ('' '' @ s)"
    then have "list_ex (\<lambda>w. v = w \<and> hd w = CHR '' '') whitespace_codes" by (auto simp: list_ex_iff prefix_Cons)
    moreover have "list_all (\<lambda>w. hd w = CHR '' '' \<longrightarrow> w = '' '') whitespace_codes" by code_simp
    ultimately show "v = '' ''" by (auto simp: list_ex_iff list_all_iff)
  qed simp
  then show ?thesis by (simp add: trim_def trim_start_def)
qed

lemma trim_newline_end:
  assumes "s \<noteq> []" "ws_free (hd s)" "ws_free (last s)"
  shows "trim (s @ newline) = s"
proof -
  have start: "trim_start (s @ newline) = s @ newline"
    using assms strip_codes_same [of whitespace_codes "hd s" "tl s @ newline"]
    by (simp add: trim_start_def ws_free_def list_all_iff append_Cons [symmetric] del: append_Cons)
  have "strip_codes (map rev whitespace_codes) (newline @ rev s) = strip_codes (map rev whitespace_codes) (rev s)"
  proof (rule strip_code_step)
    show "newline \<in> set (map rev whitespace_codes)" by code_simp
    fix v s
    assume "v \<in> set (map rev whitespace_codes)" "v \<noteq> []" "prefix v (newline @ s)"
    then have "list_ex (\<lambda>w. v = w \<and> hd w = hd newline) (map rev whitespace_codes)"
      by (auto simp: list_ex_iff prefix_Cons newline_def)
    moreover have "list_all (\<lambda>w. hd w = hd newline \<longrightarrow> w = newline) (map rev whitespace_codes)" by code_simp
    ultimately show "v = newline" by (auto simp: list_ex_iff list_all_iff)
  qed (simp add: newline_def)
  also have "\<dots> = rev s"
    using assms strip_codes_same [of "map rev whitespace_codes" "last s" "tl (rev s)"]
    by (simp add: ws_free_def list_all_iff hd_rev [symmetric])
  finally have "strip_codes (map rev whitespace_codes) (newline @ rev s) = rev s" .
  moreover have "rev (s @ newline) = newline @ rev s" by (simp add: newline_def)
  ultimately show ?thesis by (simp add: trim_def start trim_end_def)
qed

lemma cli_query_reads:
  assumes "json_text_ok jt"
    and "reconcile_discovery_for_query env (st, w) = (background, s1)"
    and "refresh_stale_cache_for_query env s1 = (st2, w2)"
    and "build_query_response (views w2) names (la_cache st2) (co_node_filter opts) (co_user_filter opts) = (names', resp)"
    and "meta_ok (ar_meta resp)" "\<forall>n \<in> set (ar_nodes resp). node_times_ok n"
  shows "query_stream jt (local_api_peer env (api_codec_of jt views)) () opts ([], names, st, w) = (Ok resp, [], names', st2, w2)"
proof -
  obtain req where req: "jt_print jt (request_to_json (co_node_filter opts) (co_user_filter opts)) = ''{'' @ req @ ''}''"
    using assms(1) by (auto simp: json_text_ok_def request_to_json_def)
  obtain answer where answer: "jt_print jt (response_to_json resp) = ''{'' @ answer @ ''}''"
    using assms(1) by (auto simp: json_text_ok_def response_to_json_def)
  have parse: "jt_parse jt (''{'' @ req @ ''}'') = Some (request_to_json (co_node_filter opts) (co_user_filter opts))"
      "jt_parse jt (''{'' @ answer @ ''}'') = Some (response_to_json resp)"
    using assms(1) unfolding json_text_ok_def req [symmetric] answer [symmetric] by blast+
  have reads: "response_from_json (response_to_json resp) = Some resp"
    using assms(5,6) read_list_map [of "ar_nodes resp" node_from_json node_to_json]
    by (simp add: response_from_json_def response_to_json_def json_fields_simps json_simps)
  have line: "build_query_command jt opts = (''QUERY {'' @ req @ ''}'') @ newline"
    by (simp add: build_query_command_def req)
  have "trim (''QUERY {'' @ req @ ''}'' @ newline) = ''QUERY {'' @ req @ ''}''"
    using trim_newline_end [of "''QUERY {'' @ req @ ''}''"] by simp
  moreover have "trim ('' {'' @ req @ ''}'') = ''{'' @ req @ ''}''"
    using trim_blank_front [of "''{'' @ req @ ''}''"] trim_object [of req] by simp
  ultimately have "handle_command False env (api_codec_of jt views) (trim (build_query_command jt opts)) (names, st, w)
      = (Ok (''{'' @ answer @ ''}'' @ newline), background, names', st2, w2)"
    unfolding line
    using parse(1) assms(2-4)
    by (simp add: handle_command_def strip_prefix_def handle_query_command_def parse_query_request_def api_codec_of_def
        request_roundtrip answer_query_def answer)
  then have "handle_client False env (api_codec_of jt views) (\<lambda>_. None) [Ok (build_query_command jt opts)] (names, st, w)
      = ([''{'' @ answer @ ''}'' @ newline], Ok (), names', st2, w2)"
    by simp
  moreover have "trim (''{'' @ answer @ ''}'' @ newline) = ''{'' @ answer @ ''}''"
    using trim_newline_end [of "''{'' @ answer @ ''}''"] by simp
  ultimately show ?thesis
    using parse(2) by (simp add: query_stream_def local_api_peer_def decode_response_def reads)
qed


lemma demo_json_ok: "json_text_ok demo_json"
  by (simp add: json_text_ok_def demo_json_def)


section \<open>The exit\<close>

text \<open>Where the client cannot reach a backend at all, on a system without Unix sockets, its message
  begins like the version text: the program prints it to standard output and exits with success.\<close>

theorem unsupported_platform_exits_with_success:
  assumes "parse_args args = Ok opts"
  shows "main_cli False env jt net tm args w =
    Some (\<lparr>cx_code = 0, cx_stdout = unsupported_backend @ newline, cx_stderr = []\<rparr>, w)"
proof -
  have ended: "exit_of (Err (Refused unsupported_backend)) = \<lparr>cx_code = 0, cx_stdout = unsupported_backend @ newline, cx_stderr = []\<rparr>"
    by (simp add: exit_of_def starts_with_def unsupported_backend_def)
  have "run_cli False env jt net tm args w = Some (Err (Refused unsupported_backend), w)"
    using assms
    by (simp add: run_cli_def connect_backend_def query_backend_def run_refresh_loop_def refresh_loop.simps refresh_round_def Let_def)
  then show ?thesis by (simp add: main_cli_def ended)
qed

theorem unsupported_platform_exits_with_success_witness:
  "main_cli False demo_cli_env demo_json (local_api_peer (client_env demo_setup) demo_api) demo_terminal [] ([], Map.empty, fresh_state, demo_world) =
    Some (\<lparr>cx_code = 0, cx_stdout = unsupported_backend @ newline, cx_stderr = []\<rparr>, ([], Map.empty, fresh_state, demo_world))"
  by (rule unsupported_platform_exits_with_success) (simp add: parse_args_def cli_options_default_def)

end
