(* ===== verification/Cluster.thy ===== *)
theory Cluster
  imports End_To_End Cli_Display Cli_Session
begin

text \<open>
  The whole system for one query: the command line client, the local API of the client backend, its
  UDP connection, the network, and the server with its cache. The server and the network are the
  ones of \<^verbatim>\<open>End_To_End\<close>, the backend is the one of \<^verbatim>\<open>Client_Backend\<close> with its real
  connections, the command line client the one of \<^verbatim>\<open>Cli_Backend\<close>.
\<close>

section \<open>A server that answers over UDP\<close>

text \<open>The datagrams \<open>steps\<close> that reach the client are a server's answer to its next query, mixed with
  duplicates and late replies, and the server answers from \<open>snapshot\<close> in its cache, of which the
  client has the current metadata.\<close>

definition server_answers ::
    "'h crc32 \<Rightarrow> client_codecs \<Rightarrow> nat \<Rightarrow> instant \<Rightarrow> ConnectedUdpNode \<Rightarrow> recv_step list \<Rightarrow> ServerGresSnapshot \<Rightarrow> bool" where
  "server_answers crc cc timeout now node steps snapshot \<longleftrightarrow>
     (\<exists>ctx env srv peer d c' entry response srv' ds.
        codecs_agree (tx_codecs ctx) cc \<and> crc_streaming crc \<and> server_wf srv \<and> cap_of env srv peer \<le> 65503
        \<and> encode_udp_single_chunk_from_parts crc QueryRequest (un_next_request_id node) [] = Ok d
        \<and> cache_lookup ctx (ue_first_lookup env) (us_cache srv) = (c', Some (Ok entry))
        \<and> handle_query ctx (ue_first_lookup env) (us_cache srv) (un_next_request_id node) [] = (c', Some (Ok response))
        \<and> length response \<le> cap_of env srv peer
        \<and> udp_receive crc ctx env srv peer d = Some (srv', ds)
        \<and> arrives crc (un_next_request_id node) timeout now ds steps
        \<and> un_metadata node = metadata_from_snapshot (ce_snapshot entry)
        \<and> distinct (map gi_index (ss_gres (ce_snapshot entry)))
        \<and> snapshot = ce_snapshot entry)"

lemma server_answers_query:
  "server_answers crc cc timeout now node steps snapshot \<Longrightarrow>
    \<exists>out node' rest. Udp_Client.query_connected crc cc (\<lambda>_. None) timeout now now' node steps = (out, node', Some (Ok snapshot), rest)"
proof -
  assume "server_answers crc cc timeout now node steps snapshot"
  then obtain ctx env srv peer d c' entry response srv' ds where
    "codecs_agree (tx_codecs ctx) cc" "crc_streaming crc" "server_wf srv" "cap_of env srv peer \<le> 65503"
    "encode_udp_single_chunk_from_parts crc QueryRequest (un_next_request_id node) [] = Ok d"
    "cache_lookup ctx (ue_first_lookup env) (us_cache srv) = (c', Some (Ok entry))"
    "handle_query ctx (ue_first_lookup env) (us_cache srv) (un_next_request_id node) [] = (c', Some (Ok response))"
    "length response \<le> cap_of env srv peer"
    "udp_receive crc ctx env srv peer d = Some (srv', ds)"
    "arrives crc (un_next_request_id node) timeout now ds steps"
    "un_metadata node = metadata_from_snapshot (ce_snapshot entry)"
    "distinct (map gi_index (ss_gres (ce_snapshot entry)))" and snapshot: "snapshot = ce_snapshot entry"
    unfolding server_answers_def by blast
  from udp_query_delivered [OF this(1-12), of now'] show ?thesis unfolding snapshot by blast
qed

section \<open>The backend in front of it\<close>

lemma live_query_answered:
  assumes "live_of h w = Some (LiveUdp node p)" "pe_send p = (\<lambda>_. None)"
    and "server_answers (cs_crc s) (cs_codecs s) (cs_timeout_ns s) (cw_clock_ns w) node (pe_datagrams p) snapshot"
  shows "\<exists>w'. live_query s h w = (Ok snapshot, w') \<and> cw_clock_ns w' = cw_clock_ns w + pe_ns p"
proof -
  obtain out node' rest where "Udp_Client.query_connected (cs_crc s) (cs_codecs s) (pe_send p) (cs_timeout_ns s) (cw_clock_ns w)
      (cw_clock_ns w) node (pe_datagrams p) = (out, node', Some (Ok snapshot), rest)"
    using server_answers_query [OF assms(3)] assms(2) by metis
  with assms(1) show ?thesis by (simp add: live_query_def set_live_def)
qed

text \<open>The entry that the query leaves in the cache: the snapshot with the time and the latency of the
  exchange.\<close>

definition queried_entry :: "nat \<Rightarrow> nat \<Rightarrow> ConnectionCacheEntry \<Rightarrow> ServerGresSnapshot \<Rightarrow> ConnectionCacheEntry" where
  "queried_entry started took e snapshot =
     entry_from_snapshot (int (started + took) div 1000000) (cn_connection_id e) (cn_addr e) snapshot
       (Some (word_of_nat (min (took div 1000) (2 ^ 64 - 1))))"

lemma refresh_answered:
  assumes "stale_targets (be_now_ms (client_env s) w) (la_cache_ttl_ms st) (la_cache st) = [refresh_target e]"
    and "map_of (la_connections st) (cn_addr e) = Some h"
    and "live_of h w = Some (LiveUdp node p)" "pe_send p = (\<lambda>_. None)"
    and "server_answers (cs_crc s) (cs_codecs s) (cs_timeout_ns s) (cw_clock_ns w) node (pe_datagrams p) snapshot"
  shows "\<exists>w'. refresh_stale_cache_for_query (client_env s) (st, w) =
    (st\<lparr>la_cache := AList.update (cache_key (cn_addr e)) (queried_entry (cw_clock_ns w) (pe_ns p) e snapshot) (la_cache st)\<rparr>, w')"
proof -
  obtain w' where "live_query s h w = (Ok snapshot, w')" "cw_clock_ns w' = cw_clock_ns w + pe_ns p"
    using live_query_answered [OF assms(3-5)] by blast
  with assms(1,2) show ?thesis
    by (simp add: refresh_stale_cache_for_query_def refresh_one_def target_connection_def query_target_def
        refresh_target_def client_env_def upsert_snapshot_def queried_entry_def)
qed

section \<open>The client in front of the backend\<close>

lemma entry_times_ok:
  assumes "- (2 ^ 63) \<le> cn_record_timestamp e" "cn_record_timestamp e < 2 ^ 63" "- (2 ^ 63) \<le> ve_now env" "ve_now env < 2 ^ 63"
  shows "node_times_ok (snd (node_view_from_entry env c e))"
  using assms
  by (auto simp: node_times_ok_def node_view_from_entry_def node_view_from_snapshot_def parse_payload_view_def
      case_prod_beta Let_def split: option.splits)

lemma unfiltered_response:
  assumes "build_query_response env Map.empty rows None None = (names', resp)"
  shows "set (ar_nodes resp) = (\<lambda>e. snd (node_view_from_entry env Map.empty e)) ` set (map snd rows)"
    and "qm_timestamp_ms (ar_meta resp) = ve_now env" "qm_node_count (ar_meta resp) = length rows"
proof -
  have all: "filter (\<lambda>e. entry_matches_filter e (node_filter_parse None)) xs = xs" for xs
    by (simp add: entry_matches_filter_def matches_target_def node_filter_parse_def filter_id_conv)
  have none: "apply_user_filter None = (\<lambda>n. n)" by (rule ext) (simp add: apply_user_filter_def)
  have "snd (map_with (node_view_from_entry env) Map.empty (map snd rows)) =
      map (\<lambda>e. snd (node_view_from_entry env Map.empty e)) (map snd rows)"
    using memo_safeD [OF memo_safe_map [OF node_memo] names_ok_empty] by blast
  then have "ar_nodes resp = sort_key nv_connection_id (map (\<lambda>e. snd (node_view_from_entry env Map.empty e)) (map snd rows))"
      "qm_timestamp_ms (ar_meta resp) = ve_now env" "qm_node_count (ar_meta resp) = length (ar_nodes resp)"
    using assms by (auto simp: build_query_response_def all none Let_def case_prod_beta)
  then show "set (ar_nodes resp) = (\<lambda>e. snd (node_view_from_entry env Map.empty e)) ` set (map snd rows)"
      "qm_timestamp_ms (ar_meta resp) = ve_now env" "qm_node_count (ar_meta resp) = length rows"
    by (simp_all add: image_image)
qed

lemma table_contains_node: "n \<in> set nodes \<Longrightarrow>
    contains (render_table r lt nodes user opts)
      (render_node r lt (gresname_width r nodes user (ro_gresname_width opts)) user opts (ro_color opts) n)"
proof -
  assume "n \<in> set nodes"
  then obtain xs ys where nodes: "nodes = xs @ n # ys" by (auto simp: in_set_conv_decomp)
  have "contains (concat (map f nodes)) (f n)" for f :: "NodeView \<Rightarrow> string"
    unfolding contains_iff nodes by (intro exI [of _ "concat (map f xs)"] exI [of _ "concat (map f ys)"]) simp
  then show ?thesis by (simp add: render_table_def Let_def)
qed

text \<open>Times that fit into 64 bits, and a cache of a possible size.\<close>

definition sizes_ok :: "CacheMap \<Rightarrow> nat \<Rightarrow> (client_world \<Rightarrow> view_env) \<Rightarrow> bool" where
  "sizes_ok rows finished views \<longleftrightarrow>
     (\<forall>e \<in> set (map snd rows). - (2 ^ 63) \<le> cn_record_timestamp e \<and> cn_record_timestamp e < 2 ^ 63)
     \<and> int finished div 1000000 < 2 ^ 63 \<and> length rows + 1 < 2 ^ 64
     \<and> (\<forall>w. - (2 ^ 63) \<le> ve_now (views w) \<and> ve_now (views w) < 2 ^ 63)"

lemma updated_rows:
  fixes k e snapshot
  assumes "sizes_ok rows (started + took) views"
  defines "rows' \<equiv> AList.update k (queried_entry started took e snapshot) rows"
  shows "queried_entry started took e snapshot \<in> set (map snd rows')" "length rows' < 2 ^ 64"
    and "x \<in> set (map snd rows') \<Longrightarrow> - (2 ^ 63) \<le> cn_record_timestamp x \<and> cn_record_timestamp x < 2 ^ 63"
proof -
  show "queried_entry started took e snapshot \<in> set (map snd rows')"
    unfolding rows'_def by (induction rows) auto
  have "length rows' \<le> length rows + 1"
    unfolding rows'_def by (induction rows) auto
  then show "length rows' < 2 ^ 64" using assms(1) by (simp add: sizes_ok_def)
  have "set (map snd rows') \<subseteq> insert (queried_entry started took e snapshot) (set (map snd rows))"
    unfolding rows'_def by (induction rows) auto
  moreover have "- (2 ^ 63) \<le> (0 :: int)" "(0 :: int) \<le> int (started + took) div 1000000" by simp_all
  ultimately show "- (2 ^ 63) \<le> cn_record_timestamp x \<and> cn_record_timestamp x < 2 ^ 63" if "x \<in> set (map snd rows')"
    using that assms(1) unfolding sizes_ok_def queried_entry_def entry_from_snapshot_def by fastforce
qed


text \<open>The example: one node, known from a discovery but not queried yet, with a connection in the pool.\<close>

definition cluster_setup :: "u32 client_setup" where
  "cluster_setup = demo_setup\<lparr>cs_codecs := pair_client, cs_timeout_ns := 50\<rparr>"

definition cluster_addr :: SocketAddr where
  "cluster_addr = V4 0x0a000001 30000"

definition cluster_state :: "handle LocalApiState" where
  "cluster_state = (local_api_state_new (build_cache [\<lparr>dn_hostname = ''node-a'', dn_addr = cluster_addr, dn_ts_ms = 0\<rparr>])
     1000 ''udp'' 0 [] 5 5 5 1 [])\<lparr>la_connections := [(cluster_addr, (0, cluster_addr))]\<rparr>"

definition cluster_world :: "recv_step list \<Rightarrow> client_world" where
  "cluster_world steps = demo_world\<lparr>cw_live := [LiveUdp Udp_Client.demo_node (silent_peer\<lparr>pe_datagrams := steps\<rparr>)]\<rparr>"

lemma pair_answers:
  "\<exists>steps. server_answers sum_crc pair_client 50 0 Udp_Client.demo_node steps (omit_process_commands sample_snapshot)"
proof -
  obtain d d' s' where ex: "encode_udp_single_chunk_from_parts sum_crc QueryRequest (un_next_request_id Udp_Client.demo_node) [] = Ok d"
      "udp_receive sum_crc pair_ctx demo_udp_env (udp_server_new gres_cache_new) (V4 1 2) d = Some (s', [d'])"
      "arrives sum_crc (un_next_request_id Udp_Client.demo_node) 50 0 [d'] (pair_steps d')"
    using pair_exchange by blast
  have "length (encode_transport_frame RuntimePayload 9 [3, 4]) \<le> 1440" by (simp add: FRAME_HEADER_LEN_def)
  moreover have "un_metadata Udp_Client.demo_node = metadata_from_snapshot (ce_snapshot pair_entry)"
      "distinct (map gi_index (ss_gres (ce_snapshot pair_entry)))"
    using distinct_sample by (simp_all add: Udp_Client.demo_node_def pair_entry_def)
  ultimately have "server_answers sum_crc pair_client 50 0 Udp_Client.demo_node (pair_steps d') (ce_snapshot pair_entry)"
    unfolding server_answers_def
    using pair_agrees sum_crc_streaming udp_server_new_wf [OF gres_cache_new_wf] pair_cap ex pair_server
    by (intro exI [of _ pair_ctx] exI [of _ demo_udp_env] exI [of _ "udp_server_new gres_cache_new"] exI [of _ "V4 1 2"]
        exI [of _ d] exI [of _ "refreshed gres_cache_new (Ok sample_snapshot) (le_times demo_env)"] exI [of _ pair_entry]
        exI [of _ "encode_transport_frame RuntimePayload 9 [3, 4]"] exI [of _ s'] exI [of _ "[d']"] conjI) simp_all
  then show ?thesis by (auto simp: pair_entry_def)
qed


end
