(* ===== verification/Utf8_Output.thy ===== *)
theory Utf8_Output
  imports Cli_Display
begin

text \<open>
  The strings of the program are UTF-8: the invariant of Rust's string type for the text that the
  command line client prints. The model's strings are lists of bytes, so that cutting a name in the
  middle of a character would be visible here.
\<close>

section \<open>Strings\<close>

definition is_str :: "string \<Rightarrow> bool" where
  "is_str s \<longleftrightarrow> valid_utf8 (as_bytes s)"

named_theorems str_intro \<open>operations that keep strings UTF-8\<close>

lemma step_ok:
  assumes "utf8_step x bs = (n, True)"
  shows "utf8_step x (bs @ cs) = (n, True)" "0 < n" "n - 1 \<le> length bs"
    and "\<not> (128 \<le> unat x \<and> unat x < 192)" "i < n - 1 \<Longrightarrow> 128 \<le> unat (bs ! i) \<and> unat (bs ! i) < 192"
proof -
  have cont: "is_cont bs j \<Longrightarrow> j < length bs \<and> 128 \<le> unat (bs ! j) \<and> unat (bs ! j) < 192"
    "is_cont bs j \<Longrightarrow> is_cont (bs @ cs) j" for j
    by (auto simp: is_cont_def nth_append)
  have second: "second_ok b bs \<Longrightarrow> bs \<noteq> [] \<and> 128 \<le> unat (bs ! 0) \<and> unat (bs ! 0) < 192"
    "second_ok b bs \<Longrightarrow> second_ok b (bs @ cs)" for b
    by (auto simp: second_ok_def Let_def hd_conv_nth [symmetric] hd_append2 split: if_splits)
  note assms [unfolded utf8_step_def Let_def]
  then show "utf8_step x (bs @ cs) = (n, True)" "0 < n" "n - 1 \<le> length bs" "\<not> (128 \<le> unat x \<and> unat x < 192)"
    using cont(1) [of 0] cont(1) [of 1] cont(1) [of 2] second(1)
    by (auto simp: utf8_step_def Let_def cont(2) second(2) Suc_le_eq split: if_splits)
  assume "i < n - 1"
  with assms show "128 \<le> unat (bs ! i) \<and> unat (bs ! i) < 192"
    using cont(1) [of 0] cont(1) [of 1] cont(1) [of 2] second(1)
    by (auto simp: utf8_step_def Let_def less_Suc_eq numeral_3_eq_3 numeral_2_eq_2 split: if_splits)
qed

lemma step_local:
  assumes "utf8_step x bs = (n, True)"
  shows "utf8_step x (take (n - 1) bs) = (n, True)"
proof -
  have cont: "is_cont bs j \<Longrightarrow> j < k \<Longrightarrow> is_cont (take k bs) j" for j k
    by (auto simp: is_cont_def)
  have second: "second_ok b bs \<Longrightarrow> 0 < k \<Longrightarrow> second_ok b (take k bs)" for b k
    by (cases bs; cases k) (auto simp: second_ok_def)
  from assms show ?thesis
    by (auto simp: utf8_step_def Let_def cont second split: if_splits)
qed

lemma valid_step:
  "valid_utf8 (x # bs) \<longleftrightarrow> (\<exists>n. utf8_step x bs = (n, True) \<and> valid_utf8 (drop (n - 1) bs))"
proof -
  obtain n ok where step: "utf8_step x bs = (n, ok)" by fastforce
  then have "0 < n" using utf8_step_pos [of x bs] by simp
  then obtain m where "n = Suc m" by (cases n) auto
  with step show ?thesis by (simp add: valid_utf8.simps(2))
qed

lemma valid_append: "valid_utf8 as \<Longrightarrow> valid_utf8 (as @ bs) = valid_utf8 bs"
proof (induction as rule: valid_utf8.induct)
  case (2 x as)
  then obtain n where n: "utf8_step x as = (n, True)" "valid_utf8 (drop (n - 1) as)" by (auto simp: valid_step)
  note step = step_ok [OF n(1)]
  have "drop n (x # as) = drop (n - 1) as" using step(2) by (cases n) simp_all
  then have "valid_utf8 (drop (n - 1) as @ bs) = valid_utf8 bs" using 2(1) n by fastforce
  then show ?case using step(1) [of bs] step(3) by (simp add: valid_step)
qed simp

lemma str_append [str_intro]: "is_str s \<Longrightarrow> is_str t \<Longrightarrow> is_str (s @ t)"
  by (simp add: is_str_def as_bytes_def valid_append)

lemma str_append_iff: "is_str s \<Longrightarrow> is_str (s @ t) = is_str t"
  by (simp add: is_str_def as_bytes_def valid_append)

lemma str_Nil [str_intro, simp]: "is_str []"
  by (simp add: is_str_def as_bytes_def)

lemma str_concat [str_intro]: "(\<And>x. x \<in> set ss \<Longrightarrow> is_str x) \<Longrightarrow> is_str (concat ss)"
  by (induction ss) (auto intro: str_append)

lemma byte_char: "unat (of_char c :: byte) = of_char c"
proof -
  have "unat (word_of_nat (of_char c) :: byte) = of_char c"
    by (simp add: unat_word_of_length nat_of_char_less_256)
  then show ?thesis by (simp add: of_nat_of_char)
qed

lemma str_ascii: "(of_char c :: nat) < 128 \<Longrightarrow> is_str s \<Longrightarrow> is_str (c # s)"
proof -
  assume "(of_char c :: nat) < 128" "is_str s"
  then show ?thesis by (simp add: is_str_def as_bytes_def valid_step utf8_step_def byte_char)
qed

section \<open>Characters of a string\<close>

lemma str_starts [simp]: "is_str s \<Longrightarrow> starts_char s"
  by (cases s) (auto simp: is_str_def as_bytes_def valid_step continues_char_def byte_char Let_def dest!: step_ok(4))

lemma str_first:
  assumes "is_str (c # s)"
  obtains m where "takeWhile continues_char s = take m s" "dropWhile continues_char s = drop m s"
    "is_str (c # take m s)" "is_str (drop m s)"
proof -
  from assms obtain n where n: "utf8_step (of_char c) (as_bytes s) = (n, True)" "valid_utf8 (drop (n - 1) (as_bytes s))"
    by (auto simp: is_str_def as_bytes_def valid_step)
  let ?m = "n - 1"
  have len: "?m \<le> length s" using step_ok(3) [OF n(1)] by (simp add: as_bytes_def)
  have rest: "is_str (drop ?m s)" using n(2) by (simp add: is_str_def as_bytes_def drop_map)
  have "continues_char x" if "x \<in> set (take ?m s)" for x
  proof -
    from that obtain i where i: "i < ?m" "x = s ! i" by (auto simp: in_set_conv_nth)
    with step_ok(5) [OF n(1) i(1)] len show ?thesis by (simp add: as_bytes_def continues_char_def byte_char)
  qed
  then have "takeWhile continues_char (take ?m s @ drop ?m s) = take ?m s"
      "dropWhile continues_char (take ?m s @ drop ?m s) = drop ?m s"
    using rest by (simp_all only: takeWhile_append2 dropWhile_append2 starts_takeWhile starts_dropWhile str_starts append_Nil2)
  moreover have "is_str (c # take ?m s)"
    using step_local [OF n(1)] by (simp add: is_str_def as_bytes_def valid_step take_map)
  ultimately show ?thesis using that [of ?m] rest by simp
qed

lemma str_pieces: "is_str s \<Longrightarrow> p \<in> set (utf8_chars s) \<Longrightarrow> is_str p"
proof (induction s rule: utf8_chars.induct)
  case (2 c s)
  from 2(2) obtain m where "takeWhile continues_char s = take m s" "dropWhile continues_char s = drop m s"
    "is_str (c # take m s)" "is_str (drop m s)" by (rule str_first)
  with 2 show ?case by auto
qed simp

lemma str_cut:
  assumes "is_str (s @ w)" "starts_char w"
  shows "is_str s"
proof -
  have "is_str p" if "p \<in> set (utf8_chars s)" for p
    using str_pieces [OF assms(1)] that by (simp add: utf8_chars_append [OF assms(2)])
  then have "is_str (concat (utf8_chars s))" by (rule str_concat)
  then show ?thesis by simp
qed

lemma str_ellipsis: "is_str ellipsis" "is_str degree_sign"
  by code_simp+

lemma str_shorten [str_intro]: "is_str s \<Longrightarrow> is_str (shorten_left s w)"
proof -
  assume s: "is_str s"
  have "is_str (concat (rev (take k (rev (utf8_chars s)))))" for k
    using set_take_subset [of k "rev (utf8_chars s)"] s by (intro str_concat str_pieces [OF s]) auto
  with s show ?thesis by (auto simp: shorten_left_def Let_def intro: str_append str_ellipsis)
qed

section \<open>Trimming\<close>

lemma str_codes: "w \<in> set whitespace_codes \<Longrightarrow> is_str w"
proof -
  have "list_all is_str whitespace_codes" by code_simp
  then show "w \<in> set whitespace_codes \<Longrightarrow> is_str w" by (simp add: list_all_iff)
qed

lemma str_strip_front: "is_str s \<Longrightarrow> \<forall>w \<in> set ws. is_str w \<Longrightarrow> is_str (strip_codes ws s)"
proof (induction ws s rule: strip_codes.induct)
  case (1 ws s)
  show ?case
  proof (cases "find (\<lambda>w. w \<noteq> [] \<and> prefix w s) ws")
    case None
    with 1 show ?thesis by (simp add: strip_codes.simps [of ws s])
  next
    case (Some w)
    then have w: "w \<in> set ws" "prefix w s" by (auto simp: find_Some_iff)
    then obtain r where "s = w @ r" by (auto simp: prefix_def)
    with 1 Some w show ?thesis by (simp add: strip_codes.simps [of ws "w @ r"] str_append_iff)
  qed
qed

lemma str_strip_back:
  "is_str (rev s) \<Longrightarrow> \<forall>w \<in> set ws. is_str w \<Longrightarrow> is_str (rev (strip_codes (map rev ws) s))"
proof (induction "map rev ws" s rule: strip_codes.induct)
  case (1 s)
  show ?case
  proof (cases "find (\<lambda>w. w \<noteq> [] \<and> prefix w s) (map rev ws)")
    case None
    with 1 show ?thesis by (simp add: strip_codes.simps [of "map rev ws" s])
  next
    case (Some v)
    then have v: "v \<in> set (map rev ws)" "prefix v s" by (auto simp: find_Some_iff)
    then obtain r w where s: "s = v @ r" "v = rev w" "w \<in> set ws" by (auto simp: prefix_def)
    with 1(2,3) have "is_str (rev r)" by (auto intro: str_cut)
    with 1 Some s show ?thesis by (simp add: strip_codes.simps [of "map rev ws" "rev w @ r"])
  qed
qed

lemma str_trim [str_intro]: "is_str s \<Longrightarrow> is_str (trim s)"
  unfolding trim_def trim_end_def trim_start_def
  by (rule str_strip_back) (simp_all add: str_strip_front str_codes)

section \<open>The table\<close>

lemma str_ascii_iff [simp]: "(of_char c :: nat) < 128 \<Longrightarrow> is_str (c # s) = is_str s"
  using str_append_iff [of "[c]" s] str_ascii [of c "[]"] by simp

lemmas str_simps [simp] = str_append_iff str_ellipsis str_shorten str_trim

lemma str_nat [simp]: "is_str (nat_to_string n)"
proof -
  have "is_str s" if "list_all is_ascii_digit s" for s
    using that by (induction s) (auto simp: is_ascii_digit_def Let_def)
  then show ?thesis using nat_to_string_digits by blast
qed

lemma str_replicate [simp]: "(of_char c :: nat) < 128 \<Longrightarrow> is_str (replicate n c)"
  by (induction n) simp_all

lemma str_pads [simp]: "(of_char c :: nat) < 128 \<Longrightarrow> is_str s \<Longrightarrow> is_str (pad_left c n s)" "is_str s \<Longrightarrow> is_str (pad_right n s)"
  by (simp_all add: pad_left_def pad_right_def)

lemma str_paint [simp]: "is_str text \<Longrightarrow> is_str style \<Longrightarrow> is_str (paint en style text)"
  by (simp add: paint_def escape_char)

lemma str_palette [simp]:
  assumes "is_str text"
  shows "is_str (bold_white en text)" "is_str (bold_black en text)" "is_str (bold_red en text)" "is_str (red en text)"
    "is_str (blue en text)" "is_str (cyan en text)" "is_str (green en text)" "is_str (bold_green en text)"
    "is_str (yellow en text)" "is_str (bold_yellow en text)"
  using assms by (simp_all add: palette_defs)

lemma str_line_end [simp]: "is_str line_end"
  by code_simp

definition str_process :: "ProcessView \<Rightarrow> bool" where
  "str_process p \<longleftrightarrow> is_str (pv_username p) \<and> pred_option is_str (pv_command p)"

definition str_gres :: "GresView \<Rightarrow> bool" where
  "str_gres g \<longleftrightarrow> is_str (gv_name g) \<and> pred_option (list_all str_process) (gv_processes g)"

definition str_node :: "NodeView \<Rightarrow> bool" where
  "str_node n \<longleftrightarrow> is_str (nv_hostname n) \<and> pred_option is_str (nv_driver_version n) \<and> pred_option is_str (nv_error n)
     \<and> list_all str_gres (nv_gres n)"

lemma str_display: "(\<And>uid. pred_option is_str (resolve uid)) \<Longrightarrow> str_process p \<Longrightarrow> is_str (display_username resolve p)"
  by (auto simp: display_username_def user_name_def cli_username_for_uid_def str_process_def Let_def option.pred_set
      split: option.split)

lemma str_format_process:
  assumes "\<And>uid. pred_option is_str (resolve uid)" "str_process p"
  shows "is_str (format_process resolve p opts en)"
proof -
  have "is_str (case map_option trim (pv_command p) of Some c \<Rightarrow> (if c = [] then ''--'' else c) | None \<Rightarrow> ''--'')"
    using assms(2) by (auto simp: str_process_def option.pred_set split: option.split)
  with str_display [OF assms] show ?thesis
    by (auto simp: format_process_def Let_def)
qed

lemma str_row:
  assumes "\<And>uid. pred_option is_str (resolve uid)" "str_gres g"
  shows "is_str (render_gres_row resolve g user w opts en)"
proof -
  have "str_process p" if "p \<in> set (visible_processes resolve user g)" for p
    using that assms(2)
    by (cases "gv_processes g") (auto simp: visible_processes_def str_gres_def list_all_iff split: option.splits)
  then have processes: "is_str (concat (map (\<lambda>p. '' '' @ format_process resolve p opts en) (visible_processes resolve user g)))"
    using str_format_process [OF assms(1)] by (intro str_concat) auto
  have name: "is_str (name_column g w)"
    using assms(2) by (simp add: name_column_def gres_name_def str_gres_def)
  have temperature: "is_str (temperature_text g en)"
    by (auto simp: temperature_text_def Let_def split: option.split)
  have "is_str (utilization_text g en)"
    by (simp add: utilization_text_def Let_def)
  with processes name temperature show ?thesis
    by (simp add: render_gres_row_def)
qed

lemma str_delay: "format_delay d = Some t \<Longrightarrow> is_str t"
  by (auto simp: format_delay_def two_decimals_def Let_def split: if_splits)

lemma str_header:
  assumes "\<And>ts. pred_option is_str (local_time ts)" "str_node n"
  shows "is_str (render_node_header local_time n w opts en)"
proof -
  have "is_str (format_snapshot_time local_time (nv_timestamp_ms n))"
    using assms(1) [of "nv_timestamp_ms n"] by (auto simp: format_snapshot_time_def split: option.split)
  moreover have "is_str (case nv_driver_version n of Some d \<Rightarrow> (if trim d = [] then [] else ''  '' @ bold_black en d) | None \<Rightarrow> [])"
    using assms(2) by (auto simp: str_node_def split: option.split)
  moreover have "is_str (case format_delay (nv_delay_us n) of Some d \<Rightarrow> ''  '' @ cyan en (''delay='' @ d) | None \<Rightarrow> [])"
    by (auto simp: str_delay split: option.split)
  moreover have "is_str (case nv_error n of Some e \<Rightarrow> ''  '' @ e | None \<Rightarrow> [])"
    using assms(2) by (auto simp: str_node_def split: option.split)
  ultimately show ?thesis
    using assms(2) by (simp add: render_node_header_def str_node_def)
qed



end
