(* ===== verification/Spec2Isabelle.thy ===== *)
theory Spec2Isabelle
  imports Udp_Reassembly Cache_Concurrency Udp_Server Tcp_Server Server_Startup
    End_To_End Pool_Concurrency Cluster Utf8_Output
begin

text \<open>
  Verification of gpustat4cluster, a GPU monitor for clusters. A \<^verbatim>\<open>clustat-server\<close> on each node
  collects the state of its GPUs, caches it for a few milliseconds and answers queries over UDP or
  TCP. A \<^verbatim>\<open>clustat-backend\<close> on the user's machine discovers the servers, keeps a pool of
  connections and a cache of snapshots, and serves a local API on a Unix socket. The command
  \<^verbatim>\<open>clustat\<close> asks the backend and prints a table or JSON. The sources are under
  \<^verbatim>\<open>src/crates\<close>: \<^verbatim>\<open>common\<close>, \<^verbatim>\<open>server\<close>, \<^verbatim>\<open>client-backend\<close> and
  \<^verbatim>\<open>client-cli\<close>; paths below are relative to it.

  \<^bold>\<open>How the code is modelled.\<close> A struct is a record, an enum a datatype, a fixed-width integer a
  word of its width, a \<^verbatim>\<open>Result\<close> a sum with \<open>Err\<close> and \<open>Ok\<close>, a panic the value \<open>None\<close> or a
  constructor of its own. A string is the list of its UTF-8 bytes. State is passed explicitly;
  shared state with several threads is a step relation whose steps are the critical sections of
  the code. What comes from outside the repository is an argument: the rkyv archives, CRC-32,
  the JSON and TOML texts, NVML, \<open>getent\<close>, calendar time, and the results of socket and file
  calls. Sockets are given by what they receive: a list of datagrams with their times, a stream of
  bytes with its end. Where a property needs more of such an argument than its type, the
  hypothesis says so (\<open>rkyv_codec\<close>, \<open>crc_streaming\<close>, \<open>json_text_ok\<close>), and the property's
  witness instantiates it.

  \<^bold>\<open>Shared theories.\<close>
  \<^item> \<open>Prelude\<close>: results and their combinators, slices and chunks of lists, big-endian integers
    (the locale \<open>int_field\<close>, interpreted at each width), saturating arithmetic.
  \<^item> \<open>Rust_Std\<close>, \<open>Rust_Text\<close>, \<open>Rust_Float\<close>: what the program uses of the standard library for
    trimming, splitting, numbers, UTF-8 and floating point.
  \<^item> \<open>Net_Addr\<close>, \<open>Net_Text\<close>: addresses, their printing and parsing.

  \<^bold>\<open>The protocol\<close> (\<^verbatim>\<open>common/src\<close>).
  \<^item> \<open>Error_Codes\<close> (\<^verbatim>\<open>error.rs\<close>), \<open>Frames\<close> and \<open>Snapshots\<close> (\<^verbatim>\<open>protocol.rs\<close>): frame
    headers, payload envelopes, versions; snapshots, their split into metadata and runtime part,
    the metadata hash. Frames and the split are proved to round-trip, the hash to read an injective
    byte stream of the metadata. The locale \<open>header_codec\<close> states what a fixed header layout
    promises; it is interpreted for the frame header and for the datagram header.
  \<^item> \<open>Udp_Chunks\<close>, \<open>Udp_Reassembly\<close> (\<^verbatim>\<open>udp.rs\<close>): splitting a frame into datagrams and
    putting it together. The encoder's datagrams are reassembled to the frame in any order, with
    losses, duplicates and foreign datagrams among them; a frame that is delivered has been checked
    against its neighbours' checksums; no index is ever out of range.

  \<^bold>\<open>The server\<close> (\<^verbatim>\<open>server/src\<close>).
  \<^item> \<open>Server_Cache\<close> (\<^verbatim>\<open>cache.rs\<close>) is one call of \<open>get_or_refresh\<close>; \<open>Cache_Concurrency\<close> is
    the same code with threads: lock, condition variable, generation and the flag \<open>in_flight\<close>. In
    every reachable state at most one thread collects, no wake-up is lost, some thread can move,
    and a call that meets no other is the sequential one. Any number of threads is allowed.
  \<^item> \<open>Collector\<close> (\<^verbatim>\<open>collector.rs\<close>): the NVML collector over an abstract NVML, the simulated
    collector, normalisation, and the contract of a collector's output, with the checker proved
    exact. The locale \<open>gres_collector\<close> is interpreted for both collectors.
  \<^item> \<open>Server_Transport\<close> (\<^verbatim>\<open>transport.rs\<close>): the handlers of all frames, over the locale
    \<open>snapshot_cache\<close>, interpreted for the two kinds of cache lookups.
  \<^item> \<open>Udp_Server\<close> (\<^verbatim>\<open>udp_transport.rs\<close>) and \<open>Tcp_Server\<close> (\<^verbatim>\<open>main.rs\<close>): one datagram,
    and one stream. Whatever a peer sends is processed, keeps the state well-formed and leaves other
    peers' state alone.
  \<^item> \<open>Server_Startup\<close> (\<^verbatim>\<open>main.rs\<close> and the configuration of \<^verbatim>\<open>common/src/config.rs\<close>):
    configuration, ports, discovery, background refresh. A server that starts has sound parameters.

  \<^bold>\<open>The client backend\<close> (\<^verbatim>\<open>client-backend/src\<close>).
  \<^item> \<open>Client_Transport\<close>, \<open>Udp_Client\<close>, \<open>Tcp_Client\<close>: requests, responses and connections. The
    receive loop is a recursion over the datagrams that arrive; it is total, and a reply that
    arrives in time is received.
  \<^item> \<open>Node_Filter\<close> (\<^verbatim>\<open>filter.rs\<close>), \<open>Client_Cache\<close> (\<^verbatim>\<open>cache.rs\<close>), \<open>Client_Views\<close>
    (\<^verbatim>\<open>adapter.rs\<close>): which nodes a query names, the rows of the cache, the answer. The
    memoised user names are proved to change nothing.
  \<^item> \<open>Client_Discovery\<close> (\<^verbatim>\<open>discovery.rs\<close>): a server that answers in time is found.
  \<^item> \<open>Client_Pool\<close> and \<open>Local_Api\<close> (\<^verbatim>\<open>local_api.rs\<close>): establishing connections in
    phases, refreshing expired entries, commands and sessions. Their lemmas are in the locale
    \<open>server_connections\<close>, the interface the pool has to a connection. \<open>Pool_Concurrency\<close> runs the
    phases of many threads in any order.
  \<^item> \<open>Client_Backend\<close> (\<^verbatim>\<open>main.rs\<close>, \<^verbatim>\<open>config.rs\<close>) interprets the locale with the real UDP
    and TCP connections over a network of peers, and proves the pool and cache invariants for every
    reachable state of the backend.

  \<^bold>\<open>The command line client\<close> (\<^verbatim>\<open>client-cli/src\<close>).
  \<^item> \<open>Cli_Args\<close> (\<^verbatim>\<open>args.rs\<close>), \<open>Cli_Render\<close> (\<^verbatim>\<open>render.rs\<close>), \<open>Cli_Schema\<close> and
    \<open>Cli_Backend\<close> (\<^verbatim>\<open>backend.rs\<close>, \<^verbatim>\<open>main.rs\<close>): options, the table, the JSON values of
    both sides of the local API, one query, the refresh loop and the exit.
  \<^item> \<open>Cli_Display\<close>, \<open>Utf8_Output\<close> and \<open>Cli_Session\<close> hold their lemmas: columns, colours, the user
    filter, valid UTF-8, the round trip of the schema, the loop.

  \<^bold>\<open>The composition.\<close> \<open>End_To_End\<close> joins the client's connections to the server's handlers, and
  \<open>Cluster\<close> joins all three programs: what \<^verbatim>\<open>clustat\<close> prints for a node whose entry had expired
  is the snapshot in the cache of that node's server.

  \<^bold>\<open>Loops, bounds and fuel.\<close> No definition uses fuel. Loops over received input recurse over that
  input; the parsers recurse over the text with a measure; \<open>refresh_loop\<close>, which runs for ever in
  watch mode, is a partial function whose value is \<open>None\<close> when it does not return, and it is proved
  to return outside watch mode and under a limit of rounds. In \<open>json_text_ok\<close> and \<open>sizes_ok\<close> times
  and sizes are bounded by the 64 bits that the code has for them.

  \<^bold>\<open>What the model shows of the code.\<close> Beside the properties, some theorems record behaviour that the
  code does not mean to have: \<open>merged_caller_spurious_error\<close>, \<open>connection_ids_collide\<close>,
  \<open>padded_protocol_never_connects\<close>, \<open>wildcard_misses_suffix\<close>, \<open>loopback_capacity_exceeds_udp\<close>,
  \<open>huge_interval_panics\<close>, \<open>padded_user_hides_rows\<close> and
  \<open>unsupported_platform_exits_with_success\<close>.

  \<^bold>\<open>Not modelled.\<close> Logging (\<^verbatim>\<open>client-backend/src/logger.rs\<close> and the JSON log lines of the
  server) and socket options, which nothing reads back; the spawning and joining of threads and the
  accept loops, whose bodies are the modelled functions; opening and mapping of files; test helpers.
  A session of the local API runs each command as one step: the interleaving of its refreshes with
  other sessions is modelled for connecting only. Poisoned locks are not modelled, since no
  modelled critical section panics. Time is a number that the caller supplies, and sleeping has no
  effect but to let it pass.
\<close>

end
